theory Spec2Isabelle
  imports Complex_Main "HOL-Library.Word"
begin

unbundle bit_operations_syntax

section \<open>Extents\<close>

text \<open>
  \<^verbatim>\<open>ExtentType\<close> is a \<^verbatim>\<open>std::array<int, 6>\<close>: \<^verbatim>\<open>[x0, x1, y0, y1, z0, z1]\<close>. The six
  entries are read and written by index; the source only ever uses the indices 0..5.
  The C++ \<^verbatim>\<open>int\<close> is modelled by \<open>int\<close>: the source only compares, adds and subtracts
  extent entries, and signed overflow is undefined behaviour in C++.
\<close>

datatype ExtentType = MkExtent int int int int int int

fun ext_at :: "ExtentType \<Rightarrow> nat \<Rightarrow> int" where
  "ext_at (MkExtent e0 e1 e2 e3 e4 e5) i =
     (if i = 0 then e0 else if i = 1 then e1 else if i = 2 then e2
      else if i = 3 then e3 else if i = 4 then e4 else e5)"

fun ext_set :: "ExtentType \<Rightarrow> nat \<Rightarrow> int \<Rightarrow> ExtentType" where
  "ext_set (MkExtent e0 e1 e2 e3 e4 e5) i v =
     (if i = 0 then MkExtent v e1 e2 e3 e4 e5
      else if i = 1 then MkExtent e0 v e2 e3 e4 e5
      else if i = 2 then MkExtent e0 e1 v e3 e4 e5
      else if i = 3 then MkExtent e0 e1 e2 v e4 e5
      else if i = 4 then MkExtent e0 e1 e2 e3 v e5
      else MkExtent e0 e1 e2 e3 e4 v)"

text \<open>\<^verbatim>\<open>IsExtentValid\<close>, and the same test written inline by the matchers.\<close>

definition IsExtentValid :: "ExtentType \<Rightarrow> bool" where
  "IsExtentValid extent \<longleftrightarrow>
     ext_at extent 0 \<le> ext_at extent 1 \<and> ext_at extent 2 \<le> ext_at extent 3 \<and>
     ext_at extent 4 \<le> ext_at extent 5"

text \<open>
  The face opposite to face \<open>idx\<close> on the same axis, as \<^verbatim>\<open>AddGhostLayerToGrid\<close> computes it:
  \<^verbatim>\<open>upperBound ? idx - 1 : idx + 1\<close> with \<^verbatim>\<open>upperBound = idx % 2\<close>.
\<close>

definition oppositeIdx :: "nat \<Rightarrow> nat" where
  "oppositeIdx idx = (if idx mod 2 \<noteq> 0 then idx - 1 else idx + 1)"

section \<open>Adjacency and overlap masks\<close>

type_synonym uchar = "8 word"

text \<open>The enumerations \<^verbatim>\<open>Adjacency\<close> and \<^verbatim>\<open>Overlap\<close>.\<close>

definition Left :: uchar where "Left = 0x01"
definition Right :: uchar where "Right = 0x02"
definition Front :: uchar where "Front = 0x04"
definition Back :: uchar where "Back = 0x08"
definition Bottom :: uchar where "Bottom = 0x10"
definition Top :: uchar where "Top = 0x20"

definition OverlapX :: uchar where "OverlapX = 0x01"
definition OverlapY :: uchar where "OverlapY = 0x02"
definition OverlapXY :: uchar where "OverlapXY = 0x03"
definition OverlapZ :: uchar where "OverlapZ = 0x04"
definition OverlapXZ :: uchar where "OverlapXZ = 0x05"
definition OverlapYZ :: uchar where "OverlapYZ = 0x06"

lemmas Adjacency_defs = Left_def Right_def Front_def Back_def Bottom_def Top_def
lemmas Overlap_defs =
  OverlapX_def OverlapY_def OverlapXY_def OverlapZ_def OverlapXZ_def OverlapYZ_def

text \<open>
  \<^verbatim>\<open>ComputeAdjacencyAndOverlapMasks(localExtent, extent, adjacencyMask, overlapMask)\<close>:
  the two output parameters are returned as a pair. A C++ comparison multiplied with an
  enumerator is \<open>of_bool c * k\<close>.
\<close>

definition ComputeAdjacencyAndOverlapMasks :: "ExtentType \<Rightarrow> ExtentType \<Rightarrow> uchar \<times> uchar" where
  "ComputeAdjacencyAndOverlapMasks localExtent extent =
    (let adjacencyMask =
       ((of_bool (ext_at localExtent 0 = ext_at extent 1) * Left) OR
        (of_bool (ext_at localExtent 1 = ext_at extent 0) * Right) OR
        (of_bool (ext_at localExtent 2 = ext_at extent 3) * Front) OR
        (of_bool (ext_at localExtent 3 = ext_at extent 2) * Back) OR
        (of_bool (ext_at localExtent 4 = ext_at extent 5) * Bottom) OR
        (of_bool (ext_at localExtent 5 = ext_at extent 4) * Top)) AND
       (((Left OR Right) * of_bool (ext_at localExtent 0 \<noteq> ext_at localExtent 1)) OR
        ((Front OR Back) * of_bool (ext_at localExtent 2 \<noteq> ext_at localExtent 3)) OR
        ((Bottom OR Top) * of_bool (ext_at localExtent 4 \<noteq> ext_at localExtent 5)));
      overlapMask =
        of_bool (ext_at localExtent 0 < ext_at extent 1 \<and> ext_at extent 0 < ext_at localExtent 1) OR
        push_bit 1 (of_bool (ext_at localExtent 2 < ext_at extent 3 \<and>
                             ext_at extent 2 < ext_at localExtent 3)) OR
        push_bit 2 (of_bool (ext_at localExtent 4 < ext_at extent 5 \<and>
                             ext_at extent 4 < ext_at localExtent 5))
     in (adjacencyMask, overlapMask))"

section \<open>Properties of the masks\<close>

lemma bit_of_bool_mult_uchar: "bit (of_bool c * (k::uchar)) n = (c \<and> bit k n)"
  by (cases c) simp_all

lemma bit_mult_of_bool_uchar: "bit ((k::uchar) * of_bool c) n = (c \<and> bit k n)"
  by (cases c) simp_all

lemma face_cases:
  assumes "f < (6::nat)"
  obtains "f = 0" | "f = 1" | "f = 2" | "f = 3" | "f = 4" | "f = 5"
  using assms by linarith

lemma axis_cases:
  assumes "a < (3::nat)"
  obtains "a = 0" | "a = 1" | "a = 2"
  using assms by linarith

lemma adjacency_bit:
  assumes "f < 6"
  shows "bit (fst (ComputeAdjacencyAndOverlapMasks A B)) f \<longleftrightarrow>
           ext_at A f = ext_at B (oppositeIdx f) \<and>
           ext_at A (2 * (f div 2)) \<noteq> ext_at A (2 * (f div 2) + 1)"
  using assms
  by (elim face_cases)
     (simp_all add: ComputeAdjacencyAndOverlapMasks_def Let_def bit_and_iff bit_or_iff
        bit_of_bool_mult_uchar bit_mult_of_bool_uchar Adjacency_defs oppositeIdx_def)

lemma adjacency_high_bits:
  "\<not> bit (fst (ComputeAdjacencyAndOverlapMasks A B)) 6"
  "\<not> bit (fst (ComputeAdjacencyAndOverlapMasks A B)) 7"
  by (simp_all add: ComputeAdjacencyAndOverlapMasks_def Let_def bit_and_iff bit_or_iff
        bit_of_bool_mult_uchar bit_mult_of_bool_uchar Adjacency_defs)

lemma overlap_bit:
  assumes "a < 3"
  shows "bit (snd (ComputeAdjacencyAndOverlapMasks A B)) a \<longleftrightarrow>
           ext_at A (2 * a) < ext_at B (2 * a + 1) \<and> ext_at B (2 * a) < ext_at A (2 * a + 1)"
  using assms
  by (elim axis_cases)
     (simp_all add: ComputeAdjacencyAndOverlapMasks_def Let_def bit_or_iff bit_push_bit_iff
        bit_of_bool_iff)

text \<open>
  Claim C1. For local-frame extents \<open>A\<close> (the local block) and \<open>B\<close> (the shifted neighbour),
  the adjacency bit of face \<open>f\<close> is set exactly when \<open>A[f] = B[opposite f]\<close> and \<open>A\<close> is not
  degenerate on the axis of \<open>f\<close> (both bits of a degenerate axis are forced off); the overlap
  bit of axis \<open>a\<close> is set exactly when \<open>A.min < B.max\<close> and \<open>B.min < A.max\<close> on that axis.
\<close>

theorem C1_adjacency_and_overlap_masks:
  assumes "IsExtentValid A" and "IsExtentValid B" and "f < 6" and "a < 3"
  shows "(bit (fst (ComputeAdjacencyAndOverlapMasks A B)) f \<longleftrightarrow>
            ext_at A f = ext_at B (oppositeIdx f) \<and>
            ext_at A (2 * (f div 2)) \<noteq> ext_at A (2 * (f div 2) + 1)) \<and>
         (bit (snd (ComputeAdjacencyAndOverlapMasks A B)) a \<longleftrightarrow>
            ext_at A (2 * a) < ext_at B (2 * a + 1) \<and> ext_at B (2 * a) < ext_at A (2 * a + 1))"
  using adjacency_bit [OF assms(3)] overlap_bit [OF assms(4)] by simp

theorem C1_adjacency_and_overlap_masks_witness:
  "IsExtentValid (MkExtent 0 4 0 4 0 0) \<and> IsExtentValid (MkExtent 4 8 2 6 0 0) \<and>
   (1::nat) < 6 \<and> (1::nat) < 3 \<and>
   bit (fst (ComputeAdjacencyAndOverlapMasks (MkExtent 0 4 0 4 0 0) (MkExtent 4 8 2 6 0 0))) (1::nat) \<and>
   bit (snd (ComputeAdjacencyAndOverlapMasks (MkExtent 0 4 0 4 0 0) (MkExtent 4 8 2 6 0 0))) (1::nat)"
proof -
  have v: "IsExtentValid (MkExtent 0 4 0 4 0 0)" "IsExtentValid (MkExtent 4 8 2 6 0 0)"
    by (simp_all add: IsExtentValid_def)
  have f: "(1::nat) < 6" and a: "(1::nat) < 3" by simp_all
  show ?thesis
    using v f a C1_adjacency_and_overlap_masks [OF v f a]
    by (simp add: oppositeIdx_def)
qed

section \<open>Ghost peeler\<close>

text \<open>
  A \<^verbatim>\<open>vtkUnsignedCharArray\<close> is the list of its values. \<^verbatim>\<open>GetValue\<close> does no bounds
  check in the source: reading outside the allocated range is undefined behaviour, which
  the model makes the result \<open>None\<close>.
\<close>

type_synonym vtkUnsignedCharArray = "uchar list"

definition GetValue :: "'a list \<Rightarrow> int \<Rightarrow> 'a option" where
  "GetValue array valueIdx =
     (if 0 \<le> valueIdx \<and> valueIdx < int (length array) then Some (array ! nat valueIdx) else None)"

fun at3 :: "'a \<times> 'a \<times> 'a \<Rightarrow> nat \<Rightarrow> 'a" where
  "at3 (a, b, c) d = (if d = 0 then a else if d = 1 then b else c)"

fun set3 :: "'a \<times> 'a \<times> 'a \<Rightarrow> nat \<Rightarrow> 'a \<Rightarrow> 'a \<times> 'a \<times> 'a" where
  "set3 (a, b, c) d v = (if d = 0 then (v, b, c) else if d = 1 then (a, v, c) else (a, b, v))"

type_synonym ijk = "int \<times> int \<times> int"
type_synonym lock3 = "bool \<times> bool \<times> bool"
type_synonym idForExtent = "ExtentType \<Rightarrow> ijk \<Rightarrow> int"

definition lowerStep ::
  "idForExtent \<Rightarrow> vtkUnsignedCharArray \<Rightarrow> ExtentType \<Rightarrow> nat \<Rightarrow> ijk \<times> lock3 \<Rightarrow> (ijk \<times> lock3) option" where
  "lowerStep cellId ghosts gridExtent axis s =
     (case s of (ijk, lock) \<Rightarrow>
        if \<not> at3 lock axis then
          (let ijk1 = set3 ijk axis (at3 ijk axis - 1) in
           case GetValue ghosts (cellId gridExtent ijk1) of
             None \<Rightarrow> None
           | Some g \<Rightarrow>
               if g \<noteq> 0 then Some (set3 ijk1 axis (at3 ijk1 axis + 1), set3 lock axis True)
               else Some (ijk1, lock))
        else Some (ijk, lock))"

definition lowerSweep ::
  "idForExtent \<Rightarrow> vtkUnsignedCharArray \<Rightarrow> ExtentType \<Rightarrow> ijk \<times> lock3 \<Rightarrow> (ijk \<times> lock3) option" where
  "lowerSweep cellId ghosts gridExtent s =
     Option.bind (Option.bind (lowerStep cellId ghosts gridExtent 0 s)
       (lowerStep cellId ghosts gridExtent 1)) (lowerStep cellId ghosts gridExtent 2)"

definition lowerGo :: "ijk \<Rightarrow> ijk \<Rightarrow> lock3 \<Rightarrow> bool" where
  "lowerGo mins ijk lock \<longleftrightarrow>
     (\<not> at3 lock 0 \<or> \<not> at3 lock 1 \<or> \<not> at3 lock 2) \<and>
     (at3 lock 0 \<or> at3 ijk 0 > at3 mins 0) \<and>
     (at3 lock 1 \<or> at3 ijk 1 > at3 mins 1) \<and>
     (at3 lock 2 \<or> at3 ijk 2 > at3 mins 2)"

definition lowerRest :: "ijk \<Rightarrow> ijk \<times> lock3 \<Rightarrow> nat \<Rightarrow> nat" where
  "lowerRest mins s d = (if at3 (snd s) d then 0 else 1 + nat (at3 (fst s) d - at3 mins d))"

definition lowerMeasure :: "ijk \<Rightarrow> ijk \<times> lock3 \<Rightarrow> nat" where
  "lowerMeasure mins s = lowerRest mins s 0 + lowerRest mins s 1 + lowerRest mins s 2"

lemma at3_set3: "d < 3 \<Longrightarrow> e < 3 \<Longrightarrow> at3 (set3 t d v) e = (if e = d then v else at3 t e)"
  by (cases t) auto

lemma set3_set3: "set3 (set3 t d v) d w = set3 t d w"
  by (cases t) auto

lemma set3_same: "d < 3 \<Longrightarrow> set3 t d (at3 t d) = t"
  by (cases t) auto

lemma lowerStep_cases:
  assumes "lowerStep cellId ghosts E d (ijk, lock) = Some (ijk', lock')" and "d < 3"
  shows "(at3 lock d \<and> ijk' = ijk \<and> lock' = lock) \<or>
         (\<not> at3 lock d \<and> ijk' = ijk \<and> lock' = set3 lock d True) \<or>
         (\<not> at3 lock d \<and> ijk' = set3 ijk d (at3 ijk d - 1) \<and> lock' = lock)"
  using assms
  by (auto simp: lowerStep_def Let_def at3_set3 set3_set3 set3_same split: option.splits if_splits)

lemma lowerStep_rest:
  assumes "lowerStep cellId ghosts E d (ijk, lock) = Some s'" and "d < 3"
    and "at3 lock d \<or> at3 ijk d > at3 mins d"
  shows "lowerRest mins s' d \<le> lowerRest mins (ijk, lock) d"
    and "\<not> at3 lock d \<Longrightarrow> lowerRest mins s' d < lowerRest mins (ijk, lock) d"
    and "e < 3 \<Longrightarrow> e \<noteq> d \<Longrightarrow> lowerRest mins s' e = lowerRest mins (ijk, lock) e"
    and "e < 3 \<Longrightarrow> e \<noteq> d \<Longrightarrow> at3 (snd s') e = at3 lock e \<and> at3 (fst s') e = at3 ijk e"
proof -
  obtain ijk' lock' where s': "s' = (ijk', lock')" by (cases s')
  note c = lowerStep_cases [OF assms(1)[unfolded s'] assms(2)]
  show "lowerRest mins s' d \<le> lowerRest mins (ijk, lock) d"
    using c assms(2,3) by (auto simp: lowerRest_def s' at3_set3)
  show "\<not> at3 lock d \<Longrightarrow> lowerRest mins s' d < lowerRest mins (ijk, lock) d"
    using c assms(2,3) by (auto simp: lowerRest_def s' at3_set3)
  show "e < 3 \<Longrightarrow> e \<noteq> d \<Longrightarrow> lowerRest mins s' e = lowerRest mins (ijk, lock) e"
    using c assms(2,3) by (auto simp: lowerRest_def s' at3_set3)
  show "e < 3 \<Longrightarrow> e \<noteq> d \<Longrightarrow> at3 (snd s') e = at3 lock e \<and> at3 (fst s') e = at3 ijk e"
    using c assms(2,3) by (auto simp: lowerRest_def s' at3_set3)
qed

lemma lowerSweep_measure:
  assumes "lowerSweep cellId ghosts E (ijk, lock) = Some s'" and "lowerGo mins ijk lock"
  shows "lowerMeasure mins s' < lowerMeasure mins (ijk, lock)"
proof -
  from assms(1) obtain s1 s2 where
    1: "lowerStep cellId ghosts E 0 (ijk, lock) = Some s1" and
    2: "lowerStep cellId ghosts E 1 s1 = Some s2" and
    3: "lowerStep cellId ghosts E 2 s2 = Some s'"
    by (auto simp: lowerSweep_def Option.bind_eq_Some_conv)
  obtain i1 l1 where s1: "s1 = (i1, l1)" by (cases s1)
  obtain i2 l2 where s2: "s2 = (i2, l2)" by (cases s2)
  have g: "at3 lock 0 \<or> at3 ijk 0 > at3 mins 0" "at3 lock 1 \<or> at3 ijk 1 > at3 mins 1"
    "at3 lock 2 \<or> at3 ijk 2 > at3 mins 2" "\<not> at3 lock 0 \<or> \<not> at3 lock 1 \<or> \<not> at3 lock 2"
    using assms(2) by (auto simp: lowerGo_def)
  note r1 = lowerStep_rest [OF 1 _ g(1), simplified]
  have g1: "at3 l1 1 \<or> at3 i1 1 > at3 mins 1" "at3 l1 2 \<or> at3 i1 2 > at3 mins 2"
    using r1(4)[of 1] r1(4)[of 2] g by (auto simp: s1)
  note r2 = lowerStep_rest [OF 2[unfolded s1] _ g1(1), simplified]
  have g2: "at3 l2 2 \<or> at3 i2 2 > at3 mins 2"
    using r2(4)[of 2] g1 by (auto simp: s2)
  note r3 = lowerStep_rest [OF 3[unfolded s2] _ g2, simplified]
  have a0: "lowerRest mins s' 0 = lowerRest mins s1 0"
    using r2(3)[of 0] r3(3)[of 0] by (simp add: s1 s2)
  have a1: "lowerRest mins s' 1 = lowerRest mins s2 1" "lowerRest mins s1 1 = lowerRest mins (ijk, lock) 1"
    using r1(3)[of 1] r3(3)[of 1] by (simp_all add: s1 s2)
  have a2: "lowerRest mins s2 2 = lowerRest mins (ijk, lock) 2"
    using r1(3)[of 2] r2(3)[of 2] by (simp_all add: s1 s2)
  have l: "at3 l1 1 = at3 lock 1" "at3 l2 2 = at3 lock 2"
    using r1(4)[of 1] r1(4)[of 2] r2(4)[of 2] by (simp_all add: s1 s2)
  show ?thesis
    using g(4) r1(1,2) r2(1,2) r3(1,2) a0 a1 a2 l
    by (auto simp: lowerMeasure_def s1 s2)
qed

function peelLower ::
  "idForExtent \<Rightarrow> vtkUnsignedCharArray \<Rightarrow> ExtentType \<Rightarrow> ijk \<Rightarrow> ijk \<Rightarrow> lock3 \<Rightarrow> ijk option" where
  "peelLower cellId ghosts gridExtent mins ijk lock =
     (if lowerGo mins ijk lock then
        (case GetValue ghosts (cellId gridExtent ijk) of
           None \<Rightarrow> None
         | Some g \<Rightarrow>
             if g = 0 then
               (case lowerSweep cellId ghosts gridExtent (ijk, lock) of
                  None \<Rightarrow> None
                | Some s' \<Rightarrow> peelLower cellId ghosts gridExtent mins (fst s') (snd s'))
             else Some ijk)
      else Some ijk)"
  by pat_completeness auto
termination
proof (relation "measure (\<lambda>(cellId, ghosts, E, mins, ijk, lock). lowerMeasure mins (ijk, lock))", goal_cases)
  case 1
  show ?case by simp
next
  case (2 cellId ghosts E mins ijk lock g s')
  then show ?case using lowerSweep_measure [of cellId ghosts E ijk lock s' mins] by simp
qed

declare peelLower.simps [simp del]

definition upperStep ::
  "idForExtent \<Rightarrow> vtkUnsignedCharArray \<Rightarrow> ExtentType \<Rightarrow> nat \<Rightarrow> ijk \<times> lock3 \<Rightarrow> (ijk \<times> lock3) option" where
  "upperStep cellId ghosts gridExtent axis s =
     (case s of (ijk, lock) \<Rightarrow>
        if \<not> at3 lock axis then
          (let ijk1 = set3 ijk axis (at3 ijk axis + 1) in
           case GetValue ghosts (cellId gridExtent ijk1) of
             None \<Rightarrow> None
           | Some g \<Rightarrow>
               if g \<noteq> 0 then Some (set3 ijk1 axis (at3 ijk1 axis - 1), set3 lock axis True)
               else Some (ijk1, lock))
        else Some (ijk, lock))"

definition upperSweep ::
  "idForExtent \<Rightarrow> vtkUnsignedCharArray \<Rightarrow> ExtentType \<Rightarrow> ijk \<times> lock3 \<Rightarrow> (ijk \<times> lock3) option" where
  "upperSweep cellId ghosts gridExtent s =
     Option.bind (Option.bind (upperStep cellId ghosts gridExtent 0 s)
       (upperStep cellId ghosts gridExtent 1)) (upperStep cellId ghosts gridExtent 2)"

definition upperGo :: "ijk \<Rightarrow> ijk \<Rightarrow> lock3 \<Rightarrow> bool" where
  "upperGo maxs ijk lock \<longleftrightarrow>
     (\<not> at3 lock 0 \<or> \<not> at3 lock 1 \<or> \<not> at3 lock 2) \<and>
     (at3 lock 0 \<or> at3 ijk 0 < at3 maxs 0 - 1) \<and>
     (at3 lock 1 \<or> at3 ijk 1 < at3 maxs 1 - 1) \<and>
     (at3 lock 2 \<or> at3 ijk 2 < at3 maxs 2 - 1)"

definition upperRest :: "ijk \<Rightarrow> ijk \<times> lock3 \<Rightarrow> nat \<Rightarrow> nat" where
  "upperRest maxs s d = (if at3 (snd s) d then 0 else 1 + nat (at3 maxs d - 1 - at3 (fst s) d))"

definition upperMeasure :: "ijk \<Rightarrow> ijk \<times> lock3 \<Rightarrow> nat" where
  "upperMeasure maxs s = upperRest maxs s 0 + upperRest maxs s 1 + upperRest maxs s 2"

lemma upperStep_cases:
  assumes "upperStep cellId ghosts E d (ijk, lock) = Some (ijk', lock')" and "d < 3"
  shows "(at3 lock d \<and> ijk' = ijk \<and> lock' = lock) \<or>
         (\<not> at3 lock d \<and> ijk' = ijk \<and> lock' = set3 lock d True) \<or>
         (\<not> at3 lock d \<and> ijk' = set3 ijk d (at3 ijk d + 1) \<and> lock' = lock)"
  using assms
  by (auto simp: upperStep_def Let_def at3_set3 set3_set3 set3_same split: option.splits if_splits)

lemma upperStep_rest:
  assumes "upperStep cellId ghosts E d (ijk, lock) = Some s'" and "d < 3"
    and "at3 lock d \<or> at3 ijk d < at3 maxs d - 1"
  shows "upperRest maxs s' d \<le> upperRest maxs (ijk, lock) d"
    and "\<not> at3 lock d \<Longrightarrow> upperRest maxs s' d < upperRest maxs (ijk, lock) d"
    and "e < 3 \<Longrightarrow> e \<noteq> d \<Longrightarrow> upperRest maxs s' e = upperRest maxs (ijk, lock) e"
    and "e < 3 \<Longrightarrow> e \<noteq> d \<Longrightarrow> at3 (snd s') e = at3 lock e \<and> at3 (fst s') e = at3 ijk e"
proof -
  obtain ijk' lock' where s': "s' = (ijk', lock')" by (cases s')
  note c = upperStep_cases [OF assms(1)[unfolded s'] assms(2)]
  show "upperRest maxs s' d \<le> upperRest maxs (ijk, lock) d"
    using c assms(2,3) by (auto simp: upperRest_def s' at3_set3)
  show "\<not> at3 lock d \<Longrightarrow> upperRest maxs s' d < upperRest maxs (ijk, lock) d"
    using c assms(2,3) by (auto simp: upperRest_def s' at3_set3)
  show "e < 3 \<Longrightarrow> e \<noteq> d \<Longrightarrow> upperRest maxs s' e = upperRest maxs (ijk, lock) e"
    using c assms(2,3) by (auto simp: upperRest_def s' at3_set3)
  show "e < 3 \<Longrightarrow> e \<noteq> d \<Longrightarrow> at3 (snd s') e = at3 lock e \<and> at3 (fst s') e = at3 ijk e"
    using c assms(2,3) by (auto simp: upperRest_def s' at3_set3)
qed

lemma upperSweep_measure:
  assumes "upperSweep cellId ghosts E (ijk, lock) = Some s'" and "upperGo maxs ijk lock"
  shows "upperMeasure maxs s' < upperMeasure maxs (ijk, lock)"
proof -
  from assms(1) obtain s1 s2 where
    1: "upperStep cellId ghosts E 0 (ijk, lock) = Some s1" and
    2: "upperStep cellId ghosts E 1 s1 = Some s2" and
    3: "upperStep cellId ghosts E 2 s2 = Some s'"
    by (auto simp: upperSweep_def Option.bind_eq_Some_conv)
  obtain i1 l1 where s1: "s1 = (i1, l1)" by (cases s1)
  obtain i2 l2 where s2: "s2 = (i2, l2)" by (cases s2)
  have g: "at3 lock 0 \<or> at3 ijk 0 < at3 maxs 0 - 1" "at3 lock 1 \<or> at3 ijk 1 < at3 maxs 1 - 1"
    "at3 lock 2 \<or> at3 ijk 2 < at3 maxs 2 - 1" "\<not> at3 lock 0 \<or> \<not> at3 lock 1 \<or> \<not> at3 lock 2"
    using assms(2) by (auto simp: upperGo_def)
  note r1 = upperStep_rest [OF 1 _ g(1), simplified]
  have g1: "at3 l1 1 \<or> at3 i1 1 < at3 maxs 1 - 1" "at3 l1 2 \<or> at3 i1 2 < at3 maxs 2 - 1"
    using r1(4)[of 1] r1(4)[of 2] g by (auto simp: s1)
  note r2 = upperStep_rest [OF 2[unfolded s1] _ g1(1), simplified]
  have g2: "at3 l2 2 \<or> at3 i2 2 < at3 maxs 2 - 1"
    using r2(4)[of 2] g1 by (auto simp: s2)
  note r3 = upperStep_rest [OF 3[unfolded s2] _ g2, simplified]
  have a0: "upperRest maxs s' 0 = upperRest maxs s1 0"
    using r2(3)[of 0] r3(3)[of 0] by (simp add: s1 s2)
  have a1: "upperRest maxs s' 1 = upperRest maxs s2 1" "upperRest maxs s1 1 = upperRest maxs (ijk, lock) 1"
    using r1(3)[of 1] r3(3)[of 1] by (simp_all add: s1 s2)
  have a2: "upperRest maxs s2 2 = upperRest maxs (ijk, lock) 2"
    using r1(3)[of 2] r2(3)[of 2] by (simp_all add: s1 s2)
  have l: "at3 l1 1 = at3 lock 1" "at3 l2 2 = at3 lock 2"
    using r1(4)[of 1] r1(4)[of 2] r2(4)[of 2] by (simp_all add: s1 s2)
  show ?thesis
    using g(4) r1(1,2) r2(1,2) r3(1,2) a0 a1 a2 l
    by (auto simp: upperMeasure_def s1 s2)
qed

function peelUpper ::
  "idForExtent \<Rightarrow> vtkUnsignedCharArray \<Rightarrow> ExtentType \<Rightarrow> ijk \<Rightarrow> ijk \<Rightarrow> lock3 \<Rightarrow> ijk option" where
  "peelUpper cellId ghosts gridExtent maxs ijk lock =
     (if upperGo maxs ijk lock then
        (case GetValue ghosts (cellId gridExtent ijk) of
           None \<Rightarrow> None
         | Some g \<Rightarrow>
             if g = 0 then
               (case upperSweep cellId ghosts gridExtent (ijk, lock) of
                  None \<Rightarrow> None
                | Some s' \<Rightarrow> peelUpper cellId ghosts gridExtent maxs (fst s') (snd s'))
             else Some ijk)
      else Some ijk)"
  by pat_completeness auto
termination
proof (relation "measure (\<lambda>(cellId, ghosts, E, maxs, ijk, lock). upperMeasure maxs (ijk, lock))", goal_cases)
  case 1
  show ?case by simp
next
  case (2 cellId ghosts E maxs ijk lock g s')
  then show ?case using upperSweep_measure [of cellId ghosts E ijk lock s' maxs] by simp
qed

declare peelUpper.simps [simp del]

record GridDataSet =
  GridExtent :: ExtentType
  CellGhostArray :: "vtkUnsignedCharArray option"

definition PeelOffGhostLayers :: "idForExtent \<Rightarrow> GridDataSet \<Rightarrow> int \<Rightarrow> ExtentType option" where
  "PeelOffGhostLayers ComputeCellIdForExtent grid ghostLevel =
     (case CellGhostArray grid of
        None \<Rightarrow> Some (GridExtent grid)
      | Some ghosts \<Rightarrow>
          (let gridExtent = GridExtent grid;
               imin = ext_at gridExtent 0;
               imax = max (ext_at gridExtent 1) (ext_at gridExtent 0 + 1);
               jmin = ext_at gridExtent 2;
               jmax = max (ext_at gridExtent 3) (ext_at gridExtent 2 + 1);
               kmin = ext_at gridExtent 4;
               kmax = max (ext_at gridExtent 5) (ext_at gridExtent 4 + 1);
               lock = (ext_at gridExtent 0 = ext_at gridExtent 1,
                       ext_at gridExtent 2 = ext_at gridExtent 3,
                       ext_at gridExtent 4 = ext_at gridExtent 5)
           in case peelLower ComputeCellIdForExtent ghosts gridExtent (imin, jmin, kmin)
                     (min (imin + ghostLevel) (imax - 1), min (jmin + ghostLevel) (jmax - 1),
                      min (kmin + ghostLevel) (kmax - 1)) lock of
                None \<Rightarrow> None
              | Some lower \<Rightarrow>
                  (case peelUpper ComputeCellIdForExtent ghosts gridExtent (imax, jmax, kmax)
                          (max (imax - 1 - ghostLevel) imin, max (jmax - 1 - ghostLevel) jmin,
                           max (kmax - 1 - ghostLevel) kmin) lock of
                     None \<Rightarrow> None
                   | Some upper \<Rightarrow>
                       Some (MkExtent
                         (at3 lower 0)
                         (at3 upper 0 + of_bool (ext_at gridExtent 0 \<noteq> ext_at gridExtent 1))
                         (at3 lower 1)
                         (at3 upper 1 + of_bool (ext_at gridExtent 2 \<noteq> ext_at gridExtent 3))
                         (at3 lower 2)
                         (at3 upper 2 + of_bool (ext_at gridExtent 4 \<noteq> ext_at gridExtent 5))))))"


subsection \<open>When the peeler returns the unmarked box\<close>

definition cellMin :: "ExtentType \<Rightarrow> nat \<Rightarrow> int" where
  "cellMin X a = ext_at X (2 * a)"

definition cellEnd :: "ExtentType \<Rightarrow> nat \<Rightarrow> int" where
  "cellEnd X a = max (ext_at X (2 * a + 1)) (ext_at X (2 * a) + 1)"

definition inCells :: "ExtentType \<Rightarrow> ijk \<Rightarrow> bool" where
  "inCells X c \<longleftrightarrow> (\<forall>a<3. cellMin X a \<le> at3 c a \<and> at3 c a < cellEnd X a)"

definition marksOutside :: "idForExtent \<Rightarrow> vtkUnsignedCharArray \<Rightarrow> ExtentType \<Rightarrow> ExtentType \<Rightarrow> bool" where
  "marksOutside cellId ghosts E P \<longleftrightarrow>
     (\<forall>c. inCells E c \<longrightarrow>
        (\<exists>g. GetValue ghosts (cellId E c) = Some g \<and> (g = 0 \<longleftrightarrow> inCells P c)))"

definition cellsWithin :: "ExtentType \<Rightarrow> ExtentType \<Rightarrow> bool" where
  "cellsWithin P E \<longleftrightarrow> (\<forall>a<3. cellMin E a \<le> cellMin P a \<and> cellEnd P a \<le> cellEnd E a)"

definition lowerNextAxis :: "ExtentType \<Rightarrow> nat \<Rightarrow> ijk \<times> lock3 \<Rightarrow> ijk \<times> lock3" where
  "lowerNextAxis P d s =
     (if at3 (snd s) d then s
      else if at3 (fst s) d > cellMin P d then (set3 (fst s) d (at3 (fst s) d - 1), snd s)
      else (fst s, set3 (snd s) d True))"

lemma inCells_set3:
  assumes "inCells X c" "d < 3" "cellMin X d \<le> v" "v < cellEnd X d"
  shows "inCells X (set3 c d v)"
  using assms by (auto simp: inCells_def at3_set3)

lemma lowerStep_explicit:
  assumes marks: "marksOutside cellId ghosts E P" and sub: "cellsWithin P E"
    and d: "d < 3" and inP: "inCells P c" and go: "at3 l d \<or> at3 c d > cellMin E d"
  shows "lowerStep cellId ghosts E d (c, l) = Some (lowerNextAxis P d (c, l))"
proof (cases "at3 l d")
  case True
  then show ?thesis by (simp add: lowerStep_def lowerNextAxis_def)
next
  case False
  let ?c' = "set3 c d (at3 c d - 1)"
  have cd: "cellMin P d \<le> at3 c d" "at3 c d < cellEnd P d" "cellMin E d \<le> cellMin P d"
    "cellEnd P d \<le> cellEnd E d"
    using inP sub d by (auto simp: inCells_def cellsWithin_def)
  have inE: "inCells E c" using inP sub by (auto simp: inCells_def cellsWithin_def) force+
  have "inCells E ?c'"
    using inE d False go cd by (intro inCells_set3) auto
  then obtain g where g: "GetValue ghosts (cellId E ?c') = Some g" "g = 0 \<longleftrightarrow> inCells P ?c'"
    using marks [unfolded marksOutside_def, rule_format, of ?c'] by blast
  have iff: "inCells P ?c' \<longleftrightarrow> at3 c d > cellMin P d"
  proof
    assume "inCells P ?c'"
    then show "at3 c d > cellMin P d" using d by (auto simp: inCells_def at3_set3)
  next
    assume "at3 c d > cellMin P d"
    then show "inCells P ?c'" using inP d cd by (intro inCells_set3) auto
  qed
  show ?thesis
    using False g iff d
    by (auto simp: lowerStep_def lowerNextAxis_def Let_def set3_set3 set3_same at3_set3)
qed

lemma lowerNextAxis_at:
  assumes "d < 3" "a < 3"
  shows "at3 (fst (lowerNextAxis P d s)) a =
           (if a = d \<and> \<not> at3 (snd s) d \<and> at3 (fst s) d > cellMin P d then at3 (fst s) a - 1
            else at3 (fst s) a)"
    and "at3 (snd (lowerNextAxis P d s)) a =
           (if a = d \<and> \<not> at3 (fst s) d > cellMin P d then True else at3 (snd s) a)"
  using assms by (auto simp: lowerNextAxis_def at3_set3)

lemma lowerNextAxis_inCells:
  assumes "inCells P (fst s)" "d < 3"
  shows "inCells P (fst (lowerNextAxis P d s))"
  using assms by (auto simp: inCells_def lowerNextAxis_at)

definition lowerNext :: "ExtentType \<Rightarrow> ijk \<times> lock3 \<Rightarrow> ijk \<times> lock3" where
  "lowerNext P s = lowerNextAxis P 2 (lowerNextAxis P 1 (lowerNextAxis P 0 s))"

lemma lowerNext_at:
  assumes "a < 3"
  shows "at3 (fst (lowerNext P s)) a =
           (if \<not> at3 (snd s) a \<and> at3 (fst s) a > cellMin P a then at3 (fst s) a - 1
            else at3 (fst s) a)"
    and "at3 (snd (lowerNext P s)) a = (at3 (snd s) a \<or> \<not> at3 (fst s) a > cellMin P a)"
  using assms by (elim axis_cases; simp add: lowerNext_def lowerNextAxis_at; fail)+

lemma lowerSweep_explicit:
  assumes marks: "marksOutside cellId ghosts E P" and sub: "cellsWithin P E"
    and inP: "inCells P c" and go: "lowerGo (cellMin E 0, cellMin E 1, cellMin E 2) c l"
  shows "lowerSweep cellId ghosts E (c, l) = Some (lowerNext P (c, l))"
proof -
  let ?s1 = "lowerNextAxis P 0 (c, l)"
  let ?s2 = "lowerNextAxis P 1 ?s1"
  have g: "at3 l 0 \<or> at3 c 0 > cellMin E 0" "at3 l 1 \<or> at3 c 1 > cellMin E 1"
    "at3 l 2 \<or> at3 c 2 > cellMin E 2"
    using go by (auto simp: lowerGo_def)
  have 1: "lowerStep cellId ghosts E 0 (c, l) = Some ?s1"
    using lowerStep_explicit [OF marks sub _ inP, of 0 l] g by simp
  have in1: "inCells P (fst ?s1)" using lowerNextAxis_inCells [of P "(c, l)" 0] inP by simp
  have g1: "at3 (snd ?s1) 1 \<or> at3 (fst ?s1) 1 > cellMin E 1"
    using g by (simp add: lowerNextAxis_at)
  have 2: "lowerStep cellId ghosts E 1 ?s1 = Some ?s2"
    using lowerStep_explicit [OF marks sub _ in1, of 1 "snd ?s1"] g1 by simp
  have in2: "inCells P (fst ?s2)" using lowerNextAxis_inCells [of P ?s1 1] in1 by simp
  have g2: "at3 (snd ?s2) 2 \<or> at3 (fst ?s2) 2 > cellMin E 2"
    using g by (simp add: lowerNextAxis_at)
  have 3: "lowerStep cellId ghosts E 2 ?s2 = Some (lowerNextAxis P 2 ?s2)"
    using lowerStep_explicit [OF marks sub _ in2, of 2 "snd ?s2"] g2 by simp
  show ?thesis
    by (simp only: lowerSweep_def lowerNext_def 1 2 3 Option.bind.simps)
qed

definition lowerInv :: "ExtentType \<Rightarrow> ExtentType \<Rightarrow> ijk \<times> lock3 \<Rightarrow> bool" where
  "lowerInv E P s \<longleftrightarrow>
     inCells P (fst s) \<and>
     (\<forall>a<3. at3 (snd s) a \<longrightarrow> at3 (fst s) a = cellMin P a) \<and>
     (\<forall>a<3. \<forall>b<3. \<not> at3 (snd s) a \<and> cellMin P a = cellMin E a \<longrightarrow>
         at3 (fst s) b - cellMin P b \<le> at3 (fst s) a - cellMin E a)"

lemma lowerInv_next:
  assumes inv: "lowerInv E P (c, l)" and go: "lowerGo (cellMin E 0, cellMin E 1, cellMin E 2) c l"
  shows "lowerInv E P (lowerNext P (c, l))"
proof -
  have inP: "inCells P c"
    and lk: "\<And>a. a < 3 \<Longrightarrow> at3 l a \<Longrightarrow> at3 c a = cellMin P a"
    and rel: "\<And>a b. a < 3 \<Longrightarrow> b < 3 \<Longrightarrow> \<not> at3 l a \<Longrightarrow> cellMin P a = cellMin E a \<Longrightarrow>
         at3 c b - cellMin P b \<le> at3 c a - cellMin E a"
    using inv by (auto simp: lowerInv_def)
  have lo: "\<And>a. a < 3 \<Longrightarrow> cellMin P a \<le> at3 c a"
    using inP by (auto simp: inCells_def)
  have gt: "\<And>a. a < 3 \<Longrightarrow> \<not> at3 l a \<Longrightarrow> at3 c a > cellMin E a"
    using go by (auto simp: lowerGo_def elim!: axis_cases)
  have 1: "inCells P (fst (lowerNext P (c, l)))"
    using inP by (auto simp: inCells_def lowerNext_at)
  have 2: "\<forall>a<3. at3 (snd (lowerNext P (c, l))) a \<longrightarrow> at3 (fst (lowerNext P (c, l))) a = cellMin P a"
    using lk lo by (auto simp: lowerNext_at) force
  have 3: "\<forall>a<3. \<forall>b<3. \<not> at3 (snd (lowerNext P (c, l))) a \<and> cellMin P a = cellMin E a \<longrightarrow>
         at3 (fst (lowerNext P (c, l))) b - cellMin P b \<le> at3 (fst (lowerNext P (c, l))) a - cellMin E a"
  proof (intro allI impI)
    fix a b :: nat assume a: "a < 3" and b: "b < 3"
      and h: "\<not> at3 (snd (lowerNext P (c, l))) a \<and> cellMin P a = cellMin E a"
    from h a have na: "\<not> at3 l a" "at3 c a > cellMin P a" by (auto simp: lowerNext_at)
    have r: "at3 c b - cellMin P b \<le> at3 c a - cellMin E a" using rel [OF a b na(1)] h by simp
    show "at3 (fst (lowerNext P (c, l))) b - cellMin P b \<le> at3 (fst (lowerNext P (c, l))) a - cellMin E a"
      using r na a b h lo [OF b] lk [OF b] by (auto simp: lowerNext_at)
  qed
  show ?thesis unfolding lowerInv_def using 1 2 3 by blast
qed

lemma lowerInv_stop:
  assumes inv: "lowerInv E P (c, l)" and stop: "\<not> lowerGo (cellMin E 0, cellMin E 1, cellMin E 2) c l"
    and sub: "cellsWithin P E"
  shows "c = (cellMin P 0, cellMin P 1, cellMin P 2)"
proof -
  have inP: "inCells P c"
    and lk: "\<And>a. a < 3 \<Longrightarrow> at3 l a \<Longrightarrow> at3 c a = cellMin P a"
    and rel: "\<And>a b. a < 3 \<Longrightarrow> b < 3 \<Longrightarrow> \<not> at3 l a \<Longrightarrow> cellMin P a = cellMin E a \<Longrightarrow>
         at3 c b - cellMin P b \<le> at3 c a - cellMin E a"
    using inv by (auto simp: lowerInv_def)
  have lo: "\<And>a. a < 3 \<Longrightarrow> cellMin P a \<le> at3 c a"
    using inP by (auto simp: inCells_def)
  have pe: "\<And>a. a < 3 \<Longrightarrow> cellMin E a \<le> cellMin P a"
    using sub by (auto simp: cellsWithin_def)
  have all: "at3 c b = cellMin P b" if b: "b < 3" for b
  proof (cases "at3 l 0 \<and> at3 l 1 \<and> at3 l 2")
    case True
    then show ?thesis using b lk by (elim axis_cases) auto
  next
    case False
    have "\<exists>a<3. \<not> at3 l a \<and> at3 c a \<le> cellMin E a"
    proof -
      have "(\<not> at3 l 0 \<and> at3 c 0 \<le> cellMin E 0) \<or> (\<not> at3 l 1 \<and> at3 c 1 \<le> cellMin E 1) \<or>
            (\<not> at3 l 2 \<and> at3 c 2 \<le> cellMin E 2)"
        using False stop by (auto simp: lowerGo_def not_less)
      moreover have "(0::nat) < 3" "(1::nat) < 3" "(2::nat) < 3" by simp_all
      ultimately show ?thesis by blast
    qed
    then obtain a where a: "a < 3" "\<not> at3 l a" "at3 c a \<le> cellMin E a" by blast
    have "cellMin P a = cellMin E a" "at3 c a = cellMin E a"
      using a lo [OF a(1)] pe [OF a(1)] by auto
    then show ?thesis
      using rel [OF a(1) b a(2)] lo [OF b] by auto
  qed
  obtain i j k where c: "c = (i, j, k)" by (cases c)
  show ?thesis using all [of 0] all [of 1] all [of 2] by (simp add: c)
qed

lemma peelLower_correct:
  assumes marks: "marksOutside cellId ghosts E P" and sub: "cellsWithin P E"
    and inv: "lowerInv E P (c, l)"
  shows "peelLower cellId ghosts E (cellMin E 0, cellMin E 1, cellMin E 2) c l =
           Some (cellMin P 0, cellMin P 1, cellMin P 2)"
  using inv
proof (induction "lowerMeasure (cellMin E 0, cellMin E 1, cellMin E 2) (c, l)" arbitrary: c l
    rule: less_induct)
  case less
  let ?mins = "(cellMin E 0, cellMin E 1, cellMin E 2)"
  show ?case
  proof (cases "lowerGo ?mins c l")
    case False
    then show ?thesis
      using lowerInv_stop [OF less.prems False sub] by (subst peelLower.simps) simp
  next
    case True
    have inP: "inCells P c" using less.prems by (simp add: lowerInv_def)
    then have inE: "inCells E c" using sub by (auto simp: inCells_def cellsWithin_def) force+
    obtain g where g: "GetValue ghosts (cellId E c) = Some g" "g = 0"
      using marks [unfolded marksOutside_def, rule_format, OF inE] inP by blast
    have sw: "lowerSweep cellId ghosts E (c, l) = Some (lowerNext P (c, l))"
      by (rule lowerSweep_explicit [OF marks sub inP True])
    have m: "lowerMeasure ?mins (lowerNext P (c, l)) < lowerMeasure ?mins (c, l)"
      by (rule lowerSweep_measure [OF sw True])
    have "peelLower cellId ghosts E ?mins (fst (lowerNext P (c, l))) (snd (lowerNext P (c, l))) =
            Some (cellMin P 0, cellMin P 1, cellMin P 2)"
      using less.hyps [of "fst (lowerNext P (c, l))" "snd (lowerNext P (c, l))"] m
        lowerInv_next [OF less.prems True] by simp
    then show ?thesis
      using True g sw by (subst peelLower.simps) simp
  qed
qed

definition upperNextAxis :: "ExtentType \<Rightarrow> nat \<Rightarrow> ijk \<times> lock3 \<Rightarrow> ijk \<times> lock3" where
  "upperNextAxis P d s =
     (if at3 (snd s) d then s
      else if at3 (fst s) d < cellEnd P d - 1 then (set3 (fst s) d (at3 (fst s) d + 1), snd s)
      else (fst s, set3 (snd s) d True))"

lemma upperStep_explicit:
  assumes marks: "marksOutside cellId ghosts E P" and sub: "cellsWithin P E"
    and d: "d < 3" and inP: "inCells P c" and go: "at3 l d \<or> at3 c d < cellEnd E d - 1"
  shows "upperStep cellId ghosts E d (c, l) = Some (upperNextAxis P d (c, l))"
proof (cases "at3 l d")
  case True
  then show ?thesis by (simp add: upperStep_def upperNextAxis_def)
next
  case False
  let ?c' = "set3 c d (at3 c d + 1)"
  have cd: "cellMin P d \<le> at3 c d" "at3 c d < cellEnd P d" "cellMin E d \<le> cellMin P d"
    "cellEnd P d \<le> cellEnd E d"
    using inP sub d by (auto simp: inCells_def cellsWithin_def)
  have inE: "inCells E c" using inP sub by (auto simp: inCells_def cellsWithin_def) force+
  have "inCells E ?c'"
    using inE d False go cd by (intro inCells_set3) auto
  then obtain g where g: "GetValue ghosts (cellId E ?c') = Some g" "g = 0 \<longleftrightarrow> inCells P ?c'"
    using marks [unfolded marksOutside_def, rule_format, of ?c'] by blast
  have iff: "inCells P ?c' \<longleftrightarrow> at3 c d < cellEnd P d - 1"
  proof
    assume "inCells P ?c'"
    then show "at3 c d < cellEnd P d - 1" using d by (auto simp: inCells_def at3_set3)
  next
    assume "at3 c d < cellEnd P d - 1"
    then show "inCells P ?c'" using inP d cd by (intro inCells_set3) auto
  qed
  show ?thesis
    using False g iff d
    by (auto simp: upperStep_def upperNextAxis_def Let_def set3_set3 set3_same at3_set3)
qed

lemma upperNextAxis_at:
  assumes "d < 3" "a < 3"
  shows "at3 (fst (upperNextAxis P d s)) a =
           (if a = d \<and> \<not> at3 (snd s) d \<and> at3 (fst s) d < cellEnd P d - 1 then at3 (fst s) a + 1
            else at3 (fst s) a)"
    and "at3 (snd (upperNextAxis P d s)) a =
           (if a = d \<and> \<not> at3 (fst s) d < cellEnd P d - 1 then True else at3 (snd s) a)"
  using assms by (auto simp: upperNextAxis_def at3_set3)

lemma upperNextAxis_inCells:
  assumes "inCells P (fst s)" "d < 3"
  shows "inCells P (fst (upperNextAxis P d s))"
  using assms by (auto simp: inCells_def upperNextAxis_at)

definition upperNext :: "ExtentType \<Rightarrow> ijk \<times> lock3 \<Rightarrow> ijk \<times> lock3" where
  "upperNext P s = upperNextAxis P 2 (upperNextAxis P 1 (upperNextAxis P 0 s))"

lemma upperNext_at:
  assumes "a < 3"
  shows "at3 (fst (upperNext P s)) a =
           (if \<not> at3 (snd s) a \<and> at3 (fst s) a < cellEnd P a - 1 then at3 (fst s) a + 1
            else at3 (fst s) a)"
    and "at3 (snd (upperNext P s)) a = (at3 (snd s) a \<or> \<not> at3 (fst s) a < cellEnd P a - 1)"
  using assms by (elim axis_cases; simp add: upperNext_def upperNextAxis_at; fail)+

lemma upperSweep_explicit:
  assumes marks: "marksOutside cellId ghosts E P" and sub: "cellsWithin P E"
    and inP: "inCells P c" and go: "upperGo (cellEnd E 0, cellEnd E 1, cellEnd E 2) c l"
  shows "upperSweep cellId ghosts E (c, l) = Some (upperNext P (c, l))"
proof -
  let ?s1 = "upperNextAxis P 0 (c, l)"
  let ?s2 = "upperNextAxis P 1 ?s1"
  have g: "at3 l 0 \<or> at3 c 0 < cellEnd E 0 - 1" "at3 l 1 \<or> at3 c 1 < cellEnd E 1 - 1"
    "at3 l 2 \<or> at3 c 2 < cellEnd E 2 - 1"
    using go by (auto simp: upperGo_def)
  have 1: "upperStep cellId ghosts E 0 (c, l) = Some ?s1"
    using upperStep_explicit [OF marks sub _ inP, of 0 l] g by simp
  have in1: "inCells P (fst ?s1)" using upperNextAxis_inCells [of P "(c, l)" 0] inP by simp
  have g1: "at3 (snd ?s1) 1 \<or> at3 (fst ?s1) 1 < cellEnd E 1 - 1"
    using g by (simp add: upperNextAxis_at)
  have 2: "upperStep cellId ghosts E 1 ?s1 = Some ?s2"
    using upperStep_explicit [OF marks sub _ in1, of 1 "snd ?s1"] g1 by simp
  have in2: "inCells P (fst ?s2)" using upperNextAxis_inCells [of P ?s1 1] in1 by simp
  have g2: "at3 (snd ?s2) 2 \<or> at3 (fst ?s2) 2 < cellEnd E 2 - 1"
    using g by (simp add: upperNextAxis_at)
  have 3: "upperStep cellId ghosts E 2 ?s2 = Some (upperNextAxis P 2 ?s2)"
    using upperStep_explicit [OF marks sub _ in2, of 2 "snd ?s2"] g2 by simp
  show ?thesis
    by (simp only: upperSweep_def upperNext_def 1 2 3 Option.bind.simps)
qed

definition upperInv :: "ExtentType \<Rightarrow> ExtentType \<Rightarrow> ijk \<times> lock3 \<Rightarrow> bool" where
  "upperInv E P s \<longleftrightarrow>
     inCells P (fst s) \<and>
     (\<forall>a<3. at3 (snd s) a \<longrightarrow> at3 (fst s) a = cellEnd P a - 1) \<and>
     (\<forall>a<3. \<forall>b<3. \<not> at3 (snd s) a \<and> cellEnd P a = cellEnd E a \<longrightarrow>
         cellEnd P b - 1 - at3 (fst s) b \<le> cellEnd E a - 1 - at3 (fst s) a)"

lemma upperInv_next:
  assumes inv: "upperInv E P (c, l)" and go: "upperGo (cellEnd E 0, cellEnd E 1, cellEnd E 2) c l"
  shows "upperInv E P (upperNext P (c, l))"
proof -
  have inP: "inCells P c"
    and lk: "\<And>a. a < 3 \<Longrightarrow> at3 l a \<Longrightarrow> at3 c a = cellEnd P a - 1"
    and rel: "\<And>a b. a < 3 \<Longrightarrow> b < 3 \<Longrightarrow> \<not> at3 l a \<Longrightarrow> cellEnd P a = cellEnd E a \<Longrightarrow>
         cellEnd P b - 1 - at3 c b \<le> cellEnd E a - 1 - at3 c a"
    using inv by (auto simp: upperInv_def)
  have hi: "\<And>a. a < 3 \<Longrightarrow> at3 c a \<le> cellEnd P a - 1"
    using inP by (auto simp: inCells_def)
  have 1: "inCells P (fst (upperNext P (c, l)))"
    using inP by (auto simp: inCells_def upperNext_at)
  have 2: "\<forall>a<3. at3 (snd (upperNext P (c, l))) a \<longrightarrow> at3 (fst (upperNext P (c, l))) a = cellEnd P a - 1"
    using lk hi by (auto simp: upperNext_at) force
  have 3: "\<forall>a<3. \<forall>b<3. \<not> at3 (snd (upperNext P (c, l))) a \<and> cellEnd P a = cellEnd E a \<longrightarrow>
         cellEnd P b - 1 - at3 (fst (upperNext P (c, l))) b \<le> cellEnd E a - 1 - at3 (fst (upperNext P (c, l))) a"
  proof (intro allI impI)
    fix a b :: nat assume a: "a < 3" and b: "b < 3"
      and h: "\<not> at3 (snd (upperNext P (c, l))) a \<and> cellEnd P a = cellEnd E a"
    from h a have na: "\<not> at3 l a" "at3 c a < cellEnd P a - 1" by (auto simp: upperNext_at)
    have r: "cellEnd P b - 1 - at3 c b \<le> cellEnd E a - 1 - at3 c a" using rel [OF a b na(1)] h by simp
    show "cellEnd P b - 1 - at3 (fst (upperNext P (c, l))) b \<le> cellEnd E a - 1 - at3 (fst (upperNext P (c, l))) a"
      using r na a b h hi [OF b] lk [OF b] by (auto simp: upperNext_at)
  qed
  show ?thesis unfolding upperInv_def using 1 2 3 by blast
qed

lemma upperInv_stop:
  assumes inv: "upperInv E P (c, l)" and stop: "\<not> upperGo (cellEnd E 0, cellEnd E 1, cellEnd E 2) c l"
    and sub: "cellsWithin P E"
  shows "c = (cellEnd P 0 - 1, cellEnd P 1 - 1, cellEnd P 2 - 1)"
proof -
  have inP: "inCells P c"
    and lk: "\<And>a. a < 3 \<Longrightarrow> at3 l a \<Longrightarrow> at3 c a = cellEnd P a - 1"
    and rel: "\<And>a b. a < 3 \<Longrightarrow> b < 3 \<Longrightarrow> \<not> at3 l a \<Longrightarrow> cellEnd P a = cellEnd E a \<Longrightarrow>
         cellEnd P b - 1 - at3 c b \<le> cellEnd E a - 1 - at3 c a"
    using inv by (auto simp: upperInv_def)
  have hi: "\<And>a. a < 3 \<Longrightarrow> at3 c a \<le> cellEnd P a - 1"
    using inP by (auto simp: inCells_def)
  have pe: "\<And>a. a < 3 \<Longrightarrow> cellEnd P a \<le> cellEnd E a"
    using sub by (auto simp: cellsWithin_def)
  have all: "at3 c b = cellEnd P b - 1" if b: "b < 3" for b
  proof (cases "at3 l 0 \<and> at3 l 1 \<and> at3 l 2")
    case True
    then show ?thesis using b lk by (elim axis_cases) auto
  next
    case False
    have "\<exists>a<3. \<not> at3 l a \<and> at3 c a \<ge> cellEnd E a - 1"
    proof -
      have "(\<not> at3 l 0 \<and> at3 c 0 \<ge> cellEnd E 0 - 1) \<or> (\<not> at3 l 1 \<and> at3 c 1 \<ge> cellEnd E 1 - 1) \<or>
            (\<not> at3 l 2 \<and> at3 c 2 \<ge> cellEnd E 2 - 1)"
        using False stop by (auto simp: upperGo_def not_less)
      moreover have "(0::nat) < 3" "(1::nat) < 3" "(2::nat) < 3" by simp_all
      ultimately show ?thesis by blast
    qed
    then obtain a where a: "a < 3" "\<not> at3 l a" "at3 c a \<ge> cellEnd E a - 1" by blast
    have "cellEnd P a = cellEnd E a" "at3 c a = cellEnd E a - 1"
      using a hi [OF a(1)] pe [OF a(1)] by auto
    then show ?thesis
      using rel [OF a(1) b a(2)] hi [OF b] by auto
  qed
  obtain i j k where c: "c = (i, j, k)" by (cases c)
  show ?thesis using all [of 0] all [of 1] all [of 2] by (simp add: c)
qed

lemma peelUpper_correct:
  assumes marks: "marksOutside cellId ghosts E P" and sub: "cellsWithin P E"
    and inv: "upperInv E P (c, l)"
  shows "peelUpper cellId ghosts E (cellEnd E 0, cellEnd E 1, cellEnd E 2) c l =
           Some (cellEnd P 0 - 1, cellEnd P 1 - 1, cellEnd P 2 - 1)"
  using inv
proof (induction "upperMeasure (cellEnd E 0, cellEnd E 1, cellEnd E 2) (c, l)" arbitrary: c l
    rule: less_induct)
  case less
  let ?maxs = "(cellEnd E 0, cellEnd E 1, cellEnd E 2)"
  show ?case
  proof (cases "upperGo ?maxs c l")
    case False
    then show ?thesis
      using upperInv_stop [OF less.prems False sub] by (subst peelUpper.simps) simp
  next
    case True
    have inP: "inCells P c" using less.prems by (simp add: upperInv_def)
    then have inE: "inCells E c" using sub by (auto simp: inCells_def cellsWithin_def) force+
    obtain g where g: "GetValue ghosts (cellId E c) = Some g" "g = 0"
      using marks [unfolded marksOutside_def, rule_format, OF inE] inP by blast
    have sw: "upperSweep cellId ghosts E (c, l) = Some (upperNext P (c, l))"
      by (rule upperSweep_explicit [OF marks sub inP True])
    have m: "upperMeasure ?maxs (upperNext P (c, l)) < upperMeasure ?maxs (c, l)"
      by (rule upperSweep_measure [OF sw True])
    have "peelUpper cellId ghosts E ?maxs (fst (upperNext P (c, l))) (snd (upperNext P (c, l))) =
            Some (cellEnd P 0 - 1, cellEnd P 1 - 1, cellEnd P 2 - 1)"
      using less.hyps [of "fst (upperNext P (c, l))" "snd (upperNext P (c, l))"] m
        upperInv_next [OF less.prems True] by simp
    then show ?thesis
      using True g sw by (subst peelUpper.simps) simp
  qed
qed

definition lowerStart :: "ExtentType \<Rightarrow> int \<Rightarrow> ijk" where
  "lowerStart E g =
     (min (cellMin E 0 + g) (cellEnd E 0 - 1), min (cellMin E 1 + g) (cellEnd E 1 - 1),
      min (cellMin E 2 + g) (cellEnd E 2 - 1))"

definition upperStart :: "ExtentType \<Rightarrow> int \<Rightarrow> ijk" where
  "upperStart E g =
     (max (cellEnd E 0 - 1 - g) (cellMin E 0), max (cellEnd E 1 - 1 - g) (cellMin E 1),
      max (cellEnd E 2 - 1 - g) (cellMin E 2))"

definition startLock :: "ExtentType \<Rightarrow> lock3" where
  "startLock E = (ext_at E 0 = ext_at E 1, ext_at E 2 = ext_at E 3, ext_at E 4 = ext_at E 5)"

definition subExtentOf :: "ExtentType \<Rightarrow> ExtentType \<Rightarrow> bool" where
  "subExtentOf P E \<longleftrightarrow>
     (\<forall>a<3. (ext_at E (2 * a) = ext_at E (2 * a + 1) \<longrightarrow>
                ext_at P (2 * a) = ext_at E (2 * a) \<and> ext_at P (2 * a + 1) = ext_at E (2 * a)) \<and>
            (ext_at E (2 * a) \<noteq> ext_at E (2 * a + 1) \<longrightarrow>
                ext_at E (2 * a) \<le> ext_at P (2 * a) \<and> ext_at P (2 * a) < ext_at P (2 * a + 1) \<and>
                ext_at P (2 * a + 1) \<le> ext_at E (2 * a + 1)))"

definition cursorsReach :: "ExtentType \<Rightarrow> ExtentType \<Rightarrow> int \<Rightarrow> bool" where
  "cursorsReach E P g \<longleftrightarrow>
     inCells P (lowerStart E g) \<and> inCells P (upperStart E g) \<and>
     (\<forall>a<3. \<forall>b<3. ext_at E (2 * a) \<noteq> ext_at E (2 * a + 1) \<and> cellMin P a = cellMin E a \<longrightarrow>
        at3 (lowerStart E g) b - cellMin P b \<le> at3 (lowerStart E g) a - cellMin E a) \<and>
     (\<forall>a<3. \<forall>b<3. ext_at E (2 * a) \<noteq> ext_at E (2 * a + 1) \<and> cellEnd P a = cellEnd E a \<longrightarrow>
        cellEnd P b - 1 - at3 (upperStart E g) b \<le> cellEnd E a - 1 - at3 (upperStart E g) a)"

definition ghostFree :: "idForExtent \<Rightarrow> vtkUnsignedCharArray \<Rightarrow> ExtentType \<Rightarrow> ExtentType \<Rightarrow> bool" where
  "ghostFree cellId ghosts E X \<longleftrightarrow>
     (\<forall>c. inCells X c \<longrightarrow> GetValue ghosts (cellId E c) = Some 0)"

lemma all_lt3: "(\<forall>a<3. Q a) \<longleftrightarrow> Q 0 \<and> Q 1 \<and> Q (2::nat)"
proof
  assume "\<forall>a<3. Q a"
  then show "Q 0 \<and> Q 1 \<and> Q 2" by simp
next
  assume h: "Q 0 \<and> Q 1 \<and> Q 2"
  show "\<forall>a<3. Q a"
  proof (intro allI impI)
    fix a :: nat assume "a < 3"
    then show "Q a" using h by (elim axis_cases) simp_all
  qed
qed

lemma cellMin_axes:
  "cellMin X 0 = ext_at X 0" "cellMin X 1 = ext_at X 2" "cellMin X 2 = ext_at X 4"
  by (simp_all add: cellMin_def)

lemma cellEnd_axes:
  "cellEnd X 0 = max (ext_at X 1) (ext_at X 0 + 1)"
  "cellEnd X 1 = max (ext_at X 3) (ext_at X 2 + 1)"
  "cellEnd X 2 = max (ext_at X 5) (ext_at X 4 + 1)"
  by (simp_all add: cellEnd_def)

lemma at3_startLock:
  "a < 3 \<Longrightarrow> at3 (startLock E) a \<longleftrightarrow> ext_at E (2 * a) = ext_at E (2 * a + 1)"
  by (elim axis_cases) (simp_all add: startLock_def)

lemma at3_lowerStart:
  "a < 3 \<Longrightarrow> at3 (lowerStart E g) a = min (cellMin E a + g) (cellEnd E a - 1)"
  by (elim axis_cases) (simp_all add: lowerStart_def)

lemma at3_upperStart:
  "a < 3 \<Longrightarrow> at3 (upperStart E g) a = max (cellEnd E a - 1 - g) (cellMin E a)"
  by (elim axis_cases) (simp_all add: upperStart_def)

lemma subExtentOf_cells:
  assumes "subExtentOf P E" "IsExtentValid E" "a < 3"
  shows "cellMin E a \<le> cellMin P a" "cellEnd P a \<le> cellEnd E a"
    "cellEnd P a = (if ext_at E (2 * a) = ext_at E (2 * a + 1) then cellMin P a + 1 else ext_at P (2 * a + 1))"
    "ext_at E (2 * a) = ext_at E (2 * a + 1) \<Longrightarrow> cellMin P a = cellMin E a \<and> cellEnd E a = cellMin E a + 1"
    "cellEnd P a - 1 + of_bool (ext_at E (2 * a) \<noteq> ext_at E (2 * a + 1)) = ext_at P (2 * a + 1)"
  using assms
  by (elim axis_cases; simp add: subExtentOf_def all_lt3 cellMin_def cellEnd_def IsExtentValid_def;
      linarith)+

lemma subExtentOf_cellsWithin:
  assumes "subExtentOf P E" "IsExtentValid E"
  shows "cellsWithin P E"
  using subExtentOf_cells(1,2) [OF assms] by (simp add: cellsWithin_def)

lemma lowerInv_start:
  assumes sub: "subExtentOf P E" and valid: "IsExtentValid E" and g: "0 \<le> g"
    and reach: "cursorsReach E P g"
  shows "lowerInv E P (lowerStart E g, startLock E)"
proof -
  have 1: "inCells P (lowerStart E g)" using reach by (simp add: cursorsReach_def)
  have 2: "at3 (lowerStart E g) a = cellMin P a" if "a < 3" "at3 (startLock E) a" for a
    using that subExtentOf_cells(4) [OF sub valid, of a] g
    by (simp add: at3_startLock at3_lowerStart)
  have 3: "at3 (lowerStart E g) b - cellMin P b \<le> at3 (lowerStart E g) a - cellMin E a"
    if "a < 3" "b < 3" "\<not> at3 (startLock E) a" "cellMin P a = cellMin E a" for a b
    using that reach [unfolded cursorsReach_def] by (simp add: at3_startLock)
  show ?thesis
    unfolding lowerInv_def using 1 2 3 by simp
qed

lemma upperInv_start:
  assumes sub: "subExtentOf P E" and valid: "IsExtentValid E" and g: "0 \<le> g"
    and reach: "cursorsReach E P g"
  shows "upperInv E P (upperStart E g, startLock E)"
proof -
  have 1: "inCells P (upperStart E g)" using reach by (simp add: cursorsReach_def)
  have 2: "at3 (upperStart E g) a = cellEnd P a - 1" if "a < 3" "at3 (startLock E) a" for a
    using that subExtentOf_cells(3,4) [OF sub valid, of a] g
    by (simp add: at3_startLock at3_upperStart)
  have 3: "cellEnd P b - 1 - at3 (upperStart E g) b \<le> cellEnd E a - 1 - at3 (upperStart E g) a"
    if "a < 3" "b < 3" "\<not> at3 (startLock E) a" "cellEnd P a = cellEnd E a" for a b
    using that reach [unfolded cursorsReach_def] by (simp add: at3_startLock)
  show ?thesis
    unfolding upperInv_def using 1 2 3 by simp
qed

lemma PeelOffGhostLayers_unfold:
  assumes "CellGhostArray grid = Some ghosts"
  shows "PeelOffGhostLayers cellId grid g =
     (case peelLower cellId ghosts (GridExtent grid)
              (cellMin (GridExtent grid) 0, cellMin (GridExtent grid) 1, cellMin (GridExtent grid) 2)
              (lowerStart (GridExtent grid) g) (startLock (GridExtent grid)) of
        None \<Rightarrow> None
      | Some lower \<Rightarrow>
          (case peelUpper cellId ghosts (GridExtent grid)
                  (cellEnd (GridExtent grid) 0, cellEnd (GridExtent grid) 1, cellEnd (GridExtent grid) 2)
                  (upperStart (GridExtent grid) g) (startLock (GridExtent grid)) of
             None \<Rightarrow> None
           | Some upper \<Rightarrow>
               Some (MkExtent
                 (at3 lower 0)
                 (at3 upper 0 + of_bool (ext_at (GridExtent grid) 0 \<noteq> ext_at (GridExtent grid) 1))
                 (at3 lower 1)
                 (at3 upper 1 + of_bool (ext_at (GridExtent grid) 2 \<noteq> ext_at (GridExtent grid) 3))
                 (at3 lower 2)
                 (at3 upper 2 + of_bool (ext_at (GridExtent grid) 4 \<noteq> ext_at (GridExtent grid) 5)))))"
  unfolding PeelOffGhostLayers_def assms option.case Let_def lowerStart_def upperStart_def
    startLock_def cellMin_axes cellEnd_axes ..

lemma PeelOffGhostLayers_returns_box:
  assumes ghosts: "CellGhostArray grid = Some ghosts"
    and valid: "IsExtentValid (GridExtent grid)" and g: "0 \<le> g"
    and sub: "subExtentOf P (GridExtent grid)"
    and marks: "marksOutside cellId ghosts (GridExtent grid) P"
    and reach: "cursorsReach (GridExtent grid) P g"
  shows "PeelOffGhostLayers cellId grid g = Some P"
proof -
  let ?E = "GridExtent grid"
  note cw = subExtentOf_cellsWithin [OF sub valid]
  have lo: "peelLower cellId ghosts ?E (cellMin ?E 0, cellMin ?E 1, cellMin ?E 2)
              (lowerStart ?E g) (startLock ?E) = Some (cellMin P 0, cellMin P 1, cellMin P 2)"
    by (rule peelLower_correct [OF marks cw lowerInv_start [OF sub valid g reach]])
  have hi: "peelUpper cellId ghosts ?E (cellEnd ?E 0, cellEnd ?E 1, cellEnd ?E 2)
              (upperStart ?E g) (startLock ?E) = Some (cellEnd P 0 - 1, cellEnd P 1 - 1, cellEnd P 2 - 1)"
    by (rule peelUpper_correct [OF marks cw upperInv_start [OF sub valid g reach]])
  obtain p0 p1 p2 p3 p4 p5 where P: "P = MkExtent p0 p1 p2 p3 p4 p5" by (cases P)
  have e: "cellEnd P 0 - 1 + of_bool (ext_at ?E 0 \<noteq> ext_at ?E 1) = p1"
      "cellEnd P 1 - 1 + of_bool (ext_at ?E 2 \<noteq> ext_at ?E 3) = p3"
      "cellEnd P 2 - 1 + of_bool (ext_at ?E 4 \<noteq> ext_at ?E 5) = p5"
    using subExtentOf_cells(5) [OF sub valid, of 0] subExtentOf_cells(5) [OF sub valid, of 1]
      subExtentOf_cells(5) [OF sub valid, of 2]
    by (simp_all add: P)
  have "PeelOffGhostLayers cellId grid g =
      Some (MkExtent (cellMin P 0) (cellEnd P 0 - 1 + of_bool (ext_at ?E 0 \<noteq> ext_at ?E 1))
                     (cellMin P 1) (cellEnd P 1 - 1 + of_bool (ext_at ?E 2 \<noteq> ext_at ?E 3))
                     (cellMin P 2) (cellEnd P 2 - 1 + of_bool (ext_at ?E 4 \<noteq> ext_at ?E 5)))"
    unfolding PeelOffGhostLayers_unfold [OF ghosts] lo hi by simp
  then show ?thesis
    unfolding e by (simp add: P cellMin_def)
qed

lemma marksOutside_ghostFree:
  assumes marks: "marksOutside cellId ghosts E P" and cw: "cellsWithin P E"
  shows "ghostFree cellId ghosts E P"
  unfolding ghostFree_def
proof (intro allI impI)
  fix c assume inP: "inCells P c"
  then have "inCells E c" using cw by (auto simp: inCells_def cellsWithin_def) force+
  then show "GetValue ghosts (cellId E c) = Some 0"
    using marks [unfolded marksOutside_def, rule_format, of c] inP by auto
qed

lemma marksOutside_greatest:
  assumes marks: "marksOutside cellId ghosts E P"
    and X: "cellsWithin X E" "ghostFree cellId ghosts E X"
  shows "cellsWithin X P"
proof -
  have sub: "inCells P c" if c: "inCells X c" for c
  proof -
    have "inCells E c" using c X(1) by (auto simp: inCells_def cellsWithin_def) force+
    moreover have "GetValue ghosts (cellId E c) = Some 0"
      by (rule X(2) [unfolded ghostFree_def, rule_format, OF c])
    ultimately show ?thesis
      using marks [unfolded marksOutside_def, rule_format, of c] by auto
  qed
  have ne: "cellMin X a < cellEnd X a" for a by (simp add: cellMin_def cellEnd_def)
  have "inCells X (cellMin X 0, cellMin X 1, cellMin X 2)"
    using ne [of 0] ne [of 1] ne [of 2] by (simp add: inCells_def all_lt3)
  from sub [OF this] have l: "cellMin P a \<le> cellMin X a" if "a < 3" for a
    using that by (elim axis_cases) (simp_all add: inCells_def all_lt3)
  have "inCells X (cellEnd X 0 - 1, cellEnd X 1 - 1, cellEnd X 2 - 1)"
    using ne [of 0] ne [of 1] ne [of 2] by (simp add: inCells_def all_lt3)
  from sub [OF this] have u: "cellEnd X a \<le> cellEnd P a" if "a < 3" for a
    using that by (elim axis_cases) (simp_all add: inCells_def all_lt3)
  show ?thesis using l u by (simp add: cellsWithin_def)
qed

definition cellsOfExtent :: "ExtentType \<Rightarrow> ijk list" where
  "cellsOfExtent X =
     concat (map (\<lambda>k. concat (map (\<lambda>j. map (\<lambda>i. (i, j, k)) [cellMin X 0..cellEnd X 0 - 1])
                                   [cellMin X 1..cellEnd X 1 - 1]))
                 [cellMin X 2..cellEnd X 2 - 1])"

lemma set_cellsOfExtent: "c \<in> set (cellsOfExtent X) \<longleftrightarrow> inCells X c"
proof (cases c)
  case (fields i j k)
  have "c \<in> set (cellsOfExtent X) \<longleftrightarrow>
          k \<in> {cellMin X 2..cellEnd X 2 - 1} \<and> j \<in> {cellMin X 1..cellEnd X 1 - 1} \<and>
          i \<in> {cellMin X 0..cellEnd X 0 - 1}"
    unfolding cellsOfExtent_def fields by (simp add: image_iff) blast
  also have "\<dots> \<longleftrightarrow> inCells X c"
    by (auto simp: inCells_def all_lt3 fields)
  finally show ?thesis .
qed

lemma marksOutside_list:
  "marksOutside cellId ghosts E P \<longleftrightarrow>
     (\<forall>c\<in>set (cellsOfExtent E).
        \<exists>g. GetValue ghosts (cellId E c) = Some g \<and> (g = 0 \<longleftrightarrow> inCells P c))"
  unfolding marksOutside_def Ball_def set_cellsOfExtent ..

definition rowMajorCellId :: idForExtent where
  "rowMajorCellId extent c =
     (let nx = max (ext_at extent 1 - ext_at extent 0) 1;
          ny = max (ext_at extent 3 - ext_at extent 2) 1
      in ((at3 c 2 - ext_at extent 4) * ny + (at3 c 1 - ext_at extent 2)) * nx +
         (at3 c 0 - ext_at extent 0))"


text \<open>
  Claim C10. A grid that carries no cell-ghost marker array is returned with its own extent,
  whatever the ghost level.
\<close>

theorem C10_no_ghost_array_returns_extent:
  "PeelOffGhostLayers cellId (grid\<lparr>CellGhostArray := None\<rparr>) ghostLevel = Some (GridExtent grid)"
  by (simp add: PeelOffGhostLayers_def)

text \<open>
  The peeler takes \<open>ghostLevel\<close> to be the ghost level of the input, as its documentation says.
  On a one-dimensional grid of four cells whose two first cells are marked, a ghost level of 1
  starts the lower cursor on the marked cell 1, the loop is not entered, and the returned
  extent \<open>[1, 4]\<close> still holds that marked cell.
\<close>

lemma PeelOffGhostLayers_trusts_ghostLevel:
  "PeelOffGhostLayers rowMajorCellId
     \<lparr>GridExtent = MkExtent 0 4 0 0 0 0, CellGhostArray = Some [1, 1, 0, 0]\<rparr> 1 =
       Some (MkExtent 1 4 0 0 0 0) \<and>
   \<not> ghostFree rowMajorCellId [1, 1, 0, 0] (MkExtent 0 4 0 0 0 0) (MkExtent 1 4 0 0 0 0)"
proof -
  have "inCells (MkExtent 1 4 0 0 0 0) (1, 0, 0)"
    by (simp add: inCells_def all_lt3 cellMin_def cellEnd_def)
  moreover have "GetValue [1, 1, 0, 0 :: uchar] (rowMajorCellId (MkExtent 0 4 0 0 0 0) (1, 0, 0)) \<noteq> Some 0"
    by (simp add: GetValue_def rowMajorCellId_def)
  ultimately have "\<not> ghostFree rowMajorCellId [1, 1, 0, 0] (MkExtent 0 4 0 0 0 0) (MkExtent 1 4 0 0 0 0)"
    unfolding ghostFree_def by blast
  moreover have "PeelOffGhostLayers rowMajorCellId
     \<lparr>GridExtent = MkExtent 0 4 0 0 0 0, CellGhostArray = Some [1, 1, 0, 0]\<rparr> 1 =
       Some (MkExtent 1 4 0 0 0 0)"
    by (simp add: PeelOffGhostLayers_def peelLower.simps peelUpper.simps lowerGo_def upperGo_def
          GetValue_def rowMajorCellId_def lowerSweep_def upperSweep_def lowerStep_def
          upperStep_def Let_def)
  ultimately show ?thesis by simp
qed

text \<open>
  A case in which the walk is not cut short. Let the grid extent be valid, \<open>ghostLevel \<ge> 0\<close>, and let the marked cells
  of the grid be exactly the cells outside a sub-extent \<open>P\<close> (equal to the grid on its degenerate
  axes, non-degenerate elsewhere). If the two start cursors (each corner moved inward by
  \<open>ghostLevel\<close> and clamped to the grid, which is where a ghost level larger than an axis width
  clamps to that width) lie in \<open>P\<close>, and on each side an axis on which \<open>P\<close> reaches the grid
  boundary is not walked to that boundary in fewer steps than another axis needs to reach the
  boundary of \<open>P\<close>, then the peeler returns \<open>P\<close>, in the input's own frame; \<open>P\<close> holds no marked
  cell and contains every sub-extent of the grid that holds none. Degenerate axes start locked
  and keep their bounds.
\<close>

lemma PeelOffGhostLayers_returns_unmarked_box:
  assumes "CellGhostArray grid = Some ghosts"
    and "IsExtentValid (GridExtent grid)" and "0 \<le> ghostLevel"
    and "subExtentOf P (GridExtent grid)"
    and "marksOutside cellId ghosts (GridExtent grid) P"
    and "cursorsReach (GridExtent grid) P ghostLevel"
  shows "PeelOffGhostLayers cellId grid ghostLevel = Some P \<and>
         ghostFree cellId ghosts (GridExtent grid) P \<and>
         (\<forall>X. cellsWithin X (GridExtent grid) \<and> ghostFree cellId ghosts (GridExtent grid) X \<longrightarrow>
              cellsWithin X P) \<and>
         (\<forall>a<3. ext_at (GridExtent grid) (2 * a) = ext_at (GridExtent grid) (2 * a + 1) \<longrightarrow>
              ext_at P (2 * a) = ext_at (GridExtent grid) (2 * a) \<and>
              ext_at P (2 * a + 1) = ext_at (GridExtent grid) (2 * a + 1))"
proof -
  note cw = subExtentOf_cellsWithin [OF assms(4) assms(2)]
  have 1: "PeelOffGhostLayers cellId grid ghostLevel = Some P"
    by (rule PeelOffGhostLayers_returns_box [OF assms])
  have 2: "ghostFree cellId ghosts (GridExtent grid) P"
    by (rule marksOutside_ghostFree [OF assms(5) cw])
  have 3: "\<forall>X. cellsWithin X (GridExtent grid) \<and> ghostFree cellId ghosts (GridExtent grid) X \<longrightarrow>
              cellsWithin X P"
    using marksOutside_greatest [OF assms(5)] by blast
  have 4: "\<forall>a<3. ext_at (GridExtent grid) (2 * a) = ext_at (GridExtent grid) (2 * a + 1) \<longrightarrow>
              ext_at P (2 * a) = ext_at (GridExtent grid) (2 * a) \<and>
              ext_at P (2 * a + 1) = ext_at (GridExtent grid) (2 * a + 1)"
    using assms(4) by (simp add: subExtentOf_def)
  show ?thesis using 1 2 3 4 by blast
qed

text \<open>
  An example: a grid of 2 by 6 cells with two ghost rows at each end of the second axis and
  a ghost level of 2, which is larger than the width of the first axis minus one: the first
  coordinate of both start cursors is clamped.
\<close>

lemma PeelOffGhostLayers_returns_unmarked_box_example:
  "PeelOffGhostLayers rowMajorCellId
     \<lparr>GridExtent = MkExtent 0 2 0 6 0 0,
      CellGhostArray = Some [1, 1, 1, 1, 0, 0, 0, 0, 1, 1, 1, 1]\<rparr> 2 = Some (MkExtent 0 2 2 4 0 0)"
proof -
  let ?E = "MkExtent 0 2 0 6 0 0" and ?P = "MkExtent 0 2 2 4 0 0"
  let ?ghosts = "[1, 1, 1, 1, 0, 0, 0, 0, 1, 1, 1, 1] :: vtkUnsignedCharArray"
  let ?grid = "\<lparr>GridExtent = ?E, CellGhostArray = Some ?ghosts\<rparr>"
  have cells: "cellsOfExtent ?E =
      [(0, 0, 0), (1, 0, 0), (0, 1, 0), (1, 1, 0), (0, 2, 0), (1, 2, 0),
       (0, 3, 0), (1, 3, 0), (0, 4, 0), (1, 4, 0), (0, 5, 0), (1, 5, 0)]"
    by (simp add: cellsOfExtent_def cellMin_def cellEnd_def upto_rec1)
  have h1: "CellGhostArray ?grid = Some ?ghosts" by simp
  have h2: "IsExtentValid (GridExtent ?grid)" by (simp add: IsExtentValid_def)
  have h3: "(0::int) \<le> 2" by simp
  have h4: "subExtentOf ?P (GridExtent ?grid)" by (simp add: subExtentOf_def all_lt3)
  have h5: "marksOutside rowMajorCellId ?ghosts (GridExtent ?grid) ?P"
    by (simp add: marksOutside_list cells rowMajorCellId_def GetValue_def inCells_def all_lt3
          cellMin_def cellEnd_def)
  have h6: "cursorsReach (GridExtent ?grid) ?P 2"
    by (simp add: cursorsReach_def all_lt3 inCells_def lowerStart_def upperStart_def cellMin_def
          cellEnd_def)
  show ?thesis
    using PeelOffGhostLayers_returns_unmarked_box [OF h1 h2 h3 h4 h5 h6] by blast
qed

text \<open>
  A strip of 2 by 10 cells whose three top rows are ghosts, peeled with its ghost level 3.
\<close>

definition exStrip :: GridDataSet where
  "exStrip = \<lparr>GridExtent = MkExtent 0 2 0 10 0 0,
               CellGhostArray = Some [0, 0, 0, 0, 0, 0, 0, 0, 0, 0, 0, 0, 0, 0, 1, 1, 1, 1, 1, 1]\<rparr>"

text \<open>
  Claim C2. On the strip the peeler does not return the maximal sub-extent without ghost
  cells. The ghost level is larger than the width of the first axis, so the lower cursor starts
  on the last cell of that axis and reaches the grid boundary after one step; the loop guard
  then stops the walk of every axis, and the second axis, which has no ghost at its lower end,
  is left at 2. The peeler returns \<open>[0, 2, 2, 7, 0, 0]\<close>, although no cell of
  \<open>[0, 2, 0, 7, 0, 0]\<close> is marked and every cell above it is.
\<close>

theorem C2_peel_stops_at_boundary:
  "PeelOffGhostLayers rowMajorCellId exStrip 3 = Some (MkExtent 0 2 2 7 0 0) \<and>
   map (\<lambda>c. GetValue (the (CellGhostArray exStrip)) (rowMajorCellId (GridExtent exStrip) c))
     (cellsOfExtent (MkExtent 0 2 0 7 0 0)) = replicate 14 (Some 0) \<and>
   map (\<lambda>c. GetValue (the (CellGhostArray exStrip)) (rowMajorCellId (GridExtent exStrip) c))
     (cellsOfExtent (MkExtent 0 2 7 10 0 0)) = replicate 6 (Some 1)"
proof -
  have 1: "PeelOffGhostLayers rowMajorCellId exStrip 3 = Some (MkExtent 0 2 2 7 0 0)"
    by (simp add: exStrip_def PeelOffGhostLayers_def peelLower.simps peelUpper.simps lowerGo_def
          upperGo_def GetValue_def rowMajorCellId_def lowerSweep_def upperSweep_def lowerStep_def
          upperStep_def Let_def)
  have 2: "cellsOfExtent (MkExtent 0 2 0 7 0 0) =
      [(0, 0, 0), (1, 0, 0), (0, 1, 0), (1, 1, 0), (0, 2, 0), (1, 2, 0), (0, 3, 0), (1, 3, 0),
       (0, 4, 0), (1, 4, 0), (0, 5, 0), (1, 5, 0), (0, 6, 0), (1, 6, 0)]"
    by (simp add: cellsOfExtent_def cellMin_def cellEnd_def upto_rec1)
  have 3: "cellsOfExtent (MkExtent 0 2 7 10 0 0) =
      [(0, 7, 0), (1, 7, 0), (0, 8, 0), (1, 8, 0), (0, 9, 0), (1, 9, 0)]"
    by (simp add: cellsOfExtent_def cellMin_def cellEnd_def upto_rec1)
  show ?thesis
    unfolding 1 2 3
    by (simp add: exStrip_def GetValue_def rowMajorCellId_def numeral_eq_Suc)
qed

section \<open>Uniform-grid matcher\<close>

text \<open>
  \<^verbatim>\<open>GridBlockStructure\<close>: what a block knows of a remote block. The class is declared in the
  header; the fields are the ones the source reads and writes.
\<close>

record GridBlockStructure =
  Extent :: ExtentType
  DataDimension :: int
  ExtentWithNewGhosts :: ExtentType
  AdjacencyMask :: uchar

type_synonym 'd VectorType = "'d \<times> 'd \<times> 'd"
type_synonym 'd QuaternionType = "'d \<times> 'd \<times> 'd \<times> 'd"

record 'd ImageDataBlockStructure = GridBlockStructure +
  Origin :: "'d VectorType"
  Spacing :: "'d VectorType"
  OrientationQuaternion :: "'d QuaternionType"

text \<open>
  The uniform-grid matcher computes on \<^verbatim>\<open>double\<close>. The double operations it uses (the C++
  primitives and \<^verbatim>\<open>vtkMath::Dot\<close>, \<^verbatim>\<open>vtkMath::SquaredNorm\<close>, \<^verbatim>\<open>vtkMathUtilities::NearlyEqual\<close>,
  which are not among the sources) are parameters of the model, so that what is proved holds
  for whatever floating-point arithmetic interprets them. \<open>dbl_lround\<close> is
  \<^verbatim>\<open>static_cast<int>(std::lround(x))\<close>.
\<close>

record 'd DoubleOps =
  dbl_sub :: "'d \<Rightarrow> 'd \<Rightarrow> 'd"
  dbl_div :: "'d \<Rightarrow> 'd \<Rightarrow> 'd"
  dbl_less :: "'d \<Rightarrow> 'd \<Rightarrow> bool"
  dbl_fabs :: "'d \<Rightarrow> 'd"
  dbl_lround :: "'d \<Rightarrow> int"
  dbl_one :: "'d"
  VTK_DBL_EPSILON :: "'d"
  Dot3 :: "'d VectorType \<Rightarrow> 'd VectorType \<Rightarrow> 'd"
  SquaredNorm :: "'d VectorType \<Rightarrow> 'd"
  Dot4 :: "'d QuaternionType \<Rightarrow> 'd QuaternionType \<Rightarrow> 'd"
  NearlyEqual :: "'d \<Rightarrow> 'd \<Rightarrow> bool"

text \<open>
  \<^verbatim>\<open>SynchronizeGridExtents\<close> on \<^verbatim>\<open>ImageDataBlockStructure\<close>. The source returns \<^verbatim>\<open>false\<close> and leaves
  \<^verbatim>\<open>shiftedExtent\<close> unset (\<open>None\<close>), or returns \<^verbatim>\<open>true\<close> with the shifted extent.
\<close>

definition SynchronizeGridExtents_ImageData ::
  "'d DoubleOps \<Rightarrow> ('d, 'a) ImageDataBlockStructure_scheme \<Rightarrow> ('d, 'b) ImageDataBlockStructure_scheme \<Rightarrow>
     ExtentType option" where
  "SynchronizeGridExtents_ImageData ops localBlockStructure blockStructure =
     (let localOrigin = Origin localBlockStructure;
          localSpacing = Spacing localBlockStructure;
          localQ = OrientationQuaternion localBlockStructure;
          localDim = DataDimension localBlockStructure;
          extent = Extent blockStructure;
          q = OrientationQuaternion blockStructure;
          spacing = Spacing blockStructure;
          dim' = DataDimension blockStructure
      in if ext_at extent 0 > ext_at extent 1 \<or> ext_at extent 2 > ext_at extent 3 \<or>
            ext_at extent 4 > ext_at extent 5 \<or> dim' \<noteq> localDim \<or>
            \<not> NearlyEqual ops (Dot3 ops spacing localSpacing) (SquaredNorm ops localSpacing) \<or>
            \<not> dbl_less ops (dbl_fabs ops (dbl_sub ops (Dot4 ops q localQ) (dbl_one ops)))
                  (VTK_DBL_EPSILON ops)
         then None
         else
           (let origin = Origin blockStructure;
                originDiff =
                  (dbl_lround ops (dbl_div ops (dbl_sub ops (at3 origin 0) (at3 localOrigin 0)) (at3 spacing 0)),
                   dbl_lround ops (dbl_div ops (dbl_sub ops (at3 origin 1) (at3 localOrigin 1)) (at3 spacing 1)),
                   dbl_lround ops (dbl_div ops (dbl_sub ops (at3 origin 2) (at3 localOrigin 2)) (at3 spacing 2)))
            in Some (MkExtent
                 (ext_at extent 0 - at3 originDiff 0) (ext_at extent 1 - at3 originDiff 0)
                 (ext_at extent 2 - at3 originDiff 1) (ext_at extent 3 - at3 originDiff 1)
                 (ext_at extent 4 - at3 originDiff 2) (ext_at extent 5 - at3 originDiff 2))))"

definition translateExtent :: "ExtentType \<Rightarrow> int \<times> int \<times> int \<Rightarrow> ExtentType" where
  "translateExtent e s =
     MkExtent (ext_at e 0 + at3 s 0) (ext_at e 1 + at3 s 0) (ext_at e 2 + at3 s 1)
              (ext_at e 3 + at3 s 1) (ext_at e 4 + at3 s 2) (ext_at e 5 + at3 s 2)"

definition indexShift :: "'d DoubleOps \<Rightarrow> 'd VectorType \<Rightarrow> 'd VectorType \<Rightarrow> 'd VectorType \<Rightarrow> int \<times> int \<times> int" where
  "indexShift ops remoteOrigin localOrigin spacing =
     (dbl_lround ops (dbl_div ops (dbl_sub ops (at3 remoteOrigin 0) (at3 localOrigin 0)) (at3 spacing 0)),
      dbl_lround ops (dbl_div ops (dbl_sub ops (at3 remoteOrigin 1) (at3 localOrigin 1)) (at3 spacing 1)),
      dbl_lround ops (dbl_div ops (dbl_sub ops (at3 remoteOrigin 2) (at3 localOrigin 2)) (at3 spacing 2)))"

definition negate3 :: "int \<times> int \<times> int \<Rightarrow> int \<times> int \<times> int" where
  "negate3 s = (- at3 s 0, - at3 s 1, - at3 s 2)"

text \<open>
  Modelled from the spec: the double operations are not among the sources. For concrete
  examples they are read on the real numbers: exact arithmetic, \<open>lround\<close> rounding half away
  from zero, and a relative comparison with tolerance \<open>2\<^sup>-\<^sup>5\<^sup>2\<close>. On the small integers of the
  examples below double arithmetic is exact, too.
\<close>

definition realOps :: "real DoubleOps" where
  "realOps = \<lparr>
     dbl_sub = (\<lambda>a b. a - b),
     dbl_div = (\<lambda>a b. a / b),
     dbl_less = (\<lambda>a b. a < b),
     dbl_fabs = (\<lambda>a. \<bar>a\<bar>),
     dbl_lround = (\<lambda>a. if 0 \<le> a then \<lfloor>a + 1 / 2\<rfloor> else \<lceil>a - 1 / 2\<rceil>),
     dbl_one = 1,
     VTK_DBL_EPSILON = 1 / 2 ^ 52,
     Dot3 = (\<lambda>a b. at3 a 0 * at3 b 0 + at3 a 1 * at3 b 1 + at3 a 2 * at3 b 2),
     SquaredNorm = (\<lambda>a. at3 a 0 * at3 a 0 + at3 a 1 * at3 a 1 + at3 a 2 * at3 a 2),
     Dot4 = (\<lambda>(a0, a1, a2, a3) (b0, b1, b2, b3). a0 * b0 + a1 * b1 + a2 * b2 + a3 * b3),
     NearlyEqual = (\<lambda>a b. \<bar>a - b\<bar> \<le> (1 / 2 ^ 52) * max \<bar>a\<bar> \<bar>b\<bar>) \<rparr>"


definition exLocalImage :: "real ImageDataBlockStructure" where
  "exLocalImage = \<lparr>Extent = MkExtent 0 4 0 4 0 4, DataDimension = 3,
      ExtentWithNewGhosts = MkExtent 0 4 0 4 0 4, AdjacencyMask = 0,
      Origin = (0, 0, 0), Spacing = (1, 1, 1), OrientationQuaternion = (1, 0, 0, 0)\<rparr>"

text \<open>
  Claim C3, as stated, fails: the matcher also rejects a remote block whose extent is invalid,
  here \<open>[1, 0, 0, 4, 0, 4]\<close>, although the dimensions, the spacings and the orientation
  quaternions of the two blocks agree.
\<close>

theorem C3_uniform_match_counterexample:
  "SynchronizeGridExtents_ImageData realOps exLocalImage
      (exLocalImage\<lparr>Extent := MkExtent 1 0 0 4 0 4\<rparr>) = None \<and>
   DataDimension (exLocalImage\<lparr>Extent := MkExtent 1 0 0 4 0 4\<rparr>) = DataDimension exLocalImage \<and>
   NearlyEqual realOps
      (Dot3 realOps (Spacing (exLocalImage\<lparr>Extent := MkExtent 1 0 0 4 0 4\<rparr>)) (Spacing exLocalImage))
      (SquaredNorm realOps (Spacing exLocalImage)) \<and>
   dbl_less realOps (dbl_fabs realOps (dbl_sub realOps
        (Dot4 realOps (OrientationQuaternion (exLocalImage\<lparr>Extent := MkExtent 1 0 0 4 0 4\<rparr>))
           (OrientationQuaternion exLocalImage))
        (dbl_one realOps))) (VTK_DBL_EPSILON realOps)"
  by (simp add: SynchronizeGridExtents_ImageData_def exLocalImage_def realOps_def)

text \<open>
  Claim C3, amended. The uniform-grid matcher returns a match exactly when the remote extent
  is valid, the two data dimensions are equal, \<^verbatim>\<open>NearlyEqual\<close> holds of the dot product of the two
  spacings and the squared norm of the local spacing, and the inner product of the two
  orientation quaternions differs from 1 by less than \<^verbatim>\<open>VTK_DBL_EPSILON\<close>; the match is the
  remote extent translated by the negated shift \<open>lround((remoteOrigin - localOrigin) / spacing)\<close>
  of each axis.
\<close>

theorem C3_uniform_match:
  "SynchronizeGridExtents_ImageData ops l r =
     (if IsExtentValid (Extent r) \<and> DataDimension r = DataDimension l \<and>
         NearlyEqual ops (Dot3 ops (Spacing r) (Spacing l)) (SquaredNorm ops (Spacing l)) \<and>
         dbl_less ops (dbl_fabs ops (dbl_sub ops
               (Dot4 ops (OrientationQuaternion r) (OrientationQuaternion l)) (dbl_one ops)))
             (VTK_DBL_EPSILON ops)
      then Some (translateExtent (Extent r) (negate3 (indexShift ops (Origin r) (Origin l) (Spacing r))))
      else None)"
  by (simp add: SynchronizeGridExtents_ImageData_def Let_def IsExtentValid_def translateExtent_def
        negate3_def indexShift_def not_le)

text \<open>
  Two blocks of 4 cells a side with the same origin, spacing and orientation (scenario S1):
  the neighbour keeps its extent.
\<close>

theorem C3_uniform_match_witness:
  "SynchronizeGridExtents_ImageData realOps exLocalImage
      (exLocalImage\<lparr>Extent := MkExtent 4 8 0 4 0 4\<rparr>) = Some (MkExtent 4 8 0 4 0 4)"
  using C3_uniform_match [of realOps exLocalImage "exLocalImage\<lparr>Extent := MkExtent 4 8 0 4 0 4\<rparr>"]
  by (simp add: exLocalImage_def realOps_def IsExtentValid_def translateExtent_def negate3_def
        indexShift_def)

section \<open>Rectilinear-grid matcher\<close>

text \<open>
  Coordinate arrays are lists of values of one type \<open>'v\<close>; the array dispatch of the source
  runs the worker on arrays of the same value type. The comparisons \<^verbatim>\<open><\<close>, \<^verbatim>\<open>>\<close> and
  \<^verbatim>\<open>Comparator<IsInteger>::Equals\<close> of the value type are the parameters \<open>lt\<close> and \<open>Equals\<close>
  (\<^verbatim>\<open>a > b\<close> is \<open>lt b a\<close>). Array indices (\<^verbatim>\<open>vtkIdType\<close>) only count up from 0: they are \<open>nat\<close>.
\<close>

record 'v RectilinearGridBlockStructure = GridBlockStructure +
  XCoordinates :: "'v list"
  YCoordinates :: "'v list"
  ZCoordinates :: "'v list"

record RectilinearGridFittingWorker =
  MinId :: int
  MaxId :: int
  LocalMinId :: int
  LocalMaxId :: int
  Overlaps :: bool

definition newFittingWorker :: RectilinearGridFittingWorker where
  "newFittingWorker = \<lparr>MinId = 0, MaxId = - 1, LocalMinId = 0, LocalMaxId = - 1, Overlaps = False\<rparr>"

text \<open>The loop of \<^verbatim>\<open>SubArraysAreEqual\<close>, returning the final \<^verbatim>\<open>(lowerId, upperId)\<close>.\<close>

function equalRun :: "('v \<Rightarrow> 'v \<Rightarrow> bool) \<Rightarrow> 'v list \<Rightarrow> 'v list \<Rightarrow> nat \<Rightarrow> nat \<Rightarrow> nat \<times> nat" where
  "equalRun Equals lowerArray upperArray lowerId upperId =
     (if lowerId < length lowerArray \<and> upperId < length upperArray \<and>
         Equals (lowerArray ! lowerId) (upperArray ! upperId)
      then equalRun Equals lowerArray upperArray (lowerId + 1) (upperId + 1)
      else (lowerId, upperId))"
  by pat_completeness auto
termination
  by (relation "measure (\<lambda>(Equals, lowerArray, upperArray, lowerId, upperId). length lowerArray - lowerId)") auto

declare equalRun.simps [simp del]

definition SubArraysAreEqual ::
  "('v \<Rightarrow> 'v \<Rightarrow> bool) \<Rightarrow> 'v list \<Rightarrow> 'v list \<Rightarrow> nat \<Rightarrow> RectilinearGridFittingWorker \<Rightarrow>
     bool \<times> RectilinearGridFittingWorker" where
  "SubArraysAreEqual Equals lowerArray upperArray lowerId0 this =
     (case equalRun Equals lowerArray upperArray lowerId0 0 of (lowerId, upperId) \<Rightarrow>
        if lowerId = length lowerArray
        then (True, this\<lparr>MaxId := int lowerId - 1, LocalMaxId := int upperId - 1, Overlaps := True\<rparr>)
        else (False, this))"

text \<open>The loop of \<^verbatim>\<open>FitArrays\<close> that advances \<^verbatim>\<open>id\<close>.\<close>

function firstReached :: "('v \<Rightarrow> 'v \<Rightarrow> bool) \<Rightarrow> ('v \<Rightarrow> 'v \<Rightarrow> bool) \<Rightarrow> 'v list \<Rightarrow> 'v \<Rightarrow> nat \<Rightarrow> nat" where
  "firstReached lt Equals lowerMinArray upperMin0 idx =
     (if idx < length lowerMinArray \<and>
         (lt (lowerMinArray ! idx) upperMin0 \<and> \<not> Equals (lowerMinArray ! idx) upperMin0)
      then firstReached lt Equals lowerMinArray upperMin0 (idx + 1)
      else idx)"
  by pat_completeness auto
termination
  by (relation "measure (\<lambda>(lt, Equals, lowerMinArray, upperMin0, idx). length lowerMinArray - idx)") auto

declare firstReached.simps [simp del]

definition FitArrays ::
  "('v \<Rightarrow> 'v \<Rightarrow> bool) \<Rightarrow> ('v \<Rightarrow> 'v \<Rightarrow> bool) \<Rightarrow> 'v list \<Rightarrow> 'v list \<Rightarrow> RectilinearGridFittingWorker \<Rightarrow>
     RectilinearGridFittingWorker" where
  "FitArrays lt Equals lowerMaxArray upperMaxArray this =
     (let lowerMinArray = (if lt (upperMaxArray ! 0) (lowerMaxArray ! 0) then upperMaxArray else lowerMaxArray);
          upperMinArray = (if lt (lowerMaxArray ! 0) (upperMaxArray ! 0) then upperMaxArray else lowerMaxArray);
          idx = firstReached lt Equals lowerMinArray (upperMinArray ! 0) 0
      in case SubArraysAreEqual Equals lowerMinArray upperMinArray idx this of
           (True, this1) \<Rightarrow>
             (let this2 = this1\<lparr>LocalMinId := 0, MinId := int idx\<rparr>
              in if lt (upperMaxArray ! 0) (lowerMaxArray ! 0)
                 then this2\<lparr>MaxId := LocalMaxId this2, LocalMaxId := MaxId this2\<rparr>
                 else this2)
         | (False, this1) \<Rightarrow> this1)"

text \<open>
  \<^verbatim>\<open>operator()\<close> of the worker, run on a fresh worker. \<open>array\<close> is the remote block's array
  (\<^verbatim>\<open>this->Array\<close>). Reading the last value of an empty array is undefined behaviour in the
  source: \<open>None\<close>. All other reads are at index 0 of a non-empty array or guarded by the
  array length.
\<close>

definition FittingWorker_operator ::
  "('v \<Rightarrow> 'v \<Rightarrow> bool) \<Rightarrow> ('v \<Rightarrow> 'v \<Rightarrow> bool) \<Rightarrow> 'v list \<Rightarrow> 'v list \<Rightarrow> RectilinearGridFittingWorker option" where
  "FittingWorker_operator lt Equals array localArray =
     (if localArray = [] \<or> array = [] then None
      else if lt (array ! (length array - 1)) (localArray ! (length localArray - 1))
      then Some (FitArrays lt Equals array localArray newFittingWorker)
      else
        (let this1 = FitArrays lt Equals localArray array newFittingWorker
         in Some (this1\<lparr>MinId := LocalMinId this1, LocalMinId := MinId this1,
                       MaxId := LocalMaxId this1, LocalMaxId := MaxId this1\<rparr>)))"

text \<open>
  \<^verbatim>\<open>SynchronizeGridExtents\<close> on \<^verbatim>\<open>RectilinearGridBlockStructure\<close>. The outer \<open>option\<close> is the
  undefined behaviour of a worker, the inner one the match: \<open>Some None\<close> is \<^verbatim>\<open>return false\<close>.
\<close>

definition SynchronizeGridExtents_RectilinearGrid ::
  "('v \<Rightarrow> 'v \<Rightarrow> bool) \<Rightarrow> ('v \<Rightarrow> 'v \<Rightarrow> bool) \<Rightarrow> ('v, 'a) RectilinearGridBlockStructure_scheme \<Rightarrow>
     ('v, 'b) RectilinearGridBlockStructure_scheme \<Rightarrow> ExtentType option option" where
  "SynchronizeGridExtents_RectilinearGrid lt Equals localBlockStructure blockStructure =
     (let extent = Extent blockStructure in
      if DataDimension localBlockStructure \<noteq> DataDimension blockStructure \<or>
         ext_at extent 0 > ext_at extent 1 \<or> ext_at extent 2 > ext_at extent 3 \<or>
         ext_at extent 4 > ext_at extent 5
      then Some None
      else
        (let localExtent = Extent localBlockStructure in
         case FittingWorker_operator lt Equals (XCoordinates blockStructure) (XCoordinates localBlockStructure) of
           None \<Rightarrow> None
         | Some xWorker \<Rightarrow>
         (case FittingWorker_operator lt Equals (YCoordinates blockStructure) (YCoordinates localBlockStructure) of
           None \<Rightarrow> None
         | Some yWorker \<Rightarrow>
         (case FittingWorker_operator lt Equals (ZCoordinates blockStructure) (ZCoordinates localBlockStructure) of
           None \<Rightarrow> None
         | Some zWorker \<Rightarrow>
             if (\<not> Overlaps xWorker \<or> \<not> Overlaps yWorker \<or> \<not> Overlaps zWorker) \<and>
                (MinId xWorker \<noteq> MaxId xWorker \<or> MinId yWorker \<noteq> MaxId yWorker \<or>
                 MinId zWorker \<noteq> MaxId zWorker)
             then Some None
             else
               (let originDiff =
                      (ext_at extent 0 + MinId xWorker - ext_at localExtent 0 - LocalMinId xWorker,
                       ext_at extent 2 + MinId yWorker - ext_at localExtent 2 - LocalMinId yWorker,
                       ext_at extent 4 + MinId zWorker - ext_at localExtent 4 - LocalMinId zWorker)
                in Some (Some (MkExtent
                     (ext_at extent 0 - at3 originDiff 0) (ext_at extent 1 - at3 originDiff 0)
                     (ext_at extent 2 - at3 originDiff 1) (ext_at extent 3 - at3 originDiff 1)
                     (ext_at extent 4 - at3 originDiff 2) (ext_at extent 5 - at3 originDiff 2))))))))"

lemma SubArraysAreEqual_no:
  "SubArraysAreEqual Equals L U i w = (False, w') \<Longrightarrow> w' = w"
  by (auto simp: SubArraysAreEqual_def split: prod.splits if_splits)

lemma SubArraysAreEqual_yes:
  "SubArraysAreEqual Equals L U i w = (True, w') \<Longrightarrow> Overlaps w'"
  by (auto simp: SubArraysAreEqual_def split: prod.splits if_splits)

lemma FitArrays_no_overlap:
  assumes "\<not> Overlaps (FitArrays lt Equals A B newFittingWorker)"
  shows "FitArrays lt Equals A B newFittingWorker = newFittingWorker"
proof -
  let ?lo = "if lt (B ! 0) (A ! 0) then B else A"
  let ?up = "if lt (A ! 0) (B ! 0) then B else A"
  let ?idx = "firstReached lt Equals ?lo (?up ! 0) 0"
  obtain ok w where r: "SubArraysAreEqual Equals ?lo ?up ?idx newFittingWorker = (ok, w)"
    by (cases "SubArraysAreEqual Equals ?lo ?up ?idx newFittingWorker")
  show ?thesis
  proof (cases ok)
    case True
    then have "Overlaps w"
      using SubArraysAreEqual_yes [of Equals ?lo ?up ?idx newFittingWorker w] r by simp
    then have "Overlaps (FitArrays lt Equals A B newFittingWorker)"
      using r True by (simp add: FitArrays_def Let_def)
    then show ?thesis using assms by simp
  next
    case False
    then have "w = newFittingWorker"
      using SubArraysAreEqual_no [of Equals ?lo ?up ?idx newFittingWorker w] r by simp
    then show ?thesis using r False by (simp add: FitArrays_def Let_def)
  qed
qed

lemma FittingWorker_operator_no_overlap:
  assumes "FittingWorker_operator lt Equals array localArray = Some w" and "\<not> Overlaps w"
  shows "MinId w = 0 \<and> MaxId w = - 1"
  using assms FitArrays_no_overlap [of lt Equals array localArray]
    FitArrays_no_overlap [of lt Equals localArray array]
  by (auto simp: FittingWorker_operator_def Let_def newFittingWorker_def split: if_splits)

text \<open>The per-axis shift the source applies: the negated \<^verbatim>\<open>originDiff\<close>.\<close>

definition codeShift ::
  "ExtentType \<Rightarrow> ExtentType \<Rightarrow> RectilinearGridFittingWorker \<Rightarrow> RectilinearGridFittingWorker \<Rightarrow>
     RectilinearGridFittingWorker \<Rightarrow> int \<times> int \<times> int" where
  "codeShift localExtent extent xWorker yWorker zWorker =
     (ext_at localExtent 0 + LocalMinId xWorker - ext_at extent 0 - MinId xWorker,
      ext_at localExtent 2 + LocalMinId yWorker - ext_at extent 2 - MinId yWorker,
      ext_at localExtent 4 + LocalMinId zWorker - ext_at extent 4 - MinId zWorker)"

text \<open>
  The same shift with the two start ids in the other order:
  \<open>localExtent + MinId - remoteExtent - LocalMinId\<close>, \<open>MinId\<close> being the id in the remote array.
\<close>

definition specShift ::
  "ExtentType \<Rightarrow> ExtentType \<Rightarrow> RectilinearGridFittingWorker \<Rightarrow> RectilinearGridFittingWorker \<Rightarrow>
     RectilinearGridFittingWorker \<Rightarrow> int \<times> int \<times> int" where
  "specShift localExtent extent xWorker yWorker zWorker =
     (ext_at localExtent 0 + MinId xWorker - ext_at extent 0 - LocalMinId xWorker,
      ext_at localExtent 2 + MinId yWorker - ext_at extent 2 - LocalMinId yWorker,
      ext_at localExtent 4 + MinId zWorker - ext_at extent 4 - LocalMinId zWorker)"

lemma Sync_rect_result:
  assumes wx: "FittingWorker_operator lt Equals (XCoordinates r) (XCoordinates l) = Some xWorker"
    and wy: "FittingWorker_operator lt Equals (YCoordinates r) (YCoordinates l) = Some yWorker"
    and wz: "FittingWorker_operator lt Equals (ZCoordinates r) (ZCoordinates l) = Some zWorker"
  shows "SynchronizeGridExtents_RectilinearGrid lt Equals l r =
           Some (if DataDimension l = DataDimension r \<and> IsExtentValid (Extent r) \<and>
                    Overlaps xWorker \<and> Overlaps yWorker \<and> Overlaps zWorker
                 then Some (translateExtent (Extent r) (codeShift (Extent l) (Extent r) xWorker yWorker zWorker))
                 else None)"
  using FittingWorker_operator_no_overlap [OF wx] FittingWorker_operator_no_overlap [OF wy]
    FittingWorker_operator_no_overlap [OF wz]
  by (auto simp: SynchronizeGridExtents_RectilinearGrid_def Let_def wx wy wz IsExtentValid_def
        translateExtent_def codeShift_def)


definition exLocalRect :: "int RectilinearGridBlockStructure" where
  "exLocalRect = \<lparr>Extent = MkExtent 0 2 0 3 0 0, DataDimension = 2,
      ExtentWithNewGhosts = MkExtent 0 2 0 3 0 0, AdjacencyMask = 0,
      XCoordinates = [0, 1, 2], YCoordinates = [0, 1, 2, 3], ZCoordinates = [0]\<rparr>"

definition exRemoteRect :: "int RectilinearGridBlockStructure" where
  "exRemoteRect = \<lparr>Extent = MkExtent 0 2 0 3 0 0, DataDimension = 2,
      ExtentWithNewGhosts = MkExtent 0 2 0 3 0 0, AdjacencyMask = 0,
      XCoordinates = [2, 3, 4], YCoordinates = [0, 1, 2, 3], ZCoordinates = [0]\<rparr>"

definition exRemoteRect1D :: "int RectilinearGridBlockStructure" where
  "exRemoteRect1D = \<lparr>Extent = MkExtent 0 0 0 3 0 0, DataDimension = 1,
      ExtentWithNewGhosts = MkExtent 0 0 0 3 0 0, AdjacencyMask = 0,
      XCoordinates = [2], YCoordinates = [0, 1, 2, 3], ZCoordinates = [0]\<rparr>"

lemma exRect_workers:
  "FittingWorker_operator (<) (=) [2, 3, 4] [0, 1, 2 :: int] =
     Some \<lparr>MinId = 0, MaxId = 0, LocalMinId = 2, LocalMaxId = 2, Overlaps = True\<rparr>"
  "FittingWorker_operator (<) (=) [0, 1, 2, 3] [0, 1, 2, 3 :: int] =
     Some \<lparr>MinId = 0, MaxId = 3, LocalMinId = 0, LocalMaxId = 3, Overlaps = True\<rparr>"
  "FittingWorker_operator (<) (=) [0] [0 :: int] =
     Some \<lparr>MinId = 0, MaxId = 0, LocalMinId = 0, LocalMaxId = 0, Overlaps = True\<rparr>"
  "FittingWorker_operator (<) (=) [2] [0, 1, 2 :: int] =
     Some \<lparr>MinId = 0, MaxId = 0, LocalMinId = 2, LocalMaxId = 2, Overlaps = True\<rparr>"
  by (simp_all add: FittingWorker_operator_def FitArrays_def SubArraysAreEqual_def equalRun.simps
        firstReached.simps newFittingWorker_def Let_def)

text \<open>
  Scenario S3: the local block has x-coordinates \<open>[0, 1, 2]\<close>, the remote block \<open>[2, 3, 4]\<close>,
  both with extent \<open>[0, 2]\<close> on that axis. The fitter finds the overlap at remote index 0 and
  local index 2, and the matcher moves the remote extent by \<open>+2\<close> to \<open>[2, 4]\<close>, where the remote
  block lies in the local frame; with the two start ids in the other order the shift would be
  \<open>-2\<close>. A remote block of another data dimension is rejected although all three fitters
  report an overlapping run.
\<close>

lemma rectilinear_shift_example:
  "SynchronizeGridExtents_RectilinearGrid (<) (=) exLocalRect exRemoteRect =
     Some (Some (MkExtent 2 4 0 3 0 0)) \<and>
   translateExtent (Extent exRemoteRect)
     (specShift (Extent exLocalRect) (Extent exRemoteRect)
        \<lparr>MinId = 0, MaxId = 0, LocalMinId = 2, LocalMaxId = 2, Overlaps = True\<rparr>
        \<lparr>MinId = 0, MaxId = 3, LocalMinId = 0, LocalMaxId = 3, Overlaps = True\<rparr>
        \<lparr>MinId = 0, MaxId = 0, LocalMinId = 0, LocalMaxId = 0, Overlaps = True\<rparr>) =
     MkExtent (- 2) 0 0 3 0 0 \<and>
   FittingWorker_operator (<) (=) (XCoordinates exRemoteRect) (XCoordinates exLocalRect) =
     Some \<lparr>MinId = 0, MaxId = 0, LocalMinId = 2, LocalMaxId = 2, Overlaps = True\<rparr> \<and>
   FittingWorker_operator (<) (=) (YCoordinates exRemoteRect) (YCoordinates exLocalRect) =
     Some \<lparr>MinId = 0, MaxId = 3, LocalMinId = 0, LocalMaxId = 3, Overlaps = True\<rparr> \<and>
   FittingWorker_operator (<) (=) (ZCoordinates exRemoteRect) (ZCoordinates exLocalRect) =
     Some \<lparr>MinId = 0, MaxId = 0, LocalMinId = 0, LocalMaxId = 0, Overlaps = True\<rparr> \<and>
   SynchronizeGridExtents_RectilinearGrid (<) (=) exLocalRect exRemoteRect1D = Some None \<and>
   FittingWorker_operator (<) (=) (XCoordinates exRemoteRect1D) (XCoordinates exLocalRect) =
     Some \<lparr>MinId = 0, MaxId = 0, LocalMinId = 2, LocalMaxId = 2, Overlaps = True\<rparr> \<and>
   FittingWorker_operator (<) (=) (YCoordinates exRemoteRect1D) (YCoordinates exLocalRect) =
     Some \<lparr>MinId = 0, MaxId = 3, LocalMinId = 0, LocalMaxId = 3, Overlaps = True\<rparr> \<and>
   FittingWorker_operator (<) (=) (ZCoordinates exRemoteRect1D) (ZCoordinates exLocalRect) =
     Some \<lparr>MinId = 0, MaxId = 0, LocalMinId = 0, LocalMaxId = 0, Overlaps = True\<rparr>"
proof -
  have 1: "SynchronizeGridExtents_RectilinearGrid (<) (=) exLocalRect exRemoteRect =
      Some (Some (MkExtent 2 4 0 3 0 0))"
    by (simp add: SynchronizeGridExtents_RectilinearGrid_def exLocalRect_def exRemoteRect_def
          exRect_workers Let_def)
  have 2: "SynchronizeGridExtents_RectilinearGrid (<) (=) exLocalRect exRemoteRect1D = Some None"
    by (simp add: SynchronizeGridExtents_RectilinearGrid_def exLocalRect_def exRemoteRect1D_def)
  show ?thesis
    unfolding 1 2
    by (simp add: exLocalRect_def exRemoteRect_def exRemoteRect1D_def exRect_workers
          translateExtent_def specShift_def)
qed

text \<open>
  The matcher in terms of what the three fitters report. Where the fitters are defined (no
  coordinate array is empty), the matcher declares a match if and only if the two data
  dimensions are equal, the remote extent is valid, and either all three fitters report an
  overlapping run or the overlap is degenerate (\<open>MinId = MaxId\<close>) on exactly the axes that do
  not overlap; on a match the remote extent is translated on each axis \<open>a\<close> by
  \<open>localExtent[2a] + LocalMinId - remoteExtent[2a] - MinId\<close> of the fitter of that axis.
\<close>

lemma SynchronizeGridExtents_RectilinearGrid_match:
  assumes wx: "FittingWorker_operator lt Equals (XCoordinates r) (XCoordinates l) = Some xWorker"
    and wy: "FittingWorker_operator lt Equals (YCoordinates r) (YCoordinates l) = Some yWorker"
    and wz: "FittingWorker_operator lt Equals (ZCoordinates r) (ZCoordinates l) = Some zWorker"
  shows "((\<exists>s. SynchronizeGridExtents_RectilinearGrid lt Equals l r = Some (Some s)) \<longleftrightarrow>
            DataDimension l = DataDimension r \<and> IsExtentValid (Extent r) \<and>
            ((Overlaps xWorker \<and> Overlaps yWorker \<and> Overlaps zWorker) \<or>
             ((MinId xWorker = MaxId xWorker \<longleftrightarrow> \<not> Overlaps xWorker) \<and>
              (MinId yWorker = MaxId yWorker \<longleftrightarrow> \<not> Overlaps yWorker) \<and>
              (MinId zWorker = MaxId zWorker \<longleftrightarrow> \<not> Overlaps zWorker)))) \<and>
         (\<forall>s. SynchronizeGridExtents_RectilinearGrid lt Equals l r = Some (Some s) \<longrightarrow>
              s = translateExtent (Extent r) (codeShift (Extent l) (Extent r) xWorker yWorker zWorker))"
  using FittingWorker_operator_no_overlap [OF wx] FittingWorker_operator_no_overlap [OF wy]
    FittingWorker_operator_no_overlap [OF wz]
  unfolding Sync_rect_result [OF wx wy wz]
  by auto

lemma SynchronizeGridExtents_RectilinearGrid_match_example:
  "(\<exists>s. SynchronizeGridExtents_RectilinearGrid (<) (=) exLocalRect exRemoteRect = Some (Some s)) \<and>
   SynchronizeGridExtents_RectilinearGrid (<) (=) exLocalRect exRemoteRect =
     Some (Some (translateExtent (MkExtent 0 2 0 3 0 0) (2, 0, 0)))"
proof -
  have wx: "FittingWorker_operator (<) (=) (XCoordinates exRemoteRect) (XCoordinates exLocalRect) =
      Some \<lparr>MinId = 0, MaxId = 0, LocalMinId = 2, LocalMaxId = 2, Overlaps = True\<rparr>"
    and wy: "FittingWorker_operator (<) (=) (YCoordinates exRemoteRect) (YCoordinates exLocalRect) =
      Some \<lparr>MinId = 0, MaxId = 3, LocalMinId = 0, LocalMaxId = 3, Overlaps = True\<rparr>"
    and wz: "FittingWorker_operator (<) (=) (ZCoordinates exRemoteRect) (ZCoordinates exLocalRect) =
      Some \<lparr>MinId = 0, MaxId = 0, LocalMinId = 0, LocalMaxId = 0, Overlaps = True\<rparr>"
    by (simp_all add: exLocalRect_def exRemoteRect_def exRect_workers)
  have d: "DataDimension exLocalRect = DataDimension exRemoteRect"
    "IsExtentValid (Extent exRemoteRect)"
    "Extent exRemoteRect = MkExtent 0 2 0 3 0 0"
    "codeShift (Extent exLocalRect) (Extent exRemoteRect)
       \<lparr>MinId = 0, MaxId = 0, LocalMinId = 2, LocalMaxId = 2, Overlaps = True\<rparr>
       \<lparr>MinId = 0, MaxId = 3, LocalMinId = 0, LocalMaxId = 3, Overlaps = True\<rparr>
       \<lparr>MinId = 0, MaxId = 0, LocalMinId = 0, LocalMaxId = 0, Overlaps = True\<rparr> = (2, 0, 0)"
    by (simp_all add: exLocalRect_def exRemoteRect_def IsExtentValid_def codeShift_def)
  from SynchronizeGridExtents_RectilinearGrid_match [OF wx wy wz] d
  show ?thesis by auto
qed






section \<open>Link builder and ghost allocator\<close>

text \<open>
  \<^verbatim>\<open>BlockInformation\<close>: what a block knows of itself. \<open>InformationExtent\<close> is the member
  \<^verbatim>\<open>Extent\<close> of the information (the peeled extent), \<open>ExtentGhostThickness\<close> the accumulator
  \<open>t\<close> of the spec. The members of one grid family (coordinate arrays, point layers) are the
  extension of the record.
\<close>

record Information =
  InformationExtent :: ExtentType
  ExtentGhostThickness :: ExtentType

text \<open>
  The overloads of \<^verbatim>\<open>AddGhostLayerOfGridPoints\<close> do nothing (uniform and curvilinear grids) or
  append coordinates to \<^verbatim>\<open>CoordinateGhosts\<close> (rectilinear grids): they change nothing but
  members of one grid family. The overload is a parameter that gives the new value of that
  part of the information.
\<close>

type_synonym ('i, 'b) pointsAdder =
  "nat \<Rightarrow> 'i Information_scheme \<Rightarrow> 'b GridBlockStructure_scheme \<Rightarrow> 'i"

text \<open>
  \<^verbatim>\<open>AddGhostLayerToGrid\<close>. The source multiplies by \<^verbatim>\<open>-1.0\<close> or \<^verbatim>\<open>1.0\<close> in double precision
  before it adds to an \<^verbatim>\<open>int\<close>; on ghost levels this is the integer product.
\<close>

definition AddGhostLayerToGrid ::
  "('i, 'b) pointsAdder \<Rightarrow> nat \<Rightarrow> int \<Rightarrow> 'b GridBlockStructure_scheme \<Rightarrow> 'i Information_scheme \<Rightarrow>
     'b GridBlockStructure_scheme \<times> 'i Information_scheme" where
  "AddGhostLayerToGrid AddGhostLayerOfGridPoints idx outputGhostLevels blockStructure blockInformation =
     (let extent = Extent blockStructure;
          upperBound = (idx mod 2 \<noteq> 0);
          oppositeIdx = (if upperBound then idx - 1 else idx + 1);
          localOutputGhostLevels =
            min outputGhostLevels \<bar>ext_at extent idx - ext_at extent oppositeIdx\<bar>;
          blockInformation1 = blockInformation\<lparr>ExtentGhostThickness :=
            ext_set (ExtentGhostThickness blockInformation) idx
              (max (ext_at (ExtentGhostThickness blockInformation) idx) localOutputGhostLevels)\<rparr>;
          blockStructure1 = blockStructure\<lparr>ExtentWithNewGhosts :=
            ext_set (ExtentWithNewGhosts blockStructure) oppositeIdx
              (ext_at (ExtentWithNewGhosts blockStructure) oppositeIdx +
                 (if upperBound then - 1 else 1) * localOutputGhostLevels)\<rparr>
      in (blockStructure1,
          Information.more_update
            (\<lambda>_. AddGhostLayerOfGridPoints idx blockInformation1 blockStructure1) blockInformation1))"

text \<open>
  The conditions of the \<^verbatim>\<open>if\<close> and the \<^verbatim>\<open>else if\<close> of \<^verbatim>\<open>LinkGrid\<close>, and its three
  \<^verbatim>\<open>switch\<close> statements: each gives the face indices to widen, or \<open>None\<close> in the
  \<^verbatim>\<open>default\<close> case.
\<close>

definition faceAdjacent :: "int \<Rightarrow> uchar \<Rightarrow> uchar \<Rightarrow> bool" where
  "faceAdjacent dataDim overlapMask adjacencyMask \<longleftrightarrow>
     (((dataDim = 3 \<and> overlapMask = OverlapYZ) \<or> (dataDim = 2 \<and> overlapMask AND OverlapYZ \<noteq> 0) \<or>
       (dataDim = 1 \<and> overlapMask = 0)) \<and>
      adjacencyMask AND (Left OR Right) \<noteq> 0) \<or>
     (((dataDim = 3 \<and> overlapMask = OverlapXZ) \<or> (dataDim = 2 \<and> overlapMask AND OverlapXZ \<noteq> 0)) \<and>
      adjacencyMask AND (Front OR Back) \<noteq> 0) \<or>
     (((dataDim = 3 \<and> overlapMask = OverlapXY) \<or> (dataDim = 2 \<and> overlapMask AND OverlapXY \<noteq> 0)) \<and>
      adjacencyMask AND (Bottom OR Top) \<noteq> 0)"

definition edgeAdjacent :: "int \<Rightarrow> uchar \<Rightarrow> uchar \<Rightarrow> bool" where
  "edgeAdjacent dataDim overlapMask adjacencyMask \<longleftrightarrow>
     (((dataDim = 3 \<and> overlapMask = OverlapX) \<or> (dataDim = 2 \<and> overlapMask = 0)) \<and>
      adjacencyMask AND (Front OR Back) \<noteq> 0 \<and> adjacencyMask AND (Bottom OR Top) \<noteq> 0) \<or>
     (((dataDim = 3 \<and> overlapMask = OverlapY) \<or> (dataDim = 2 \<and> overlapMask = 0)) \<and>
      adjacencyMask AND (Left OR Right) \<noteq> 0 \<and> adjacencyMask AND (Bottom OR Top) \<noteq> 0) \<or>
     (((dataDim = 3 \<and> overlapMask = OverlapZ) \<or> (dataDim = 2 \<and> overlapMask = 0)) \<and>
      adjacencyMask AND (Left OR Right) \<noteq> 0 \<and> adjacencyMask AND (Front OR Back) \<noteq> 0)"

definition faceSwitch :: "uchar \<Rightarrow> nat list option" where
  "faceSwitch adjacencyMask =
     (if adjacencyMask = Left then Some [0]
      else if adjacencyMask = Right then Some [1]
      else if adjacencyMask = Front then Some [2]
      else if adjacencyMask = Back then Some [3]
      else if adjacencyMask = Bottom then Some [4]
      else if adjacencyMask = Top then Some [5]
      else None)"

definition edgeSwitch :: "uchar \<Rightarrow> nat list option" where
  "edgeSwitch adjacencyMask =
     (if adjacencyMask = (Front OR Bottom) then Some [2, 4]
      else if adjacencyMask = (Front OR Top) then Some [2, 5]
      else if adjacencyMask = (Back OR Bottom) then Some [3, 4]
      else if adjacencyMask = (Back OR Top) then Some [3, 5]
      else if adjacencyMask = (Left OR Bottom) then Some [0, 4]
      else if adjacencyMask = (Left OR Top) then Some [0, 5]
      else if adjacencyMask = (Right OR Bottom) then Some [1, 4]
      else if adjacencyMask = (Right OR Top) then Some [1, 5]
      else if adjacencyMask = (Left OR Front) then Some [0, 2]
      else if adjacencyMask = (Left OR Back) then Some [0, 3]
      else if adjacencyMask = (Right OR Front) then Some [1, 2]
      else if adjacencyMask = (Right OR Back) then Some [1, 3]
      else None)"

definition cornerSwitch :: "uchar \<Rightarrow> nat list option" where
  "cornerSwitch adjacencyMask =
     (if adjacencyMask = (Left OR Front OR Bottom) then Some [0, 2, 4]
      else if adjacencyMask = (Left OR Front OR Top) then Some [0, 2, 5]
      else if adjacencyMask = (Left OR Back OR Bottom) then Some [0, 3, 4]
      else if adjacencyMask = (Left OR Back OR Top) then Some [0, 3, 5]
      else if adjacencyMask = (Right OR Front OR Bottom) then Some [1, 2, 4]
      else if adjacencyMask = (Right OR Front OR Top) then Some [1, 2, 5]
      else if adjacencyMask = (Right OR Back OR Bottom) then Some [1, 3, 4]
      else if adjacencyMask = (Right OR Back OR Top) then Some [1, 3, 5]
      else None)"

text \<open>The one, two or three calls of \<^verbatim>\<open>AddGhostLayerToGrid\<close> that follow a \<^verbatim>\<open>switch\<close>.\<close>

fun addGhostLayers ::
  "('i, 'b) pointsAdder \<Rightarrow> nat list \<Rightarrow> int \<Rightarrow> 'b GridBlockStructure_scheme \<Rightarrow> 'i Information_scheme \<Rightarrow>
     'b GridBlockStructure_scheme \<times> 'i Information_scheme" where
  "addGhostLayers pts [] g bs info = (bs, info)"
| "addGhostLayers pts (idx # idxs) g bs info =
     (case AddGhostLayerToGrid pts idx g bs info of (bs1, info1) \<Rightarrow> addGhostLayers pts idxs g bs1 info1)"

text \<open>
  \<^verbatim>\<open>LinkGrid\<close> works on the block information, the link set of the local block and (through
  \<^verbatim>\<open>vtkLog\<close>) the error log. It returns the block structure of the neighbour, or \<open>None\<close> when
  it erased the neighbour from the map.
\<close>

type_synonym 'i linkState = "'i Information_scheme \<times> int set \<times> string list"

definition LinkGrid ::
  "('i, 'b) pointsAdder \<Rightarrow> int \<Rightarrow> 'b GridBlockStructure_scheme \<Rightarrow> 'i linkState \<Rightarrow> uchar \<Rightarrow> uchar \<Rightarrow>
     int \<Rightarrow> int \<Rightarrow> 'b GridBlockStructure_scheme option \<times> 'i linkState" where
  "LinkGrid pts gid blockStructure st adjacencyMask overlapMask outputGhostLevels dataDim =
     (case st of (blockInformation, localLinks, logged) \<Rightarrow>
       (let (switch, message) =
              (if faceAdjacent dataDim overlapMask adjacencyMask
               then (faceSwitch adjacencyMask,
                     if dataDim \<noteq> 1 then [''Wrong adjacency mask for 1D grid inputs''] else [])
               else if edgeAdjacent dataDim overlapMask adjacencyMask
               then (edgeSwitch adjacencyMask,
                     if dataDim \<noteq> 2 then [''Wrong adjacency mask for 2D grid inputs''] else [])
               else (cornerSwitch adjacencyMask,
                     if dataDim \<noteq> 3 then [''Wrong adjacency mask for 3D grid inputs''] else []))
        in case switch of
             None \<Rightarrow> (None, blockInformation, localLinks, logged @ message)
           | Some idxs \<Rightarrow>
               (case addGhostLayers pts idxs outputGhostLevels blockStructure blockInformation of
                  (blockStructure1, blockInformation1) \<Rightarrow>
                    (Some blockStructure1, blockInformation1, insert gid localLinks, logged))))"

text \<open>
  The loop of \<^verbatim>\<open>ComputeGridLinkMapAndAllocateGhosts\<close> over the block structures of one local
  block. \<^verbatim>\<open>BlockMapType\<close> is a map ordered by global id: the list of its entries in that order.
  The loop returns the entries it kept. \<open>sync\<close> is \<^verbatim>\<open>SynchronizeGridExtents\<close> applied to the
  local block structure; its outer \<open>None\<close> is undefined behaviour of the matcher.
\<close>

fun linkNeighbors ::
  "('b GridBlockStructure_scheme \<Rightarrow> ExtentType option option) \<Rightarrow> ('i, 'b) pointsAdder \<Rightarrow> ExtentType \<Rightarrow>
     int \<Rightarrow> int \<Rightarrow> (int \<times> 'b GridBlockStructure_scheme) list \<Rightarrow> 'i linkState \<Rightarrow>
     ((int \<times> 'b GridBlockStructure_scheme) list \<times> 'i linkState) option" where
  "linkNeighbors sync pts localExtent outputGhostLevels dataDim [] st = Some ([], st)"
| "linkNeighbors sync pts localExtent outputGhostLevels dataDim ((gid, blockStructure) # rest) st =
     (case sync blockStructure of
        None \<Rightarrow> None
      | Some None \<Rightarrow> linkNeighbors sync pts localExtent outputGhostLevels dataDim rest st
      | Some (Some shiftedExtent) \<Rightarrow>
          (case ComputeAdjacencyAndOverlapMasks localExtent shiftedExtent of
             (adjacencyMask, overlapMask) \<Rightarrow>
               (case LinkGrid pts gid
                       (blockStructure\<lparr>AdjacencyMask := adjacencyMask,
                                       ExtentWithNewGhosts := Extent blockStructure\<rparr>)
                       st adjacencyMask overlapMask outputGhostLevels dataDim of
                  (kept, st1) \<Rightarrow>
                    (case linkNeighbors sync pts localExtent outputGhostLevels dataDim rest st1 of
                       None \<Rightarrow> None
                     | Some (keptRest, st2) \<Rightarrow>
                         Some ((case kept of None \<Rightarrow> [] | Some bs \<Rightarrow> [(gid, bs)]) @ keptRest, st2)))))"

text \<open>
  \<^verbatim>\<open>UpdateOutputGridStructure\<close>. The extents are arrays of \<^verbatim>\<open>int\<close>, 32 bits wide, and the six
  updates are computed on that type. Where a difference or a sum leaves the range of \<^verbatim>\<open>int\<close>
  the compiled code wraps around (the language leaves the overflow undefined): \<open>toInt\<close> is that
  wrap-around.
\<close>

definition fitsInt :: "int \<Rightarrow> bool" where
  "fitsInt x \<longleftrightarrow> - 2147483648 \<le> x \<and> x \<le> 2147483647"

definition toInt :: "int \<Rightarrow> int" where
  "toInt x = (x + 2147483648) mod 4294967296 - 2147483648"

definition UpdateOutputGridStructure :: "'i Information_scheme \<Rightarrow> ExtentType" where
  "UpdateOutputGridStructure blockInformation =
     (let ghostThickness = ExtentGhostThickness blockInformation;
          outputExtentBefore = InformationExtent blockInformation;
          outputExtent1 = ext_set outputExtentBefore 0
            (toInt (ext_at outputExtentBefore 0 - ext_at ghostThickness 0));
          outputExtent2 = ext_set outputExtent1 1
            (toInt (ext_at outputExtent1 1 + ext_at ghostThickness 1));
          outputExtent3 = ext_set outputExtent2 2
            (toInt (ext_at outputExtent2 2 - ext_at ghostThickness 2));
          outputExtent4 = ext_set outputExtent3 3
            (toInt (ext_at outputExtent3 3 + ext_at ghostThickness 3));
          outputExtent5 = ext_set outputExtent4 4
            (toInt (ext_at outputExtent4 4 - ext_at ghostThickness 4));
          outputExtent6 = ext_set outputExtent5 5
            (toInt (ext_at outputExtent5 5 + ext_at ghostThickness 5))
      in outputExtent6)"

text \<open>
  The body of the loop of \<^verbatim>\<open>ComputeGridLinkMapAndAllocateGhosts\<close> over the local blocks, for one
  block. It returns the block, its link set (\<^verbatim>\<open>linkMap[localId]\<close>), the extent of the output
  grid and the log. A block with an invalid extent is skipped (\<^verbatim>\<open>continue\<close>): its output is
  left as it was. \<^verbatim>\<open>CloneGrid\<close> and \<^verbatim>\<open>UpdateOutputGridPoints\<close> copy field data and points, which
  the properties below do not read; they are left out.
\<close>

record ('i, 'b) GridBlock =
  BlockInformation :: "'i Information_scheme"
  BlockStructures :: "(int \<times> 'b GridBlockStructure_scheme) list"

record ('i, 'b) LinkedBlock =
  Block :: "('i, 'b) GridBlock"
  LocalLinks :: "int set"
  OutputExtent :: ExtentType
  Logged :: "string list"

definition ComputeGridLinkMapAndAllocateGhosts_block ::
  "('i Information_scheme \<Rightarrow> 'b GridBlockStructure_scheme \<Rightarrow> ExtentType option option) \<Rightarrow>
     ('i, 'b) pointsAdder \<Rightarrow> int \<Rightarrow> int \<Rightarrow> ExtentType \<Rightarrow> string list \<Rightarrow> ('i, 'b) GridBlock \<Rightarrow>
     ('i, 'b) LinkedBlock option" where
  "ComputeGridLinkMapAndAllocateGhosts_block sync pts outputGhostLevels dataDim outputExtent logged block =
     (let blockStructures = BlockStructures block;
          localExtent = InformationExtent (BlockInformation block)
      in if ext_at localExtent 0 > ext_at localExtent 1 \<or> ext_at localExtent 2 > ext_at localExtent 3 \<or>
            ext_at localExtent 4 > ext_at localExtent 5
         then Some \<lparr>Block = block\<lparr>BlockStructures := []\<rparr>, LocalLinks = {},
                     OutputExtent = outputExtent, Logged = logged\<rparr>
         else
           (case linkNeighbors (sync (BlockInformation block)) pts localExtent outputGhostLevels dataDim
                   blockStructures (BlockInformation block, {}, logged) of
              None \<Rightarrow> None
            | Some (kept, blockInformation1, localLinks, logged1) \<Rightarrow>
                Some \<lparr>Block = \<lparr>BlockInformation = blockInformation1, BlockStructures = kept\<rparr>,
                      LocalLinks = localLinks,
                      OutputExtent = UpdateOutputGridStructure blockInformation1,
                      Logged = logged1\<rparr>))"

text \<open>The depth of the spec: \<open>min(outputGhostLevels, width of the neighbour along the axis)\<close>.\<close>

definition neighborDepth :: "int \<Rightarrow> 'b GridBlockStructure_scheme \<Rightarrow> nat \<Rightarrow> int" where
  "neighborDepth outputGhostLevels blockStructure idx =
     min outputGhostLevels
       \<bar>ext_at (Extent blockStructure) idx - ext_at (Extent blockStructure) (oppositeIdx idx)\<bar>"

text \<open>The neighbours of a list whose adjacency mask has the bit of face \<open>idx\<close>.\<close>

definition touching :: "nat \<Rightarrow> (int \<times> 'b GridBlockStructure_scheme) list \<Rightarrow> 'b GridBlockStructure_scheme list" where
  "touching idx neighbors = filter (\<lambda>bs. bit (AdjacencyMask bs) idx) (map snd neighbors)"

lemma ext_at_ext_set:
  "i < 6 \<Longrightarrow> j < 6 \<Longrightarrow> ext_at (ext_set e i v) j = (if j = i then v else ext_at e j)"
  by (cases e) (auto elim!: face_cases)

lemma AddGhostLayerToGrid_effect:
  assumes "AddGhostLayerToGrid pts idx g bs info = (bs1, info1)" and "idx < 6"
  shows "Extent bs1 = Extent bs" "AdjacencyMask bs1 = AdjacencyMask bs"
    "InformationExtent info1 = InformationExtent info"
    "j < 6 \<Longrightarrow> ext_at (ExtentGhostThickness info1) j =
       (if j = idx then max (ext_at (ExtentGhostThickness info) j) (neighborDepth g bs idx)
        else ext_at (ExtentGhostThickness info) j)"
  using assms
  by (auto simp: AddGhostLayerToGrid_def Let_def neighborDepth_def oppositeIdx_def ext_at_ext_set)

lemma addGhostLayers_effect:
  assumes "addGhostLayers pts idxs g bs info = (bs1, info1)" and "\<forall>i\<in>set idxs. i < 6"
  shows "Extent bs1 = Extent bs \<and> AdjacencyMask bs1 = AdjacencyMask bs \<and>
    InformationExtent info1 = InformationExtent info \<and>
    (\<forall>j<6. ext_at (ExtentGhostThickness info1) j =
       (if j \<in> set idxs then max (ext_at (ExtentGhostThickness info) j) (neighborDepth g bs j)
        else ext_at (ExtentGhostThickness info) j))"
  using assms
proof (induction idxs arbitrary: bs info)
  case Nil
  then show ?case by simp
next
  case (Cons i idxs)
  obtain bs' info' where step: "AddGhostLayerToGrid pts i g bs info = (bs', info')"
    by (cases "AddGhostLayerToGrid pts i g bs info")
  have i: "i < 6" using Cons.prems(2) by simp
  note e = AddGhostLayerToGrid_effect [OF step i]
  have rest: "addGhostLayers pts idxs g bs' info' = (bs1, info1)"
    using Cons.prems(1) step by simp
  have ih: "Extent bs1 = Extent bs' \<and> AdjacencyMask bs1 = AdjacencyMask bs' \<and>
    InformationExtent info1 = InformationExtent info' \<and>
    (\<forall>j<6. ext_at (ExtentGhostThickness info1) j =
       (if j \<in> set idxs then max (ext_at (ExtentGhostThickness info') j) (neighborDepth g bs' j)
        else ext_at (ExtentGhostThickness info') j))"
    using Cons.IH [OF rest] Cons.prems(2) by simp
  have nd: "neighborDepth g bs' j = neighborDepth g bs j" for j
    by (simp add: neighborDepth_def e(1))
  show ?case
    using ih e by (auto simp: nd)
qed

lemma switch_bits:
  "faceSwitch m = Some idxs \<Longrightarrow> j < 6 \<Longrightarrow> j \<in> set idxs \<longleftrightarrow> bit m j"
  "edgeSwitch m = Some idxs \<Longrightarrow> j < 6 \<Longrightarrow> j \<in> set idxs \<longleftrightarrow> bit m j"
  "cornerSwitch m = Some idxs \<Longrightarrow> j < 6 \<Longrightarrow> j \<in> set idxs \<longleftrightarrow> bit m j"
  by (auto simp: faceSwitch_def edgeSwitch_def cornerSwitch_def Adjacency_defs
        split: if_splits elim!: face_cases)

lemma switch_range:
  "faceSwitch m = Some idxs \<Longrightarrow> \<forall>i\<in>set idxs. i < 6"
  "edgeSwitch m = Some idxs \<Longrightarrow> \<forall>i\<in>set idxs. i < 6"
  "cornerSwitch m = Some idxs \<Longrightarrow> \<forall>i\<in>set idxs. i < 6"
  by (auto simp: faceSwitch_def edgeSwitch_def cornerSwitch_def split: if_splits)

lemma LinkGrid_kept:
  assumes "LinkGrid pts gid bs (info, links, logged) m ov g dataDim = (Some bs1, info1, links1, logged1)"
  shows "Extent bs1 = Extent bs" "AdjacencyMask bs1 = AdjacencyMask bs"
    "InformationExtent info1 = InformationExtent info"
    "links1 = insert gid links" "logged1 = logged"
    "j < 6 \<Longrightarrow> ext_at (ExtentGhostThickness info1) j =
       (if bit m j then max (ext_at (ExtentGhostThickness info) j) (neighborDepth g bs j)
        else ext_at (ExtentGhostThickness info) j)"
proof -
  define switch where "switch =
     (if faceAdjacent dataDim ov m then faceSwitch m
      else if edgeAdjacent dataDim ov m then edgeSwitch m else cornerSwitch m)"
  from assms obtain idxs where sw: "switch = Some idxs"
    and add: "addGhostLayers pts idxs g bs info = (bs1, info1)"
    and l: "links1 = insert gid links" "logged1 = logged"
    by (auto simp: LinkGrid_def switch_def Let_def split: if_splits option.splits prod.splits)
  have range: "\<forall>i\<in>set idxs. i < 6"
    using sw switch_range [of m idxs] by (auto simp: switch_def split: if_splits)
  have bits: "j \<in> set idxs \<longleftrightarrow> bit m j" if "j < 6" for j
    using sw switch_bits [of m idxs j] that by (auto simp: switch_def split: if_splits)
  note e = addGhostLayers_effect [OF add range]
  show "Extent bs1 = Extent bs" "AdjacencyMask bs1 = AdjacencyMask bs"
    "InformationExtent info1 = InformationExtent info"
    using e by simp_all
  show "links1 = insert gid links" "logged1 = logged" by fact+
  show "j < 6 \<Longrightarrow> ext_at (ExtentGhostThickness info1) j =
       (if bit m j then max (ext_at (ExtentGhostThickness info) j) (neighborDepth g bs j)
        else ext_at (ExtentGhostThickness info) j)"
    using e bits by simp
qed

lemma LinkGrid_erased:
  assumes "LinkGrid pts gid bs (info, links, logged) m ov g dataDim = (None, info1, links1, logged1)"
  shows "info1 = info" "links1 = links"
  using assms
  by (auto simp: LinkGrid_def Let_def split: if_splits option.splits prod.splits)

definition thicknessOf :: "int \<Rightarrow> nat \<Rightarrow> int \<Rightarrow> (int \<times> 'b GridBlockStructure_scheme) list \<Rightarrow> int" where
  "thicknessOf outputGhostLevels idx t0 neighbors =
     Max (set (t0 # map (\<lambda>bs. neighborDepth outputGhostLevels bs idx) (touching idx neighbors)))"

lemma thicknessOf_Nil: "thicknessOf g idx t0 [] = t0"
  by (simp add: thicknessOf_def touching_def)

lemma thicknessOf_Cons:
  "thicknessOf g idx t0 ((gid, bs) # rest) =
     thicknessOf g idx (if bit (AdjacencyMask bs) idx then max t0 (neighborDepth g bs idx) else t0) rest"
proof -
  let ?ds = "map (\<lambda>bs. neighborDepth g bs idx) (touching idx rest)"
  have fin: "finite (set ?ds)" by simp
  show ?thesis
  proof (cases "bit (AdjacencyMask bs) idx")
    case False
    then show ?thesis by (simp add: thicknessOf_def touching_def)
  next
    case True
    have "Max (insert t0 (insert (neighborDepth g bs idx) (set ?ds))) =
          Max (insert (max t0 (neighborDepth g bs idx)) (set ?ds))"
    proof (cases "set ?ds = {}")
      case True
      then show ?thesis by simp
    next
      case False
      then show ?thesis using fin by (simp add: max.assoc)
    qed
    then show ?thesis using True by (simp add: thicknessOf_def touching_def)
  qed
qed

lemma linkNeighbors_thickness:
  assumes "linkNeighbors sync pts localExtent g dataDim entries (info, links, logged) =
             Some (kept, info1, links1, logged1)"
  shows "InformationExtent info1 = InformationExtent info \<and>
         (\<forall>j<6. ext_at (ExtentGhostThickness info1) j =
                   thicknessOf g j (ext_at (ExtentGhostThickness info) j) kept) \<and>
         links1 = links \<union> fst ` set kept \<and>
         (\<forall>(gid, bs1)\<in>set kept. \<exists>bs. (gid, bs) \<in> set entries \<and> Extent bs1 = Extent bs)"
  using assms
proof (induction entries arbitrary: info links logged kept)
  case Nil
  then show ?case by (simp add: thicknessOf_Nil)
next
  case (Cons entry rest)
  obtain gid bs where entry: "entry = (gid, bs)" by (cases entry)
  show ?case
  proof (cases "sync bs")
    case None
    then show ?thesis using Cons.prems by (simp add: entry)
  next
    case (Some matched)
    show ?thesis
    proof (cases matched)
      case None
      then have "linkNeighbors sync pts localExtent g dataDim rest (info, links, logged) =
          Some (kept, info1, links1, logged1)"
        using Cons.prems Some by (simp add: entry)
      from Cons.IH [OF this] show ?thesis by (auto simp: entry)
    next
      case (Some shiftedExtent)
      obtain m ov where masks: "ComputeAdjacencyAndOverlapMasks localExtent shiftedExtent = (m, ov)"
        by (cases "ComputeAdjacencyAndOverlapMasks localExtent shiftedExtent")
      let ?bs0 = "bs\<lparr>AdjacencyMask := m, ExtentWithNewGhosts := Extent bs\<rparr>"
      obtain r info2 links2 logged2 where
        lg: "LinkGrid pts gid ?bs0 (info, links, logged) m ov g dataDim = (r, info2, links2, logged2)"
        by (cases "LinkGrid pts gid ?bs0 (info, links, logged) m ov g dataDim") auto
      from Cons.prems \<open>sync bs = Some matched\<close> Some masks lg
      obtain keptRest where
        rest: "linkNeighbors sync pts localExtent g dataDim rest (info2, links2, logged2) =
                 Some (keptRest, info1, links1, logged1)"
        and kept: "kept = (case r of None \<Rightarrow> [] | Some b \<Rightarrow> [(gid, b)]) @ keptRest"
        by (auto simp: entry split: option.splits)
      note ih = Cons.IH [OF rest]
      show ?thesis
      proof (cases r)
        case None
        have "info2 = info" "links2 = links"
          using LinkGrid_erased [OF lg [unfolded None]] by simp_all
        then show ?thesis using ih kept None by (auto simp: entry)
      next
        case (Some bs1)
        note k = LinkGrid_kept [OF lg [unfolded Some]]
        have nd: "neighborDepth g bs1 j = neighborDepth g ?bs0 j" for j
          by (simp add: neighborDepth_def k(1))
        have m: "AdjacencyMask bs1 = m" using k(2) by simp
        have t: "\<forall>j<6. ext_at (ExtentGhostThickness info1) j =
                   thicknessOf g j (ext_at (ExtentGhostThickness info) j) kept"
          using ih k(6) by (simp add: kept Some thicknessOf_Cons m nd)
        have e: "Extent bs1 = Extent bs" using k(1) by simp
        show ?thesis
          using ih t k(3,4) e by (auto simp: kept Some entry)
      qed
    qed
  qed
qed

text \<open>\<^verbatim>\<open>AddGhostLayerOfGridPoints\<close> for uniform and curvilinear grids: nothing changes.\<close>

definition noGridPoints :: "('i, 'b) pointsAdder" where
  "noGridPoints extentIdx blockInformation blockStructure = Information.more blockInformation"

text \<open>
  The matcher of uniform grids as the loop calls it: the local block structure is built from
  the input image (dimension, origin, spacing, orientation) and the extent of the information.
\<close>

definition imageSync ::
  "'d DoubleOps \<Rightarrow> 'd ImageDataBlockStructure \<Rightarrow> 'i Information_scheme \<Rightarrow>
     'd ImageDataBlockStructure \<Rightarrow> ExtentType option option" where
  "imageSync ops input blockInformation blockStructure =
     Some (SynchronizeGridExtents_ImageData ops
             (input\<lparr>Extent := InformationExtent blockInformation\<rparr>) blockStructure)"

definition exImage :: "ExtentType \<Rightarrow> int \<Rightarrow> real ImageDataBlockStructure" where
  "exImage extent dataDim = \<lparr>Extent = extent, DataDimension = dataDim,
      ExtentWithNewGhosts = extent, AdjacencyMask = 0,
      Origin = (0, 0, 0), Spacing = (1, 1, 1), OrientationQuaternion = (1, 0, 0, 0)\<rparr>"

text \<open>
  Modelled from the spec: the initial value of the accumulator is set in the header, which is
  not among the sources; the spec gives it as 0 on every side.
\<close>

definition newInformation :: "ExtentType \<Rightarrow> Information" where
  "newInformation extent =
     \<lparr>InformationExtent = extent, ExtentGhostThickness = MkExtent 0 0 0 0 0 0\<rparr>"


lemma thicknessOf_bounds:
  "t0 \<le> thicknessOf g idx t0 neighbors" "thicknessOf g idx t0 neighbors \<le> max t0 g"
  by (auto simp: thicknessOf_def neighborDepth_def intro: Max_ge)

lemma thicknessOf_ge_depth:
  "bs \<in> set (touching idx neighbors) \<Longrightarrow> neighborDepth g bs idx \<le> thicknessOf g idx t0 neighbors"
  by (auto simp: thicknessOf_def intro!: Max_ge)

lemma thicknessOf_attained:
  "thicknessOf g idx t0 neighbors = t0 \<or>
   (\<exists>bs\<in>set (touching idx neighbors). thicknessOf g idx t0 neighbors = neighborDepth g bs idx)"
proof -
  let ?S = "set (t0 # map (\<lambda>bs. neighborDepth g bs idx) (touching idx neighbors))"
  have "Max ?S \<in> ?S" by (rule Max_in) simp_all
  then show ?thesis unfolding thicknessOf_def by auto
qed

lemma linkNeighbors_defined:
  assumes "\<forall>e\<in>set entries. sync (snd e) \<noteq> None"
  shows "\<exists>r. linkNeighbors sync pts localExtent g dataDim entries st = Some r"
  using assms
proof (induction entries arbitrary: st)
  case Nil
  then show ?case by (simp del: split_paired_Ex)
next
  case (Cons entry rest)
  obtain gid bs where entry: "entry = (gid, bs)" by (cases entry)
  from Cons.prems obtain matched where m: "sync bs = Some matched" by (auto simp: entry)
  have ih: "\<exists>r. linkNeighbors sync pts localExtent g dataDim rest st' = Some r" for st'
    using Cons.IH [of st'] Cons.prems by simp
  show ?case
  proof (cases matched)
    case None
    then show ?thesis using ih [of st] m by (simp add: entry)
  next
    case (Some shiftedExtent)
    obtain mk ov where masks: "ComputeAdjacencyAndOverlapMasks localExtent shiftedExtent = (mk, ov)"
      by (cases "ComputeAdjacencyAndOverlapMasks localExtent shiftedExtent")
    obtain kept st1 where lg: "LinkGrid pts gid (bs\<lparr>AdjacencyMask := mk, ExtentWithNewGhosts := Extent bs\<rparr>)
        st mk ov g dataDim = (kept, st1)"
      by (rule prod.exhaust)
    from ih [of st1] obtain r where "linkNeighbors sync pts localExtent g dataDim rest st1 = Some r" ..
    then show ?thesis using m Some masks lg by (cases r) (simp add: entry)
  qed
qed

lemma linkNeighbors_drops_unmatched:
  "linkNeighbors sync pts localExtent g dataDim entries st =
   linkNeighbors sync pts localExtent g dataDim (filter (\<lambda>e. sync (snd e) \<noteq> Some None) entries) st"
proof (induction entries arbitrary: st)
  case Nil
  then show ?case by simp
next
  case (Cons entry rest)
  obtain gid bs where entry: "entry = (gid, bs)" by (cases entry)
  show ?case
  proof (cases "sync bs = Some None")
    case True
    then show ?thesis using Cons.IH [of st] by (simp add: entry)
  next
    case False
    then show ?thesis
      using Cons.IH by (simp add: entry split: option.splits prod.splits)
  qed
qed

lemma toInt_fits: "fitsInt x \<Longrightarrow> toInt x = x"
  by (simp add: fitsInt_def toInt_def)

lemma UpdateOutputGridStructure_at:
  assumes "a < 3"
  shows "ext_at (UpdateOutputGridStructure info) (2 * a) =
           toInt (ext_at (InformationExtent info) (2 * a) - ext_at (ExtentGhostThickness info) (2 * a))"
    and "ext_at (UpdateOutputGridStructure info) (2 * a + 1) =
           toInt (ext_at (InformationExtent info) (2 * a + 1) + ext_at (ExtentGhostThickness info) (2 * a + 1))"
  using assms
  by (elim axis_cases; simp add: UpdateOutputGridStructure_def Let_def ext_at_ext_set)+


lemma linkNeighbors_skip:
  assumes "sync bs = Some None"
  shows "linkNeighbors sync pts localExtent g dataDim (before @ (gid, bs) # after) st =
         linkNeighbors sync pts localExtent g dataDim (before @ after) st"
proof (induction before arbitrary: st)
  case Nil
  then show ?case using assms by simp
next
  case (Cons entry before)
  obtain gid' bs' where entry: "entry = (gid', bs')" by (cases entry)
  show ?case
    using Cons.IH by (simp add: entry split: option.splits prod.splits)
qed

section \<open>Descriptor round\<close>

text \<open>
  Round 0 of \<^verbatim>\<open>ExchangeBlockStructures\<close> for uniform grids: the extent of the block information
  is set to the peeled extent of the input, and the descriptor is enqueued for every target of
  the out-link but the block itself, in the order dimension, origin, spacing, quaternion,
  extent. The transport is not modelled: the function returns the messages handed to it, each
  with the global id of its target. The quaternion of the input's direction matrix (computed by
  \<^verbatim>\<open>vtkMath::Matrix3x3ToQuaternion\<close>, which is not among the sources) is taken from \<open>input\<close>.
\<close>

datatype 'd wireItem = WireInts "int list" | WireDoubles "'d list"

fun enqueueToOthers :: "int \<Rightarrow> int list \<Rightarrow> 'm \<Rightarrow> (int \<times> 'm) list" where
  "enqueueToOthers myBlockId [] payload = []"
| "enqueueToOthers myBlockId (gid # targets) payload =
     (if gid \<noteq> myBlockId then [(gid, payload)] else []) @ enqueueToOthers myBlockId targets payload"

definition ExchangeBlockStructures_ImageData_round0 ::
  "idForExtent \<Rightarrow> GridDataSet \<Rightarrow> int \<Rightarrow> 'd ImageDataBlockStructure \<Rightarrow> int \<Rightarrow> int list \<Rightarrow>
     (ExtentType \<times> (int \<times> 'd wireItem list) list) option" where
  "ExchangeBlockStructures_ImageData_round0 cellId grid inputGhostLevels input myBlockId out_link =
     (case PeelOffGhostLayers cellId grid inputGhostLevels of
        None \<Rightarrow> None
      | Some extent \<Rightarrow>
          Some (extent,
            enqueueToOthers myBlockId out_link
              [WireInts [DataDimension input],
               (case Origin input of (o0, o1, o2) \<Rightarrow> WireDoubles [o0, o1, o2]),
               (case Spacing input of (s0, s1, s2) \<Rightarrow> WireDoubles [s0, s1, s2]),
               (case OrientationQuaternion input of (q0, q1, q2, q3) \<Rightarrow> WireDoubles [q0, q1, q2, q3]),
               WireInts [ext_at extent 0, ext_at extent 1, ext_at extent 2,
                         ext_at extent 3, ext_at extent 4, ext_at extent 5]]))"

lemma enqueueToOthers_eq:
  "enqueueToOthers myBlockId targets payload =
     map (\<lambda>gid. (gid, payload)) (filter (\<lambda>gid. gid \<noteq> myBlockId) targets)"
  by (induction targets) simp_all

section \<open>Properties of the link builder\<close>

text \<open>
  Claim C5, amended. After the link builder has processed the neighbours of a block, the
  thickness \<open>t[idx]\<close> is the maximum of its initial value (0) and of
  \<open>min(outputGhostLevels, width along that axis)\<close> over the linked neighbours whose adjacency
  mask has the bit of face \<open>idx\<close>. Consequently no such neighbour's clamped depth exceeds the
  thickness, the clamped depth of a neighbour never exceeds its width and is that width when
  \<open>outputGhostLevels\<close> is larger, the thickness is the initial value or the clamped depth of one
  of these neighbours, and it never exceeds \<open>outputGhostLevels\<close> (or the initial value).
\<close>

theorem C5_thickness_is_max_depth:
  assumes run: "linkNeighbors sync pts localExtent outputGhostLevels dataDim neighbors
                  (blockInformation, links, logged) = Some (kept, blockInformation1, links1, logged1)"
    and idx: "idx < 6"
  shows "ext_at (ExtentGhostThickness blockInformation1) idx =
           Max (set (ext_at (ExtentGhostThickness blockInformation) idx #
                     map (\<lambda>bs. neighborDepth outputGhostLevels bs idx) (touching idx kept))) \<and>
         (\<forall>bs\<in>set (touching idx kept).
            neighborDepth outputGhostLevels bs idx \<le> ext_at (ExtentGhostThickness blockInformation1) idx \<and>
            neighborDepth outputGhostLevels bs idx \<le>
              \<bar>ext_at (Extent bs) idx - ext_at (Extent bs) (oppositeIdx idx)\<bar> \<and>
            (\<bar>ext_at (Extent bs) idx - ext_at (Extent bs) (oppositeIdx idx)\<bar> \<le> outputGhostLevels \<longrightarrow>
               neighborDepth outputGhostLevels bs idx =
                 \<bar>ext_at (Extent bs) idx - ext_at (Extent bs) (oppositeIdx idx)\<bar>)) \<and>
         (ext_at (ExtentGhostThickness blockInformation1) idx =
            ext_at (ExtentGhostThickness blockInformation) idx \<or>
          (\<exists>bs\<in>set (touching idx kept).
             ext_at (ExtentGhostThickness blockInformation1) idx = neighborDepth outputGhostLevels bs idx)) \<and>
         ext_at (ExtentGhostThickness blockInformation1) idx \<le>
           max (ext_at (ExtentGhostThickness blockInformation) idx) outputGhostLevels"
proof -
  let ?t0 = "ext_at (ExtentGhostThickness blockInformation) idx"
  let ?t1 = "ext_at (ExtentGhostThickness blockInformation1) idx"
  have eq: "?t1 = thicknessOf outputGhostLevels idx ?t0 kept"
    using linkNeighbors_thickness [OF run] idx by simp
  have 1: "?t1 = Max (set (?t0 # map (\<lambda>bs. neighborDepth outputGhostLevels bs idx) (touching idx kept)))"
    using eq by (simp only: thicknessOf_def)
  have 2: "\<forall>bs\<in>set (touching idx kept).
            neighborDepth outputGhostLevels bs idx \<le> ?t1 \<and>
            neighborDepth outputGhostLevels bs idx \<le>
              \<bar>ext_at (Extent bs) idx - ext_at (Extent bs) (oppositeIdx idx)\<bar> \<and>
            (\<bar>ext_at (Extent bs) idx - ext_at (Extent bs) (oppositeIdx idx)\<bar> \<le> outputGhostLevels \<longrightarrow>
               neighborDepth outputGhostLevels bs idx =
                 \<bar>ext_at (Extent bs) idx - ext_at (Extent bs) (oppositeIdx idx)\<bar>)"
  proof
    fix bs assume "bs \<in> set (touching idx kept)"
    then have "neighborDepth outputGhostLevels bs idx \<le> ?t1"
      unfolding eq by (rule thicknessOf_ge_depth)
    then show "neighborDepth outputGhostLevels bs idx \<le> ?t1 \<and>
            neighborDepth outputGhostLevels bs idx \<le>
              \<bar>ext_at (Extent bs) idx - ext_at (Extent bs) (oppositeIdx idx)\<bar> \<and>
            (\<bar>ext_at (Extent bs) idx - ext_at (Extent bs) (oppositeIdx idx)\<bar> \<le> outputGhostLevels \<longrightarrow>
               neighborDepth outputGhostLevels bs idx =
                 \<bar>ext_at (Extent bs) idx - ext_at (Extent bs) (oppositeIdx idx)\<bar>)"
      by (simp add: neighborDepth_def)
  qed
  have 3: "?t1 = ?t0 \<or>
          (\<exists>bs\<in>set (touching idx kept). ?t1 = neighborDepth outputGhostLevels bs idx)"
    unfolding eq by (rule thicknessOf_attained)
  have 4: "?t1 \<le> max ?t0 outputGhostLevels"
    unfolding eq by (rule thicknessOf_bounds(2))
  from 1 2 3 4 show ?thesis by (intro conjI)
qed

text \<open>
  A block of 4 by 4 cells with two neighbours on its right face: one a single cell wide, the
  other three cells wide, and two output ghost levels.
\<close>

definition exBlockA :: "real ImageDataBlockStructure" where
  "exBlockA = exImage (MkExtent 0 4 0 4 0 0) 2"

lemma ex_link:
 "linkNeighbors (imageSync realOps exBlockA (newInformation (MkExtent 0 4 0 4 0 0)))
     noGridPoints (MkExtent 0 4 0 4 0 0) 2 2
     [(1, exImage (MkExtent 4 5 0 2 0 0) 2), (2, exImage (MkExtent 4 7 2 4 0 0) 2)]
     (newInformation (MkExtent 0 4 0 4 0 0), {}, []) =
  Some ([(1, (exImage (MkExtent 4 5 0 2 0 0) 2)\<lparr>AdjacencyMask := 2, ExtentWithNewGhosts := MkExtent 3 5 0 2 0 0\<rparr>),
         (2, (exImage (MkExtent 4 7 2 4 0 0) 2)\<lparr>AdjacencyMask := 2, ExtentWithNewGhosts := MkExtent 2 7 2 4 0 0\<rparr>)],
        \<lparr>InformationExtent = MkExtent 0 4 0 4 0 0, ExtentGhostThickness = MkExtent 0 2 0 0 0 0\<rparr>, {2, 1}, [])"
  by (simp add: imageSync_def SynchronizeGridExtents_ImageData_def exImage_def exBlockA_def realOps_def newInformation_def
       ComputeAdjacencyAndOverlapMasks_def Adjacency_defs Overlap_defs LinkGrid_def faceAdjacent_def
       faceSwitch_def AddGhostLayerToGrid_def noGridPoints_def Let_def)

text \<open>
  Claim C5, as stated, fails: the thickness is a maximum over the neighbours of a face, so it
  exceeds the depth of the narrower ones. Here the right face gets thickness 2 although the
  first neighbour on that face is one cell wide.
\<close>

theorem C5_thickness_counterexample:
  "linkNeighbors (imageSync realOps exBlockA (newInformation (MkExtent 0 4 0 4 0 0)))
     noGridPoints (MkExtent 0 4 0 4 0 0) 2 2
     [(1, exImage (MkExtent 4 5 0 2 0 0) 2), (2, exImage (MkExtent 4 7 2 4 0 0) 2)]
     (newInformation (MkExtent 0 4 0 4 0 0), {}, []) =
   Some ([(1, (exImage (MkExtent 4 5 0 2 0 0) 2)\<lparr>AdjacencyMask := 2, ExtentWithNewGhosts := MkExtent 3 5 0 2 0 0\<rparr>),
          (2, (exImage (MkExtent 4 7 2 4 0 0) 2)\<lparr>AdjacencyMask := 2, ExtentWithNewGhosts := MkExtent 2 7 2 4 0 0\<rparr>)],
         \<lparr>InformationExtent = MkExtent 0 4 0 4 0 0, ExtentGhostThickness = MkExtent 0 2 0 0 0 0\<rparr>, {2, 1}, []) \<and>
   bit (AdjacencyMask ((exImage (MkExtent 4 5 0 2 0 0) 2)\<lparr>AdjacencyMask := 2, ExtentWithNewGhosts := MkExtent 3 5 0 2 0 0\<rparr>)) (1::nat) \<and>
   \<not> ext_at (MkExtent 0 2 0 0 0 0) 1 \<le>
       \<bar>ext_at (Extent (exImage (MkExtent 4 5 0 2 0 0) 2)) 1 - ext_at (Extent (exImage (MkExtent 4 5 0 2 0 0) 2)) (oppositeIdx 1)\<bar>"
  unfolding ex_link by (simp add: exImage_def oppositeIdx_def)

theorem C5_thickness_is_max_depth_witness:
  "linkNeighbors (imageSync realOps exBlockA (newInformation (MkExtent 0 4 0 4 0 0)))
     noGridPoints (MkExtent 0 4 0 4 0 0) 2 2
     [(1, exImage (MkExtent 4 5 0 2 0 0) 2), (2, exImage (MkExtent 4 7 2 4 0 0) 2)]
     (newInformation (MkExtent 0 4 0 4 0 0), {}, []) =
   Some ([(1, (exImage (MkExtent 4 5 0 2 0 0) 2)\<lparr>AdjacencyMask := 2, ExtentWithNewGhosts := MkExtent 3 5 0 2 0 0\<rparr>),
          (2, (exImage (MkExtent 4 7 2 4 0 0) 2)\<lparr>AdjacencyMask := 2, ExtentWithNewGhosts := MkExtent 2 7 2 4 0 0\<rparr>)],
         \<lparr>InformationExtent = MkExtent 0 4 0 4 0 0, ExtentGhostThickness = MkExtent 0 2 0 0 0 0\<rparr>, {2, 1}, []) \<and>
   (1::nat) < 6 \<and>
   ext_at (MkExtent 0 2 0 0 0 0) 1 =
     Max (set (ext_at (MkExtent 0 0 0 0 0 0) 1 #
               [neighborDepth 2 (exImage (MkExtent 4 5 0 2 0 0) 2) 1,
                neighborDepth 2 (exImage (MkExtent 4 7 2 4 0 0) 2) 1]))"
proof -
  have idx: "(1::nat) < 6" by simp
  have t: "touching 1
     [(1::int, (exImage (MkExtent 4 5 0 2 0 0) 2)\<lparr>AdjacencyMask := 2, ExtentWithNewGhosts := MkExtent 3 5 0 2 0 0\<rparr>),
      (2, (exImage (MkExtent 4 7 2 4 0 0) 2)\<lparr>AdjacencyMask := 2, ExtentWithNewGhosts := MkExtent 2 7 2 4 0 0\<rparr>)] =
     [(exImage (MkExtent 4 5 0 2 0 0) 2)\<lparr>AdjacencyMask := 2, ExtentWithNewGhosts := MkExtent 3 5 0 2 0 0\<rparr>,
      (exImage (MkExtent 4 7 2 4 0 0) 2)\<lparr>AdjacencyMask := 2, ExtentWithNewGhosts := MkExtent 2 7 2 4 0 0\<rparr>]"
    by (simp add: touching_def exImage_def)
  from C5_thickness_is_max_depth [OF ex_link [unfolded newInformation_def] idx]
  have "ext_at (MkExtent 0 2 0 0 0 0) 1 =
     Max (set (ext_at (MkExtent 0 0 0 0 0 0) 1 #
               [neighborDepth 2 (exImage (MkExtent 4 5 0 2 0 0) 2) 1,
                neighborDepth 2 (exImage (MkExtent 4 7 2 4 0 0) 2) 1]))"
    unfolding t by (simp add: neighborDepth_def exImage_def)
  then show ?thesis using ex_link by simp
qed

text \<open>
  Claim C6. For a block with a valid extent, a thickness that starts at 0 and
  \<open>outputGhostLevels \<ge> 0\<close>, where the peeled extent widened by \<open>outputGhostLevels\<close> fits the
  type \<^verbatim>\<open>int\<close> on the axis: once all neighbours are processed the output extent is the peeled
  extent widened by the accumulated thickness of each side, so the output width exceeds the
  peeled width by \<open>t[2a] + t[2a+1]\<close>, which is at most \<open>2 * outputGhostLevels\<close>. The link-map
  computation returns whenever the matcher does.
\<close>

theorem C6_output_extent_widened:
  assumes valid: "IsExtentValid (InformationExtent (BlockInformation block))"
    and g: "0 \<le> outputGhostLevels"
    and t0: "ExtentGhostThickness (BlockInformation block) = MkExtent 0 0 0 0 0 0"
    and sync: "\<forall>e\<in>set (BlockStructures block). sync (BlockInformation block) (snd e) \<noteq> None"
    and a: "a < 3"
    and lo: "fitsInt (ext_at (InformationExtent (BlockInformation block)) (2 * a) - outputGhostLevels)"
    and hi: "fitsInt (ext_at (InformationExtent (BlockInformation block)) (2 * a + 1) + outputGhostLevels)"
  shows "\<exists>linked. ComputeGridLinkMapAndAllocateGhosts_block sync pts outputGhostLevels dataDim
                     outputExtentBefore logged block = Some linked \<and>
           InformationExtent (BlockInformation (Block linked)) = InformationExtent (BlockInformation block) \<and>
           ext_at (OutputExtent linked) (2 * a) =
             ext_at (InformationExtent (BlockInformation block)) (2 * a) -
             ext_at (ExtentGhostThickness (BlockInformation (Block linked))) (2 * a) \<and>
           ext_at (OutputExtent linked) (2 * a + 1) =
             ext_at (InformationExtent (BlockInformation block)) (2 * a + 1) +
             ext_at (ExtentGhostThickness (BlockInformation (Block linked))) (2 * a + 1) \<and>
           (ext_at (OutputExtent linked) (2 * a + 1) - ext_at (OutputExtent linked) (2 * a)) -
             (ext_at (InformationExtent (BlockInformation block)) (2 * a + 1) -
              ext_at (InformationExtent (BlockInformation block)) (2 * a)) =
             ext_at (ExtentGhostThickness (BlockInformation (Block linked))) (2 * a) +
             ext_at (ExtentGhostThickness (BlockInformation (Block linked))) (2 * a + 1) \<and>
           ext_at (ExtentGhostThickness (BlockInformation (Block linked))) (2 * a) +
             ext_at (ExtentGhostThickness (BlockInformation (Block linked))) (2 * a + 1)
             \<le> 2 * outputGhostLevels"
proof -
  let ?info = "BlockInformation block"
  let ?E = "InformationExtent ?info"
  from linkNeighbors_defined [OF sync]
  obtain kept info1 links1 logged1 where
    run: "linkNeighbors (sync ?info) pts ?E outputGhostLevels dataDim (BlockStructures block)
            (?info, {}, logged) = Some (kept, info1, links1, logged1)"
    by (metis prod_cases4)
  note th = linkNeighbors_thickness [OF run]
  let ?linked = "\<lparr>Block = \<lparr>BlockInformation = info1, BlockStructures = kept\<rparr>,
      LocalLinks = links1, OutputExtent = UpdateOutputGridStructure info1, Logged = logged1\<rparr>"
  have res: "ComputeGridLinkMapAndAllocateGhosts_block sync pts outputGhostLevels dataDim
                     outputExtentBefore logged block = Some ?linked"
    using valid run by (simp add: ComputeGridLinkMapAndAllocateGhosts_block_def Let_def
        IsExtentValid_def not_less)
  have E: "InformationExtent info1 = ?E" using th by simp
  have j: "2 * a < 6" "2 * a + 1 < 6" using a by simp_all
  have tz: "ext_at (ExtentGhostThickness ?info) i = 0" for i by (simp add: t0)
  have b: "ext_at (ExtentGhostThickness info1) i \<le> outputGhostLevels" if "i < 6" for i
    using th that thicknessOf_bounds(2) [of outputGhostLevels i 0 kept] g by (simp add: tz)
  have c: "0 \<le> ext_at (ExtentGhostThickness info1) i" if "i < 6" for i
    using th that thicknessOf_bounds(1) [of 0 outputGhostLevels i kept] by (simp add: tz)
  have v: "ext_at ?E (2 * a) \<le> ext_at ?E (2 * a + 1)"
    using valid a by (elim axis_cases) (simp_all add: IsExtentValid_def)
  have f1: "fitsInt (ext_at ?E (2 * a) - ext_at (ExtentGhostThickness info1) (2 * a))"
    using lo hi v g b [OF j(1)] c [OF j(1)] by (simp add: fitsInt_def)
  have f2: "fitsInt (ext_at ?E (2 * a + 1) + ext_at (ExtentGhostThickness info1) (2 * a + 1))"
    using lo hi v g b [OF j(2)] c [OF j(2)] by (simp add: fitsInt_def)
  have o1: "ext_at (UpdateOutputGridStructure info1) (2 * a) =
      ext_at ?E (2 * a) - ext_at (ExtentGhostThickness info1) (2 * a)"
    using UpdateOutputGridStructure_at(1) [OF a, of info1] toInt_fits [OF f1] by (simp add: E)
  have o2: "ext_at (UpdateOutputGridStructure info1) (2 * a + 1) =
      ext_at ?E (2 * a + 1) + ext_at (ExtentGhostThickness info1) (2 * a + 1)"
    using UpdateOutputGridStructure_at(2) [OF a, of info1] toInt_fits [OF f2] by (simp add: E)
  show ?thesis
    using res E o1 o2 b [OF j(1)] b [OF j(2)]
    by (intro exI [of _ ?linked]) simp
qed

text \<open>Scenario S1: two blocks of 4 cells a side, two output ghost levels.\<close>

definition exBlockS1 :: "(unit, (real, unit) ImageDataBlockStructure_ext) GridBlock" where
  "exBlockS1 = \<lparr>BlockInformation = newInformation (MkExtent 0 4 0 4 0 4),
                 BlockStructures = [(1, exImage (MkExtent 4 8 0 4 0 4) 3)]\<rparr>"

lemma exBlockS1_linked:
  "ComputeGridLinkMapAndAllocateGhosts_block (imageSync realOps (exImage (MkExtent 0 4 0 4 0 4) 3))
      noGridPoints 2 3 (MkExtent 0 4 0 4 0 4) [] exBlockS1 =
   Some \<lparr>Block = \<lparr>BlockInformation =
                    \<lparr>InformationExtent = MkExtent 0 4 0 4 0 4,
                       ExtentGhostThickness = MkExtent 0 2 0 0 0 0\<rparr>,
                  BlockStructures =
                    [(1, (exImage (MkExtent 4 8 0 4 0 4) 3)
                          \<lparr>AdjacencyMask := 2, ExtentWithNewGhosts := MkExtent 2 8 0 4 0 4\<rparr>)]\<rparr>,
         LocalLinks = {1}, OutputExtent = MkExtent 0 6 0 4 0 4, Logged = []\<rparr>"
  by (simp add: ComputeGridLinkMapAndAllocateGhosts_block_def exBlockS1_def imageSync_def
       SynchronizeGridExtents_ImageData_def exImage_def realOps_def newInformation_def
       ComputeAdjacencyAndOverlapMasks_def Adjacency_defs Overlap_defs LinkGrid_def faceAdjacent_def
       faceSwitch_def AddGhostLayerToGrid_def noGridPoints_def UpdateOutputGridStructure_def
       toInt_fits fitsInt_def Let_def)

theorem C6_output_extent_widened_witness:
  "ComputeGridLinkMapAndAllocateGhosts_block (imageSync realOps (exImage (MkExtent 0 4 0 4 0 4) 3))
      noGridPoints 2 3 (MkExtent 0 4 0 4 0 4) [] exBlockS1 =
   Some \<lparr>Block = \<lparr>BlockInformation =
                    \<lparr>InformationExtent = MkExtent 0 4 0 4 0 4,
                       ExtentGhostThickness = MkExtent 0 2 0 0 0 0\<rparr>,
                  BlockStructures =
                    [(1, (exImage (MkExtent 4 8 0 4 0 4) 3)
                          \<lparr>AdjacencyMask := 2, ExtentWithNewGhosts := MkExtent 2 8 0 4 0 4\<rparr>)]\<rparr>,
         LocalLinks = {1}, OutputExtent = MkExtent 0 6 0 4 0 4, Logged = []\<rparr> \<and>
   ext_at (MkExtent 0 6 0 4 0 4) 1 - ext_at (MkExtent 0 6 0 4 0 4) 0 -
     (ext_at (MkExtent 0 4 0 4 0 4) 1 - ext_at (MkExtent 0 4 0 4 0 4) 0) =
     ext_at (MkExtent 0 2 0 0 0 0) 0 + ext_at (MkExtent 0 2 0 0 0 0) 1 \<and>
   ext_at (MkExtent 0 2 0 0 0 0) 0 + ext_at (MkExtent 0 2 0 0 0 0) 1 \<le> 2 * (2::int)"
proof -
  have h1: "IsExtentValid (InformationExtent (BlockInformation exBlockS1))"
    by (simp add: exBlockS1_def newInformation_def IsExtentValid_def)
  have h2: "(0::int) \<le> 2" by simp
  have h3: "ExtentGhostThickness (BlockInformation exBlockS1) = MkExtent 0 0 0 0 0 0"
    by (simp add: exBlockS1_def newInformation_def)
  have h4: "\<forall>e\<in>set (BlockStructures exBlockS1).
      imageSync realOps (exImage (MkExtent 0 4 0 4 0 4) 3) (BlockInformation exBlockS1) (snd e) \<noteq> None"
    by (simp add: imageSync_def)
  have h5: "(0::nat) < 3" by simp
  have h6: "fitsInt (ext_at (InformationExtent (BlockInformation exBlockS1)) (2 * 0) - 2)"
    by (simp add: exBlockS1_def newInformation_def fitsInt_def)
  have h7: "fitsInt (ext_at (InformationExtent (BlockInformation exBlockS1)) (2 * 0 + 1) + 2)"
    by (simp add: exBlockS1_def newInformation_def fitsInt_def)
  from C6_output_extent_widened [where sync = "imageSync realOps (exImage (MkExtent 0 4 0 4 0 4) 3)"
      and block = exBlockS1 and pts = noGridPoints and dataDim = 3
      and outputExtentBefore = "MkExtent 0 4 0 4 0 4" and logged = "[]", OF h1 h2 h3 h4 h5 h6 h7]
  show ?thesis
    unfolding exBlockS1_linked by (simp add: exBlockS1_def newInformation_def)
qed

text \<open>
  A block whose information holds an extent with \<open>min > max\<close> on some axis. Peers are not
  aborted: the link-map computation clears the block's \<^verbatim>\<open>BlockStructures\<close>, leaves its link
  set empty, its output as it was and the log unchanged; the matchers of every peer (uniform
  and rectilinear) reject the block's descriptor, and a peer's link-map computation runs as if
  the descriptor were absent, so that no payload travels to or from the block along a link.
  In the descriptor round the block still sends its descriptor to every other block.
\<close>

lemma invalid_information_extent_is_isolated:
  assumes invalid: "\<not> IsExtentValid (InformationExtent (BlockInformation block))"
    and img: "Extent imageDescriptor = InformationExtent (BlockInformation block)"
    and rect: "Extent rectilinearDescriptor = InformationExtent (BlockInformation block)"
    and peel: "PeelOffGhostLayers cellId grid inputGhostLevels =
                 Some (InformationExtent (BlockInformation block))"
  shows "ComputeGridLinkMapAndAllocateGhosts_block sync pts outputGhostLevels dataDim
           outputExtentBefore logged block =
           Some \<lparr>Block = block\<lparr>BlockStructures := []\<rparr>, LocalLinks = {},
                 OutputExtent = outputExtentBefore, Logged = logged\<rparr> \<and>
         SynchronizeGridExtents_ImageData ops peerImage imageDescriptor = None \<and>
         linkNeighbors (imageSync ops peerInput peerInformation) peerPts peerExtent outputGhostLevels
             peerDim (before @ (gid, imageDescriptor) # after) peerState =
           linkNeighbors (imageSync ops peerInput peerInformation) peerPts peerExtent outputGhostLevels
             peerDim (before @ after) peerState \<and>
         SynchronizeGridExtents_RectilinearGrid lt Equals peerRectilinear rectilinearDescriptor =
           Some None \<and>
         (\<exists>extent payload.
            ExchangeBlockStructures_ImageData_round0 cellId grid inputGhostLevels input myBlockId out_link =
              Some (extent, map (\<lambda>target. (target, payload))
                                (filter (\<lambda>target. target \<noteq> myBlockId) out_link)))"
proof -
  have 1: "ComputeGridLinkMapAndAllocateGhosts_block sync pts outputGhostLevels dataDim
           outputExtentBefore logged block =
           Some \<lparr>Block = block\<lparr>BlockStructures := []\<rparr>, LocalLinks = {},
                 OutputExtent = outputExtentBefore, Logged = logged\<rparr>"
    using invalid
    by (auto simp: ComputeGridLinkMapAndAllocateGhosts_block_def Let_def IsExtentValid_def)
  have 2: "SynchronizeGridExtents_ImageData ops' l imageDescriptor = None" for ops' l
    using invalid
    by (auto simp: SynchronizeGridExtents_ImageData_def Let_def IsExtentValid_def img)
  have 3: "imageSync ops peerInput peerInformation imageDescriptor = Some None"
    by (simp add: imageSync_def 2)
  have 4: "SynchronizeGridExtents_RectilinearGrid lt Equals peerRectilinear rectilinearDescriptor =
           Some None"
    using invalid
    by (auto simp: SynchronizeGridExtents_RectilinearGrid_def Let_def IsExtentValid_def rect)
  have 5: "\<exists>extent payload.
            ExchangeBlockStructures_ImageData_round0 cellId grid inputGhostLevels input myBlockId out_link =
              Some (extent, map (\<lambda>target. (target, payload))
                                (filter (\<lambda>target. target \<noteq> myBlockId) out_link))"
    by (simp add: ExchangeBlockStructures_ImageData_round0_def peel enqueueToOthers_eq)
  from 1 2 linkNeighbors_skip [of "imageSync ops peerInput peerInformation" imageDescriptor, OF 3] 4 5
  show ?thesis by (intro conjI)
qed

text \<open>A block with the invalid extent \<open>[1, 0, 0, 0, 0, 0]\<close> that knows one other block.\<close>

definition exInvalidBlock :: "(unit, (real, unit) ImageDataBlockStructure_ext) GridBlock" where
  "exInvalidBlock = \<lparr>BlockInformation = newInformation (MkExtent 1 0 0 0 0 0),
                 BlockStructures = [(1, exImage (MkExtent 0 4 0 4 0 4) 3)]\<rparr>"

text \<open>
  In the descriptor round a block with an invalid extent enqueues its descriptor for the other
  block of its out-link like any other block, and the link-map computation logs nothing for
  it.
\<close>

lemma invalid_block_still_sends_descriptor:
  "\<not> IsExtentValid (MkExtent 1 0 0 0 0 0) \<and>
   ExchangeBlockStructures_ImageData_round0 rowMajorCellId
      \<lparr>GridExtent = MkExtent 1 0 0 0 0 0, CellGhostArray = None\<rparr> 0
      (exImage (MkExtent 1 0 0 0 0 0) 3) 0 [0, 1] =
     Some (MkExtent 1 0 0 0 0 0,
           [(1, [WireInts [3], WireDoubles [0, 0, 0], WireDoubles [1, 1, 1],
                 WireDoubles [1, 0, 0, 0], WireInts [1, 0, 0, 0, 0, 0]])]) \<and>
   Logged (the (ComputeGridLinkMapAndAllocateGhosts_block
      (imageSync realOps (exImage (MkExtent 1 0 0 0 0 0) 3)) noGridPoints 1 3
      (MkExtent 1 0 0 0 0 0) [] exInvalidBlock)) = []"
  by (simp add: IsExtentValid_def ExchangeBlockStructures_ImageData_round0_def
        PeelOffGhostLayers_def exImage_def ComputeGridLinkMapAndAllocateGhosts_block_def
        exInvalidBlock_def newInformation_def Let_def)

lemma invalid_information_extent_is_isolated_example:
  "ComputeGridLinkMapAndAllocateGhosts_block
      (imageSync realOps (exImage (MkExtent 1 0 0 0 0 0) 3)) noGridPoints 1 3
      (MkExtent 1 0 0 0 0 0) [] exInvalidBlock =
     Some \<lparr>Block = exInvalidBlock\<lparr>BlockStructures := []\<rparr>, LocalLinks = {},
           OutputExtent = MkExtent 1 0 0 0 0 0, Logged = []\<rparr> \<and>
   SynchronizeGridExtents_ImageData realOps (exImage (MkExtent 0 4 0 4 0 4) 3)
      (exImage (MkExtent 1 0 0 0 0 0) 3) = None \<and>
   SynchronizeGridExtents_RectilinearGrid (<) (=) exLocalRect
      (exLocalRect\<lparr>Extent := MkExtent 1 0 0 0 0 0\<rparr>) = Some None"
proof -
  have h1: "\<not> IsExtentValid (InformationExtent (BlockInformation exInvalidBlock))"
    by (simp add: exInvalidBlock_def newInformation_def IsExtentValid_def)
  have h2: "Extent (exImage (MkExtent 1 0 0 0 0 0) 3) =
      InformationExtent (BlockInformation exInvalidBlock)"
    by (simp add: exInvalidBlock_def newInformation_def exImage_def)
  have h3: "Extent (exLocalRect\<lparr>Extent := MkExtent 1 0 0 0 0 0\<rparr>) =
      InformationExtent (BlockInformation exInvalidBlock)"
    by (simp add: exInvalidBlock_def newInformation_def)
  have h4: "PeelOffGhostLayers rowMajorCellId
      \<lparr>GridExtent = MkExtent 1 0 0 0 0 0, CellGhostArray = None\<rparr> 0 =
      Some (InformationExtent (BlockInformation exInvalidBlock))"
    by (simp add: PeelOffGhostLayers_def exInvalidBlock_def newInformation_def)
  from invalid_information_extent_is_isolated [where sync = "imageSync realOps (exImage (MkExtent 1 0 0 0 0 0) 3)"
      and pts = noGridPoints and outputGhostLevels = 1 and dataDim = 3
      and outputExtentBefore = "MkExtent 1 0 0 0 0 0" and logged = "[]" and ops = realOps
      and peerImage = "exImage (MkExtent 0 4 0 4 0 4) 3" and lt = "(<)" and Equals = "(=)"
      and peerRectilinear = exLocalRect and peerInput = "exImage (MkExtent 0 4 0 4 0 4) 3"
      and peerInformation = "newInformation (MkExtent 0 4 0 4 0 4)" and peerPts = noGridPoints
      and peerExtent = "MkExtent 0 4 0 4 0 4" and peerDim = 3 and before = "[]" and after = "[]"
      and gid = 0 and peerState = "(newInformation (MkExtent 0 4 0 4 0 4), {}, [])"
      and input = "exImage (MkExtent 1 0 0 0 0 0) 3" and myBlockId = 0 and out_link = "[0, 1]",
      OF h1 h2 h3 h4]
  show ?thesis by simp
qed


text \<open>
  An image without points (extent \<open>[0, -1, 0, -1, 0, -1]\<close>) that carries a cell-ghost array,
  and the block it becomes once its extent is peeled, with the descriptor of one neighbour: an
  image of the single point \<open>(1, 1, 1)\<close>. Both images have data dimension 0.
\<close>

definition exEmptyImage :: GridDataSet where
  "exEmptyImage = \<lparr>GridExtent = MkExtent 0 (- 1) 0 (- 1) 0 (- 1), CellGhostArray = Some []\<rparr>"

definition exPeeledEmptyBlock :: "(unit, (real, unit) ImageDataBlockStructure_ext) GridBlock" where
  "exPeeledEmptyBlock = \<lparr>BlockInformation = newInformation (MkExtent 0 1 0 1 0 1),
                 BlockStructures = [(1, exImage (MkExtent 1 1 1 1 1 1) 0)]\<rparr>"

lemma PeelOffGhostLayers_empty_image:
  "PeelOffGhostLayers cellId \<lparr>GridExtent = MkExtent 0 (- 1) 0 (- 1) 0 (- 1), CellGhostArray = Some ghosts\<rparr> 0 =
     Some (MkExtent 0 1 0 1 0 1)"
  by (simp add: PeelOffGhostLayers_def peelLower.simps peelUpper.simps lowerGo_def
          upperGo_def Let_def)

text \<open>
  Claim C8. The uniform-grid overload of \<^verbatim>\<open>ExchangeBlockStructures\<close> peels the input without
  testing its extent (the rectilinear overload tests \<^verbatim>\<open>IsExtentValid\<close> first). The peeler turns
  the invalid extent into the valid \<open>[0, 1, 0, 1, 0, 1]\<close>, which the block publishes; the
  link-map computation, which tests the peeled extent, does not clear the block: it links the
  block to its neighbour and gives its output the extent \<open>[0, 1, 0, 1, 0, 1]\<close>.
\<close>

theorem C8_empty_image_is_not_isolated:
  "\<not> IsExtentValid (GridExtent exEmptyImage) \<and>
   ExchangeBlockStructures_ImageData_round0 rowMajorCellId exEmptyImage 0
      (exImage (GridExtent exEmptyImage) 0) 0 [0, 1] =
     Some (MkExtent 0 1 0 1 0 1,
           [(1, [WireInts [0], WireDoubles [0, 0, 0], WireDoubles [1, 1, 1],
                 WireDoubles [1, 0, 0, 0], WireInts [0, 1, 0, 1, 0, 1]])]) \<and>
   ComputeGridLinkMapAndAllocateGhosts_block
      (imageSync realOps (exImage (GridExtent exEmptyImage) 0)) noGridPoints 1 0
      (GridExtent exEmptyImage) [] exPeeledEmptyBlock =
     Some \<lparr>Block = \<lparr>BlockInformation = newInformation (MkExtent 0 1 0 1 0 1),
                      BlockStructures =
                        [(1, (exImage (MkExtent 1 1 1 1 1 1) 0)\<lparr>AdjacencyMask := 42\<rparr>)]\<rparr>,
           LocalLinks = {1}, OutputExtent = MkExtent 0 1 0 1 0 1, Logged = []\<rparr>"
  by (simp add: IsExtentValid_def exEmptyImage_def PeelOffGhostLayers_empty_image
        ExchangeBlockStructures_ImageData_round0_def exPeeledEmptyBlock_def
        ComputeGridLinkMapAndAllocateGhosts_block_def imageSync_def
        SynchronizeGridExtents_ImageData_def exImage_def realOps_def newInformation_def
        ComputeAdjacencyAndOverlapMasks_def Adjacency_defs Overlap_defs LinkGrid_def faceAdjacent_def
        edgeAdjacent_def cornerSwitch_def AddGhostLayerToGrid_def noGridPoints_def
        UpdateOutputGridStructure_def toInt_fits fitsInt_def Let_def)

section \<open>Filling arrays over index ranges\<close>

text \<open>
  The \<^verbatim>\<open>for\<close> loops of the fill functions, with a strict and with an inclusive upper
  bound. A body that fails (a write outside the array) ends the loop with the failure.
\<close>

function forLt :: "int \<Rightarrow> int \<Rightarrow> (int \<Rightarrow> 's \<Rightarrow> 's option) \<Rightarrow> 's \<Rightarrow> 's option" where
  "forLt i iend body s =
     (if i < iend then (case body i s of None \<Rightarrow> None | Some s' \<Rightarrow> forLt (i + 1) iend body s')
      else Some s)"
  by pat_completeness auto
termination
  by (relation "measure (\<lambda>(i, iend, body, s). nat (iend - i))") auto

function forLe :: "int \<Rightarrow> int \<Rightarrow> (int \<Rightarrow> 's \<Rightarrow> 's option) \<Rightarrow> 's \<Rightarrow> 's option" where
  "forLe i ilast body s =
     (if i \<le> ilast then (case body i s of None \<Rightarrow> None | Some s' \<Rightarrow> forLe (i + 1) ilast body s')
      else Some s)"
  by pat_completeness auto
termination
  by (relation "measure (\<lambda>(i, ilast, body, s). nat (ilast + 1 - i))") auto

declare forLt.simps [simp del] forLe.simps [simp del]

text \<open>Running the bodies of a list of loop indices in order, stopping at the first failure.\<close>

fun runAll :: "(int \<Rightarrow> 's \<Rightarrow> 's option) \<Rightarrow> int list \<Rightarrow> 's \<Rightarrow> 's option" where
  "runAll body [] s = Some s"
| "runAll body (x # xs) s = (case body x s of None \<Rightarrow> None | Some s' \<Rightarrow> runAll body xs s')"

lemma forLe_runAll: "forLe i ilast body s = runAll body [i..ilast] s"
proof (induction i ilast body s rule: forLe.induct)
  case (1 i ilast body s)
  show ?case
  proof (cases "i \<le> ilast")
    case True
    then have u: "[i..ilast] = i # [i + 1..ilast]" by (simp add: upto_rec1)
    show ?thesis
      using True 1 by (subst forLe.simps) (simp add: u split: option.splits)
  next
    case False
    then show ?thesis by (subst forLe.simps) simp
  qed
qed

lemma forLt_runAll: "forLt i iend body s = runAll body [i..iend - 1] s"
proof (induction i iend body s rule: forLt.induct)
  case (1 i iend body s)
  show ?case
  proof (cases "i < iend")
    case True
    then have u: "[i..iend - 1] = i # [i + 1..iend - 1]" by (simp add: upto_rec1)
    show ?thesis
      using True 1 by (subst forLt.simps) (simp add: u split: option.splits)
  next
    case False
    then show ?thesis by (subst forLt.simps) simp
  qed
qed

definition SetValue :: "'a list \<Rightarrow> int \<Rightarrow> 'a \<Rightarrow> 'a list option" where
  "SetValue array valueIdx v =
     (if 0 \<le> valueIdx \<and> valueIdx < int (length array) then Some (array[nat valueIdx := v]) else None)"

text \<open>Writing one value at each index of a list, in order.\<close>

fun paintAll :: "'a \<Rightarrow> int list \<Rightarrow> 'a list \<Rightarrow> 'a list option" where
  "paintAll v [] a = Some a"
| "paintAll v (i # idxs) a = (case SetValue a i v of None \<Rightarrow> None | Some a' \<Rightarrow> paintAll v idxs a')"

lemma paintAll_append:
  "paintAll v (xs @ ys) a = (case paintAll v xs a of None \<Rightarrow> None | Some a' \<Rightarrow> paintAll v ys a')"
  by (induction xs arbitrary: a) (simp_all split: option.splits)

lemma runAll_paints:
  assumes "\<And>x a. body x a = paintAll v (F x) a"
  shows "runAll body xs a = paintAll v (concat (map F xs)) a"
  by (induction xs arbitrary: a) (simp_all add: assms paintAll_append split: option.splits)

lemma paintAll_Some:
  assumes "paintAll v idxs a = Some a'"
  shows "length a' = length a \<and> (\<forall>i\<in>set idxs. 0 \<le> i \<and> i < int (length a)) \<and>
         (\<forall>j<length a. a' ! j = (if int j \<in> set idxs then v else a ! j))"
  using assms
proof (induction idxs arbitrary: a)
  case Nil
  then show ?case by simp
next
  case (Cons i idxs)
  from Cons.prems obtain a1 where s: "SetValue a i v = Some a1" and r: "paintAll v idxs a1 = Some a'"
    by (auto split: option.splits)
  from s have i: "0 \<le> i" "i < int (length a)" and a1: "a1 = a[nat i := v]"
    by (auto simp: SetValue_def split: if_splits)
  note ih = Cons.IH [OF r]
  have "\<forall>j<length a. a' ! j = (if int j \<in> set (i # idxs) then v else a ! j)"
  proof (intro allI impI)
    fix j assume j: "j < length a"
    show "a' ! j = (if int j \<in> set (i # idxs) then v else a ! j)"
    proof (cases "int j = i")
      case True
      then have "nat i = j" by simp
      then show ?thesis using ih j True by (simp add: a1)
    next
      case False
      then have "nat i \<noteq> j" using i by auto
      then show ?thesis using ih j False by (simp add: a1)
    qed
  qed
  then show ?case using ih i by (simp add: a1)
qed

lemma paintAll_defined:
  assumes "\<forall>i\<in>set idxs. 0 \<le> i \<and> i < int (length a)"
  shows "\<exists>a'. paintAll v idxs a = Some a'"
  using assms
proof (induction idxs arbitrary: a)
  case Nil
  then show ?case by simp
next
  case (Cons i idxs)
  then show ?case by (simp add: SetValue_def)
qed

lemma paintAll_idempotent:
  assumes "paintAll v idxs a = Some a'"
  shows "paintAll v idxs a' = Some a'"
proof -
  note p = paintAll_Some [OF assms]
  have "\<forall>i\<in>set idxs. 0 \<le> i \<and> i < int (length a')" using p by simp
  from paintAll_defined [OF this] obtain a'' where q: "paintAll v idxs a' = Some a''" by blast
  note p' = paintAll_Some [OF q]
  have "a'' = a'"
  proof (rule nth_equalityI)
    show "length a'' = length a'" using p' by simp
  next
    fix j assume "j < length a''"
    then have j: "j < length a'" "j < length a" using p p' by simp_all
    show "a'' ! j = a' ! j" using p p' j by simp
  qed
  then show ?thesis using q by simp
qed


section \<open>Hidden ghosts\<close>

definition FillGridCellArray ::
  "idForExtent \<Rightarrow> 'a list \<Rightarrow> ExtentType \<Rightarrow> int \<Rightarrow> int \<Rightarrow> int \<Rightarrow> int \<Rightarrow> int \<Rightarrow> int \<Rightarrow> 'a \<Rightarrow> 'a list option" where
  "FillGridCellArray cellId array gridExtent imin imax jmin jmax kmin kmax val =
     forLt kmin kmax (\<lambda>k.
       forLt jmin jmax (\<lambda>j.
         forLt imin imax (\<lambda>i a. SetValue a (cellId gridExtent (i, j, k)) val))) array"

definition FillGridPointArray ::
  "idForExtent \<Rightarrow> 'a list \<Rightarrow> ExtentType \<Rightarrow> int \<Rightarrow> int \<Rightarrow> int \<Rightarrow> int \<Rightarrow> int \<Rightarrow> int \<Rightarrow> 'a \<Rightarrow> 'a list option" where
  "FillGridPointArray pointId array gridExtent imin imax jmin jmax kmin kmax val =
     forLe kmin kmax (\<lambda>k.
       forLe jmin jmax (\<lambda>j.
         forLe imin imax (\<lambda>i a. SetValue a (pointId gridExtent (i, j, k)) val))) array"

record ('i, 'b) GhostGridBlock = "('i, 'b) GridBlock" +
  GhostCellArray :: vtkUnsignedCharArray
  GhostPointArray :: vtkUnsignedCharArray

type_synonym ghostArrays = "vtkUnsignedCharArray \<times> vtkUnsignedCharArray"

definition fillHiddenX ::
  "idForExtent \<Rightarrow> idForExtent \<Rightarrow> uchar \<Rightarrow> uchar \<Rightarrow> ExtentType \<Rightarrow> ExtentType \<Rightarrow>
   (nat \<Rightarrow> int) \<Rightarrow> ghostArrays \<Rightarrow> ghostArrays option" where
  "fillHiddenX cellId pointId HIDDENCELL HIDDENPOINT localExtent localExtentWithNoGhosts
     isDimensionDegenerate arrays =
     (case arrays of (ghostCellArray, ghostPointArray) \<Rightarrow>
      Option.bind (FillGridCellArray cellId ghostCellArray localExtent
          (ext_at localExtent 0) (ext_at localExtentWithNoGhosts 0)
          (ext_at localExtent 2) (ext_at localExtent 3 + isDimensionDegenerate 1)
          (ext_at localExtent 4) (ext_at localExtent 5 + isDimensionDegenerate 2) HIDDENCELL)
      (\<lambda>cells1. Option.bind (FillGridCellArray cellId cells1 localExtent
          (ext_at localExtentWithNoGhosts 1) (ext_at localExtent 1)
          (ext_at localExtent 2) (ext_at localExtent 3 + isDimensionDegenerate 1)
          (ext_at localExtent 4) (ext_at localExtent 5 + isDimensionDegenerate 2) HIDDENCELL)
      (\<lambda>cells2. Option.bind (FillGridPointArray pointId ghostPointArray localExtent
          (ext_at localExtent 0) (ext_at localExtentWithNoGhosts 0 - 1)
          (ext_at localExtent 2) (ext_at localExtent 3)
          (ext_at localExtent 4) (ext_at localExtent 5) HIDDENPOINT)
      (\<lambda>points1. Option.bind (FillGridPointArray pointId points1 localExtent
          (ext_at localExtentWithNoGhosts 1 + 1) (ext_at localExtent 1)
          (ext_at localExtent 2) (ext_at localExtent 3)
          (ext_at localExtent 4) (ext_at localExtent 5) HIDDENPOINT)
      (\<lambda>points2. Some (cells2, points2))))))"

definition fillHiddenY ::
  "idForExtent \<Rightarrow> idForExtent \<Rightarrow> uchar \<Rightarrow> uchar \<Rightarrow> ExtentType \<Rightarrow> ExtentType \<Rightarrow>
   (nat \<Rightarrow> int) \<Rightarrow> ghostArrays \<Rightarrow> ghostArrays option" where
  "fillHiddenY cellId pointId HIDDENCELL HIDDENPOINT localExtent localExtentWithNoGhosts
     isDimensionDegenerate arrays =
     (case arrays of (ghostCellArray, ghostPointArray) \<Rightarrow>
      Option.bind (FillGridCellArray cellId ghostCellArray localExtent
          (ext_at localExtent 0) (ext_at localExtent 1 + isDimensionDegenerate 0)
          (ext_at localExtent 2) (ext_at localExtentWithNoGhosts 2)
          (ext_at localExtent 4) (ext_at localExtent 5 + isDimensionDegenerate 2) HIDDENCELL)
      (\<lambda>cells1. Option.bind (FillGridCellArray cellId cells1 localExtent
          (ext_at localExtent 0) (ext_at localExtent 1 + isDimensionDegenerate 0)
          (ext_at localExtentWithNoGhosts 3) (ext_at localExtent 3)
          (ext_at localExtent 4) (ext_at localExtent 5 + isDimensionDegenerate 2) HIDDENCELL)
      (\<lambda>cells2. Option.bind (FillGridPointArray pointId ghostPointArray localExtent
          (ext_at localExtent 0) (ext_at localExtent 1)
          (ext_at localExtent 2) (ext_at localExtentWithNoGhosts 2 - 1)
          (ext_at localExtent 4) (ext_at localExtent 5) HIDDENPOINT)
      (\<lambda>points1. Option.bind (FillGridPointArray pointId points1 localExtent
          (ext_at localExtent 0) (ext_at localExtent 1)
          (ext_at localExtentWithNoGhosts 3 + 1) (ext_at localExtent 3)
          (ext_at localExtent 4) (ext_at localExtent 5) HIDDENPOINT)
      (\<lambda>points2. Some (cells2, points2))))))"

definition fillHiddenZ ::
  "idForExtent \<Rightarrow> idForExtent \<Rightarrow> uchar \<Rightarrow> uchar \<Rightarrow> ExtentType \<Rightarrow> ExtentType \<Rightarrow>
   (nat \<Rightarrow> int) \<Rightarrow> ghostArrays \<Rightarrow> ghostArrays option" where
  "fillHiddenZ cellId pointId HIDDENCELL HIDDENPOINT localExtent localExtentWithNoGhosts
     isDimensionDegenerate arrays =
     (case arrays of (ghostCellArray, ghostPointArray) \<Rightarrow>
      Option.bind (FillGridCellArray cellId ghostCellArray localExtent
          (ext_at localExtent 0) (ext_at localExtent 1 + isDimensionDegenerate 0)
          (ext_at localExtent 2) (ext_at localExtent 3 + isDimensionDegenerate 1)
          (ext_at localExtent 4) (ext_at localExtentWithNoGhosts 4) HIDDENCELL)
      (\<lambda>cells1. Option.bind (FillGridCellArray cellId cells1 localExtent
          (ext_at localExtent 0) (ext_at localExtent 1 + isDimensionDegenerate 0)
          (ext_at localExtent 2) (ext_at localExtent 3 + isDimensionDegenerate 1)
          (ext_at localExtentWithNoGhosts 5) (ext_at localExtent 5) HIDDENCELL)
      (\<lambda>cells2. Option.bind (FillGridPointArray pointId ghostPointArray localExtent
          (ext_at localExtent 0) (ext_at localExtent 1)
          (ext_at localExtent 2) (ext_at localExtent 3)
          (ext_at localExtent 4) (ext_at localExtentWithNoGhosts 4 - 1) HIDDENPOINT)
      (\<lambda>points1. Option.bind (FillGridPointArray pointId points1 localExtent
          (ext_at localExtent 0) (ext_at localExtent 1)
          (ext_at localExtent 2) (ext_at localExtent 3)
          (ext_at localExtentWithNoGhosts 5 + 1) (ext_at localExtent 5) HIDDENPOINT)
      (\<lambda>points2. Some (cells2, points2))))))"

text \<open>
  The body of the loop over the local blocks: \<open>localExtent\<close> is the extent of the output grid,
  the extent without ghosts is the one stored in the block's information.
\<close>

definition FillGridHiddenGhosts_block ::
  "idForExtent \<Rightarrow> idForExtent \<Rightarrow> uchar \<Rightarrow> uchar \<Rightarrow> ExtentType \<Rightarrow>
   ('i, 'b, 'z) GhostGridBlock_scheme \<Rightarrow> ('i, 'b, 'z) GhostGridBlock_scheme option" where
  "FillGridHiddenGhosts_block cellId pointId HIDDENCELL HIDDENPOINT localExtent block =
     (let localExtentWithNoGhosts = InformationExtent (BlockInformation block);
          isDimensionDegenerate =
            (\<lambda>a. of_bool (ext_at localExtent (2 * a) = ext_at localExtent (2 * a + 1)));
          arrays0 = Some (GhostCellArray block, GhostPointArray block);
          arrays1 = (if isDimensionDegenerate 0 = 0
                     then Option.bind arrays0 (fillHiddenX cellId pointId HIDDENCELL HIDDENPOINT
                            localExtent localExtentWithNoGhosts isDimensionDegenerate)
                     else arrays0);
          arrays2 = (if isDimensionDegenerate 1 = 0
                     then Option.bind arrays1 (fillHiddenY cellId pointId HIDDENCELL HIDDENPOINT
                            localExtent localExtentWithNoGhosts isDimensionDegenerate)
                     else arrays1);
          arrays3 = (if isDimensionDegenerate 2 = 0
                     then Option.bind arrays2 (fillHiddenZ cellId pointId HIDDENCELL HIDDENPOINT
                            localExtent localExtentWithNoGhosts isDimensionDegenerate)
                     else arrays2)
      in map_option (\<lambda>(cells, points).
           block\<lparr>GhostCellArray := cells, GhostPointArray := points\<rparr>) arrays3)"

text \<open>
  The blocks of the master are a list indexed by the local id; \<open>outputs\<close> holds the extent of
  each output grid. Asking the master for a block it does not hold is a failure.
\<close>

definition FillGridHiddenGhosts ::
  "idForExtent \<Rightarrow> idForExtent \<Rightarrow> uchar \<Rightarrow> uchar \<Rightarrow> ExtentType list \<Rightarrow>
   ('i, 'b, 'z) GhostGridBlock_scheme list \<Rightarrow> ('i, 'b, 'z) GhostGridBlock_scheme list option" where
  "FillGridHiddenGhosts cellId pointId HIDDENCELL HIDDENPOINT outputs master =
     forLt 0 (int (length outputs)) (\<lambda>localId blocks.
       case GetValue blocks localId of
         None \<Rightarrow> None
       | Some block \<Rightarrow>
           map_option (\<lambda>block'. blocks[nat localId := block'])
             (FillGridHiddenGhosts_block cellId pointId HIDDENCELL HIDDENPOINT
                (outputs ! nat localId) block)) master"

subsection \<open>Every fill paints a list of indices\<close>

definition cellIdsOf :: "idForExtent \<Rightarrow> ExtentType \<Rightarrow> int \<Rightarrow> int \<Rightarrow> int \<Rightarrow> int \<Rightarrow> int \<Rightarrow> int \<Rightarrow> int list" where
  "cellIdsOf cellId gridExtent imin imax jmin jmax kmin kmax =
     concat (map (\<lambda>k. concat (map (\<lambda>j. map (\<lambda>i. cellId gridExtent (i, j, k)) [imin..imax - 1])
       [jmin..jmax - 1])) [kmin..kmax - 1])"

definition pointIdsOf :: "idForExtent \<Rightarrow> ExtentType \<Rightarrow> int \<Rightarrow> int \<Rightarrow> int \<Rightarrow> int \<Rightarrow> int \<Rightarrow> int \<Rightarrow> int list" where
  "pointIdsOf pointId gridExtent imin imax jmin jmax kmin kmax =
     concat (map (\<lambda>k. concat (map (\<lambda>j. map (\<lambda>i. pointId gridExtent (i, j, k)) [imin..imax])
       [jmin..jmax])) [kmin..kmax])"

lemma SetValue_paints: "SetValue a i v = paintAll v [i] a"
  by (simp split: option.splits)

lemma runAll_SetValue:
  "runAll (\<lambda>i a. SetValue a (f i) v) xs a = paintAll v (map f xs) a"
  using runAll_paints [where body = "\<lambda>i a. SetValue a (f i) v" and v = v and F = "\<lambda>i. [f i]"]
  by (simp add: SetValue_paints del: paintAll.simps)

lemma FillGridCellArray_paints:
  "FillGridCellArray cellId array gridExtent imin imax jmin jmax kmin kmax val =
     paintAll val (cellIdsOf cellId gridExtent imin imax jmin jmax kmin kmax) array"
  unfolding FillGridCellArray_def cellIdsOf_def forLt_runAll runAll_SetValue
  by (simp add: runAll_paints [where v = val])

lemma FillGridPointArray_paints:
  "FillGridPointArray pointId array gridExtent imin imax jmin jmax kmin kmax val =
     paintAll val (pointIdsOf pointId gridExtent imin imax jmin jmax kmin kmax) array"
  unfolding FillGridPointArray_def pointIdsOf_def forLe_runAll runAll_SetValue
  by (simp add: runAll_paints [where v = val])

definition paintBoth :: "'a \<Rightarrow> 'a \<Rightarrow> int list \<Rightarrow> int list \<Rightarrow> 'a list \<times> 'a list \<Rightarrow> ('a list \<times> 'a list) option" where
  "paintBoth vc vp cs ps arrays =
     (case arrays of (c, p) \<Rightarrow>
        (case paintAll vc cs c of None \<Rightarrow> None
         | Some c' \<Rightarrow> (case paintAll vp ps p of None \<Rightarrow> None | Some p' \<Rightarrow> Some (c', p'))))"

lemma paintBoth_four:
  "Option.bind (paintAll vc c1 c) (\<lambda>x1. Option.bind (paintAll vc c2 x1) (\<lambda>x2.
     Option.bind (paintAll vp p1 p) (\<lambda>y1. Option.bind (paintAll vp p2 y1) (\<lambda>y2. Some (x2, y2))))) =
   paintBoth vc vp (c1 @ c2) (p1 @ p2) (c, p)"
  by (simp add: paintBoth_def paintAll_append split: option.splits)

lemma paintBoth_bind:
  "Option.bind (paintBoth vc vp c1 p1 s) (paintBoth vc vp c2 p2) = paintBoth vc vp (c1 @ c2) (p1 @ p2) s"
  by (cases s) (simp add: paintBoth_def paintAll_append split: option.splits)

lemma paintBoth_Nil: "Some s = paintBoth vc vp [] [] s"
  by (cases s) (simp add: paintBoth_def)

lemma paintBoth_idempotent:
  assumes "paintBoth vc vp cs ps s = Some s'"
  shows "paintBoth vc vp cs ps s' = Some s'"
  using assms
  by (cases s; cases s') (auto simp: paintBoth_def paintAll_idempotent split: option.splits)


lemma fillHiddenX_paints:
  "\<exists>cs ps. \<forall>arrays. fillHiddenX cellId pointId hc hp le ne deg arrays = paintBoth hc hp cs ps arrays"
  unfolding fillHiddenX_def FillGridCellArray_paints FillGridPointArray_paints paintBoth_four
  by (intro exI allI) (simp only: case_prod_beta prod.collapse)

lemma fillHiddenY_paints:
  "\<exists>cs ps. \<forall>arrays. fillHiddenY cellId pointId hc hp le ne deg arrays = paintBoth hc hp cs ps arrays"
  unfolding fillHiddenY_def FillGridCellArray_paints FillGridPointArray_paints paintBoth_four
  by (intro exI allI) (simp only: case_prod_beta prod.collapse)

lemma fillHiddenZ_paints:
  "\<exists>cs ps. \<forall>arrays. fillHiddenZ cellId pointId hc hp le ne deg arrays = paintBoth hc hp cs ps arrays"
  unfolding fillHiddenZ_def FillGridCellArray_paints FillGridPointArray_paints paintBoth_four
  by (intro exI allI) (simp only: case_prod_beta prod.collapse)

lemma guarded_paints:
  assumes "\<exists>cs ps. \<forall>s. r s = paintBoth vc vp cs ps s"
    and "\<exists>cs ps. \<forall>s. f s = paintBoth vc vp cs ps s"
  shows "\<exists>cs ps. \<forall>s. (if c then Option.bind (r s) f else r s) = paintBoth vc vp cs ps s"
proof -
  from assms obtain c1 p1 c2 p2 where
    r: "\<And>s. r s = paintBoth vc vp c1 p1 s" and f: "\<And>s. f s = paintBoth vc vp c2 p2 s"
    by blast
  have f': "f = paintBoth vc vp c2 p2" using f by (rule ext)
  show ?thesis
  proof (cases c)
    case True
    then have "\<forall>s. (if c then Option.bind (r s) f else r s) = paintBoth vc vp (c1 @ c2) (p1 @ p2) s"
      by (simp add: r f' paintBoth_bind)
    then show ?thesis by blast
  next
    case False
    then have "\<forall>s. (if c then Option.bind (r s) f else r s) = paintBoth vc vp c1 p1 s"
      by (simp add: r)
    then show ?thesis by blast
  qed
qed

lemma FillGridHiddenGhosts_block_paints:
  "\<exists>cs ps. \<forall>block :: ('i, 'b, 'z) GhostGridBlock_scheme.
     InformationExtent (BlockInformation block) = ne \<longrightarrow>
     FillGridHiddenGhosts_block cellId pointId hc hp le block =
       map_option (\<lambda>(cells, points). block\<lparr>GhostCellArray := cells, GhostPointArray := points\<rparr>)
         (paintBoth hc hp cs ps (GhostCellArray block, GhostPointArray block))"
proof -
  define deg :: "nat \<Rightarrow> int" where
    "deg = (\<lambda>a. of_bool (ext_at le (2 * a) = ext_at le (2 * a + 1)))"
  have 0: "\<exists>cs ps. \<forall>s. Some s = paintBoth hc hp cs ps s"
    by (intro exI [where x = "[]"] allI) (rule paintBoth_Nil)
  note 1 = guarded_paints [OF 0 fillHiddenX_paints [of cellId pointId hc hp le ne deg],
      where c = "deg 0 = 0"]
  note 2 = guarded_paints [OF 1 fillHiddenY_paints [of cellId pointId hc hp le ne deg],
      where c = "deg 1 = 0"]
  note 3 = guarded_paints [OF 2 fillHiddenZ_paints [of cellId pointId hc hp le ne deg],
      where c = "deg 2 = 0"]
  from 3 obtain cs ps where
    p: "\<And>s. (if deg 2 = 0
          then Option.bind (if deg 1 = 0
            then Option.bind (if deg 0 = 0
              then Option.bind (Some s) (fillHiddenX cellId pointId hc hp le ne deg) else Some s)
              (fillHiddenY cellId pointId hc hp le ne deg)
            else (if deg 0 = 0
              then Option.bind (Some s) (fillHiddenX cellId pointId hc hp le ne deg) else Some s))
            (fillHiddenZ cellId pointId hc hp le ne deg)
          else (if deg 1 = 0
            then Option.bind (if deg 0 = 0
              then Option.bind (Some s) (fillHiddenX cellId pointId hc hp le ne deg) else Some s)
              (fillHiddenY cellId pointId hc hp le ne deg)
            else (if deg 0 = 0
              then Option.bind (Some s) (fillHiddenX cellId pointId hc hp le ne deg) else Some s)))
        = paintBoth hc hp cs ps s"
    by blast
  have "\<forall>block :: ('i, 'b, 'z) GhostGridBlock_scheme.
     InformationExtent (BlockInformation block) = ne \<longrightarrow>
     FillGridHiddenGhosts_block cellId pointId hc hp le block =
       map_option (\<lambda>(cells, points). block\<lparr>GhostCellArray := cells, GhostPointArray := points\<rparr>)
         (paintBoth hc hp cs ps (GhostCellArray block, GhostPointArray block))"
    unfolding FillGridHiddenGhosts_block_def Let_def deg_def [symmetric]
    by (intro allI impI) (simp only: p)
  then show ?thesis by blast
qed

lemma FillGridHiddenGhosts_block_idempotent:
  fixes block :: "('i, 'b, 'z) GhostGridBlock_scheme"
  assumes "FillGridHiddenGhosts_block cellId pointId hc hp le block = Some block'"
  shows "FillGridHiddenGhosts_block cellId pointId hc hp le block' = Some block'"
proof -
  from FillGridHiddenGhosts_block_paints
    [where 'i = 'i and 'b = 'b and 'z = 'z, of "InformationExtent (BlockInformation block)"
      cellId pointId hc hp le]
  obtain cs ps where
    p: "\<And>b :: ('i, 'b, 'z) GhostGridBlock_scheme.
          InformationExtent (BlockInformation b) = InformationExtent (BlockInformation block) \<Longrightarrow>
          FillGridHiddenGhosts_block cellId pointId hc hp le b =
            map_option (\<lambda>(cells, points). b\<lparr>GhostCellArray := cells, GhostPointArray := points\<rparr>)
              (paintBoth hc hp cs ps (GhostCellArray b, GhostPointArray b))"
    by blast
  from assms p [of block] obtain c' p' where
    r: "paintBoth hc hp cs ps (GhostCellArray block, GhostPointArray block) = Some (c', p')"
    and b': "block' = block\<lparr>GhostCellArray := c', GhostPointArray := p'\<rparr>"
    by auto
  have e: "InformationExtent (BlockInformation block') = InformationExtent (BlockInformation block)"
    by (simp add: b')
  have a: "(GhostCellArray block', GhostPointArray block') = (c', p')" by (simp add: b')
  show ?thesis
    unfolding p [OF e] a paintBoth_idempotent [OF r] by (simp add: b')
qed

subsection \<open>The loop over the local blocks\<close>

definition atBlock :: "(int \<Rightarrow> 'b \<Rightarrow> 'b option) \<Rightarrow> int \<Rightarrow> 'b list \<Rightarrow> 'b list option" where
  "atBlock g localId blocks =
     (case GetValue blocks localId of
        None \<Rightarrow> None
      | Some block \<Rightarrow> map_option (\<lambda>block'. blocks[nat localId := block']) (g localId block))"

lemma atBlock_Some:
  assumes "atBlock g i bs = Some bs1"
  shows "0 \<le> i \<and> i < int (length bs) \<and>
         (\<exists>b'. g i (bs ! nat i) = Some b' \<and> bs1 = bs[nat i := b'])"
  using assms by (auto simp: atBlock_def GetValue_def split: if_splits option.splits)

lemma runAll_atBlock_Some:
  assumes "runAll (atBlock g) xs bs = Some bs'" and "distinct xs"
  shows "length bs' = length bs \<and>
         (\<forall>i\<in>set xs. 0 \<le> i \<and> i < int (length bs) \<and> g i (bs ! nat i) = Some (bs' ! nat i)) \<and>
         (\<forall>j<length bs. int j \<notin> set xs \<longrightarrow> bs' ! j = bs ! j)"
  using assms
proof (induction xs arbitrary: bs)
  case Nil
  then show ?case by simp
next
  case (Cons x xs)
  from Cons.prems obtain bs1 where s: "atBlock g x bs = Some bs1"
    and r: "runAll (atBlock g) xs bs1 = Some bs'"
    by (auto split: option.splits)
  from atBlock_Some [OF s] obtain b' where x: "0 \<le> x" "x < int (length bs)"
    and g: "g x (bs ! nat x) = Some b'" and bs1: "bs1 = bs[nat x := b']"
    by blast
  from Cons.prems have d: "distinct xs" and nx: "x \<notin> set xs" by simp_all
  note ih = Cons.IH [OF r d]
  have len: "length bs' = length bs" using ih by (simp add: bs1)
  have atx: "bs' ! nat x = b'"
  proof -
    have "nat x < length bs1" using x by (simp add: bs1)
    moreover have "int (nat x) \<notin> set xs" using nx x by simp
    ultimately have "bs' ! nat x = bs1 ! nat x" using ih by blast
    then show ?thesis using x by (simp add: bs1)
  qed
  have ins: "\<forall>i\<in>set (x # xs). 0 \<le> i \<and> i < int (length bs) \<and> g i (bs ! nat i) = Some (bs' ! nat i)"
  proof
    fix i assume i: "i \<in> set (x # xs)"
    show "0 \<le> i \<and> i < int (length bs) \<and> g i (bs ! nat i) = Some (bs' ! nat i)"
    proof (cases "i = x")
      case True
      then show ?thesis using x g atx by simp
    next
      case False
      then have m: "i \<in> set xs" using i by simp
      then have i0: "0 \<le> i" "i < int (length bs)" and gi: "g i (bs1 ! nat i) = Some (bs' ! nat i)"
        using ih by (simp_all add: bs1)
      have "nat i \<noteq> nat x" using False i0 x by simp
      then have "bs1 ! nat i = bs ! nat i" by (simp add: bs1)
      then show ?thesis using i0 gi by simp
    qed
  qed
  have outs: "\<forall>j<length bs. int j \<notin> set (x # xs) \<longrightarrow> bs' ! j = bs ! j"
  proof (intro allI impI)
    fix j assume j: "j < length bs" and n: "int j \<notin> set (x # xs)"
    then have "bs' ! j = bs1 ! j" using ih by (simp add: bs1)
    moreover have "nat x \<noteq> j" using n x by auto
    ultimately show "bs' ! j = bs ! j" by (simp add: bs1)
  qed
  show ?case using len ins outs by blast
qed

lemma runAll_atBlock_fixed:
  assumes "\<forall>i\<in>set xs. 0 \<le> i \<and> i < int (length c) \<and> g i (c ! nat i) = Some (c ! nat i)"
  shows "runAll (atBlock g) xs c = Some c"
  using assms by (induction xs) (simp_all add: atBlock_def GetValue_def)

lemma runAll_atBlock_idempotent:
  assumes "runAll (atBlock g) xs bs = Some bs'" and "distinct xs"
    and "\<And>i b b'. g i b = Some b' \<Longrightarrow> g i b' = Some b'"
  shows "runAll (atBlock g) xs bs' = Some bs'"
proof (rule runAll_atBlock_fixed, rule ballI)
  fix i assume i: "i \<in> set xs"
  note s = runAll_atBlock_Some [OF assms(1,2)]
  from s i have "0 \<le> i" "i < int (length bs')" "g i (bs ! nat i) = Some (bs' ! nat i)"
    by simp_all
  then show "0 \<le> i \<and> i < int (length bs') \<and> g i (bs' ! nat i) = Some (bs' ! nat i)"
    using assms(3) by blast
qed

lemma FillGridHiddenGhosts_runAll:
  "FillGridHiddenGhosts cellId pointId hc hp outputs master =
     runAll (atBlock (\<lambda>localId. FillGridHiddenGhosts_block cellId pointId hc hp (outputs ! nat localId)))
       [0..int (length outputs) - 1] master"
  unfolding FillGridHiddenGhosts_def forLt_runAll atBlock_def ..

text \<open>Modelled from the spec: the point id of \<open>vtkStructuredData\<close>, row-major in the points of the extent.\<close>

definition rowMajorPointId :: idForExtent where
  "rowMajorPointId extent c =
     ((at3 c 2 - ext_at extent 4) * (ext_at extent 3 - ext_at extent 2 + 1) +
      (at3 c 1 - ext_at extent 2)) * (ext_at extent 1 - ext_at extent 0 + 1) +
     (at3 c 0 - ext_at extent 0)"

definition exGhostBlock :: "(unit, unit) GhostGridBlock" where
  "exGhostBlock =
     \<lparr>BlockInformation = \<lparr>InformationExtent = MkExtent 1 2 0 0 0 0,
                           ExtentGhostThickness = MkExtent 1 1 0 0 0 0\<rparr>,
      BlockStructures = [],
      GhostCellArray = [0, 0, 0],
      GhostPointArray = [0, 0, 0, 0]\<rparr>"

definition exGhostBlock_hidden :: "(unit, unit) GhostGridBlock" where
  "exGhostBlock_hidden = exGhostBlock\<lparr>GhostCellArray := [32, 0, 32], GhostPointArray := [2, 0, 0, 2]\<rparr>"

lemma exGhostBlock_filled:
  "FillGridHiddenGhosts rowMajorCellId rowMajorPointId 32 2 [MkExtent 0 3 0 0 0 0] [exGhostBlock] =
     Some [exGhostBlock_hidden]"
  unfolding FillGridHiddenGhosts_runAll
  by (simp add: atBlock_def GetValue_def FillGridHiddenGhosts_block_def Let_def
      fillHiddenX_def FillGridCellArray_paints FillGridPointArray_paints cellIdsOf_def pointIdsOf_def
      upto_rec1 [of 0] upto_rec1 [of 1] upto_rec1 [of 2] upto_rec1 [of 3]
      rowMajorCellId_def rowMajorPointId_def SetValue_def exGhostBlock_def exGhostBlock_hidden_def)

text \<open>
  Claim C9. A run of \<^verbatim>\<open>FillGridHiddenGhosts\<close> that returns writes the hidden markers at indices
  that depend on the extents only, so a second run on the blocks of the first returns the
  same blocks: every cell-ghost and point-ghost array is left as the first run made it.
\<close>

theorem C9_hidden_ghosts_idempotent:
  fixes master :: "('i, 'b, 'z) GhostGridBlock_scheme list"
  assumes "FillGridHiddenGhosts cellId pointId HIDDENCELL HIDDENPOINT outputs master = Some master'"
  shows "FillGridHiddenGhosts cellId pointId HIDDENCELL HIDDENPOINT outputs master' = Some master'"
  using assms unfolding FillGridHiddenGhosts_runAll
  by (rule runAll_atBlock_idempotent) (simp_all add: FillGridHiddenGhosts_block_idempotent)

text \<open>
  A strip of three cells with one ghost layer on each side of the x axis: the first run marks
  the two end cells and the two end points, the second run changes nothing.
\<close>

theorem C9_hidden_ghosts_idempotent_witness:
  "FillGridHiddenGhosts rowMajorCellId rowMajorPointId 32 2 [MkExtent 0 3 0 0 0 0] [exGhostBlock] =
     Some [exGhostBlock_hidden] \<and>
   FillGridHiddenGhosts rowMajorCellId rowMajorPointId 32 2 [MkExtent 0 3 0 0 0 0] [exGhostBlock_hidden] =
     Some [exGhostBlock_hidden]"
  using C9_hidden_ghosts_idempotent [OF exGhostBlock_filled] exGhostBlock_filled by simp


section \<open>Interface point ids\<close>

text \<open>
  Modelled from the spec: a \<^verbatim>\<open>vtkIdList\<close> is a list of slots. \<^verbatim>\<open>SetNumberOfIds\<close> allocates the
  slots without writing them (a slot never written is \<open>None\<close>), \<^verbatim>\<open>SetId\<close> writes one allocated
  slot and checks no bound, so a write outside the allocated slots is a failure.
\<close>

type_synonym vtkIdList = "int option list"

definition SetNumberOfIds :: "int \<Rightarrow> vtkIdList" where
  "SetNumberOfIds number = replicate (nat number) None"

definition SetId :: "vtkIdList \<Rightarrow> int \<Rightarrow> int \<Rightarrow> vtkIdList option" where
  "SetId ids i vtkid =
     (if 0 \<le> i \<and> i < int (length ids) then Some (ids[nat i := Some vtkid]) else None)"

definition ComputeGridInterfacePointIds ::
  "idForExtent \<Rightarrow> uchar \<Rightarrow> ExtentType \<Rightarrow> ExtentType \<Rightarrow> ExtentType \<Rightarrow> vtkIdList option" where
  "ComputeGridInterfacePointIds pointId adjacencyMask localExtent extent gridExtent =
     (let imin = max (ext_at extent 0) (ext_at localExtent 0);
          imax = min (ext_at extent 1) (ext_at localExtent 1);
          jmin = max (ext_at extent 2) (ext_at localExtent 2);
          jmax = min (ext_at extent 3) (ext_at localExtent 3);
          kmin = max (ext_at extent 4) (ext_at localExtent 4);
          kmax = min (ext_at extent 5) (ext_at localExtent 5);
          imax = (if adjacencyMask AND Right \<noteq> 0 then imax - 1 else imax);
          jmax = (if adjacencyMask AND Back \<noteq> 0 then jmax - 1 else jmax);
          kmax = (if adjacencyMask AND Top \<noteq> 0 then kmax - 1 else kmax);
          ids = SetNumberOfIds ((imax - imin + 1) * (jmax - jmin + 1) * (kmax - kmin + 1))
      in map_option fst
           (forLe kmin kmax (\<lambda>k.
              forLe jmin jmax (\<lambda>j.
                forLe imin imax (\<lambda>i (ids, count).
                  map_option (\<lambda>ids'. (ids', count + 1))
                    (SetId ids count (pointId gridExtent (i, j, k))))))
              (ids, 0)))"

datatype interfaceError = BlockStructureNotFound | IdWrittenOutOfBounds

definition returned :: "vtkIdList option \<Rightarrow> interfaceError + vtkIdList" where
  "returned r = (case r of None \<Rightarrow> Inl IdWrittenOutOfBounds | Some ids \<Rightarrow> Inr ids)"

text \<open>
  \<^verbatim>\<open>BlockStructures.at(gid)\<close> throws when the block has no structure for \<open>gid\<close>. \<open>gridExtent\<close> is
  the extent of the grid handed in: the input grid for the first function, the output grid
  for the second.
\<close>

definition ComputeInputGridInterfacePointIds ::
  "idForExtent \<Rightarrow> ('i, 'b, 'z) GridBlock_scheme \<Rightarrow> int \<Rightarrow> ExtentType \<Rightarrow> interfaceError + vtkIdList" where
  "ComputeInputGridInterfacePointIds pointId block gid gridExtent =
     (case map_of (BlockStructures block) gid of
        None \<Rightarrow> Inl BlockStructureNotFound
      | Some blockStructure \<Rightarrow>
          (let adjacencyMask = AdjacencyMask blockStructure;
               extent = ExtentWithNewGhosts blockStructure;
               localExtent = InformationExtent (BlockInformation block)
           in returned (ComputeGridInterfacePointIds pointId adjacencyMask localExtent extent gridExtent)))"


subsection \<open>The list that the loops write\<close>























end
